(* ===== verification/Prelude.thy ===== *)
theory Prelude
  imports Main "HOL-Library.Sublist"
begin

text \<open>
  Shared vocabulary of the development.

  Go strings are byte sequences; a \<^typ>\<open>string\<close> (a list of 8-bit characters) is exactly that, so
  \<open>length\<close> is Go's \<open>len\<close> and \<open>take n\<close> is the slice \<open>s[:n]\<close>.  This theory models the functions of
  Go's \<open>strings\<close> and \<open>strconv\<close> packages that the repository calls, and collects the generic facts
  about lists and options that the component theories share.
\<close>

named_theorems go_simps \<open>unfolding rules for the modelled standard library\<close>

section \<open>Errors\<close>

text \<open>
  An \<open>error\<close> value of Go: \<open>errors.New\<close>/\<open>fmt.Errorf\<close> messages (with the argument of a \<open>%q\<close> kept
  apart), the two sentinel errors the code compares against (\<open>sql.ErrNoRows\<close>,
  \<open>database.ErrLastAdmin\<close>) and a failure reported by an external engine (database driver, Docker
  client, random source).  A panic is not an error, but it travels the same way.
\<close>

datatype go_error = ErrNew string | ErrQuoted string string | ErrNoRows | ErrLastAdmin | ErrEngine string | ErrPanic string

type_synonym 'a go_result = "go_error + 'a"

fun is_ok :: "'a go_result \<Rightarrow> bool" where
  "is_ok (Inr _) = True"
| "is_ok (Inl _) = False"

lemma is_ok_iff: "is_ok r \<longleftrightarrow> (\<exists>x. r = Inr x)"
  by (cases r) auto

section \<open>Package strings\<close>

definition hasPrefix :: "string \<Rightarrow> string \<Rightarrow> bool" where
  "hasPrefix s p \<longleftrightarrow> take (length p) s = p"

fun contains :: "string \<Rightarrow> string \<Rightarrow> bool" where
  "contains [] sub \<longleftrightarrow> sub = []"
| "contains (c # s) sub \<longleftrightarrow> hasPrefix (c # s) sub \<or> contains s sub"

definition trimPrefix :: "string \<Rightarrow> string \<Rightarrow> string" where
  "trimPrefix s p = (if hasPrefix s p then drop (length p) s else s)"

text \<open>\<open>strings.Cut(s, c)\<close> for a one-byte separator: the parts before and after, and whether it occurs.\<close>

fun cut :: "string \<Rightarrow> char \<Rightarrow> string \<times> string \<times> bool" where
  "cut [] c = ([], [], False)"
| "cut (x # s) c =
     (if x = c then ([], s, True)
      else case cut s c of (b, a, f) \<Rightarrow> if f then (x # b, a, True) else (x # s, [], False))"

text \<open>\<open>strings.Split(s, c)\<close> for a one-byte separator.\<close>

fun split_on :: "char \<Rightarrow> string \<Rightarrow> string list" where
  "split_on c [] = [[]]"
| "split_on c (x # s) =
     (if x = c then [] # split_on c s
      else (case split_on c s of w # ws \<Rightarrow> (x # w) # ws | [] \<Rightarrow> [[x]]))"

definition truncate :: "string \<Rightarrow> nat \<Rightarrow> string" where
  "truncate v n = (if length v > n then take n v else v)"

text \<open>
  Case mapping.  ASCII letters are mapped as usual.  Two letters outside ASCII have an ASCII upper
  case (U+0131 gives \<open>I\<close>, U+017F gives \<open>S\<close>) and two have an ASCII lower case (U+0130 gives \<open>i\<close>,
  U+212A gives \<open>k\<close>); their UTF-8 encodings are mapped too.  Every other letter outside ASCII maps
  to letters outside ASCII, which no comparison of the repository can observe, and is left as it is.
\<close>

definition ascii_upper :: "char \<Rightarrow> char" where
  "ascii_upper c = (if 97 \<le> (of_char c :: nat) \<and> (of_char c :: nat) \<le> 122
                    then char_of (of_char c - 32 :: nat) else c)"

definition ascii_lower :: "char \<Rightarrow> char" where
  "ascii_lower c = (if 65 \<le> (of_char c :: nat) \<and> (of_char c :: nat) \<le> 90
                    then char_of (of_char c + 32 :: nat) else c)"

fun toUpper :: "string \<Rightarrow> string" where
  "toUpper [] = []"
| "toUpper [c] = [ascii_upper c]"
| "toUpper (c # d # s) =
     (if c = CHR 0xC4 \<and> d = CHR 0xB1 then CHR ''I'' # toUpper s
      else if c = CHR 0xC5 \<and> d = CHR 0xBF then CHR ''S'' # toUpper s
      else ascii_upper c # toUpper (d # s))"

fun toLower :: "string \<Rightarrow> string" where
  "toLower [] = []"
| "toLower (c # s) =
     (if c = CHR 0xC4 \<and> hasPrefix s [CHR 0xB0] then CHR ''i'' # toLower (drop 1 s)
      else if c = CHR 0xE2 \<and> hasPrefix s [CHR 0x84, CHR 0xAA] then CHR ''k'' # toLower (drop 2 s)
      else ascii_lower c # toLower s)"

text \<open>
  \<open>strings.EqualFold(s, t)\<close> where the letters of \<open>t\<close> are ASCII letters other than \<open>k\<close> and \<open>s\<close> (the
  only ASCII letters with a fold outside ASCII): the repository calls it with \<open>"true"\<close> and \<open>"Admin"\<close>.
\<close>

definition equalFold :: "string \<Rightarrow> string \<Rightarrow> bool" where
  "equalFold s t \<longleftrightarrow> map ascii_lower s = map ascii_lower t"

text \<open>The UTF-8 encodings of the white space of \<open>unicode.IsSpace\<close>.\<close>

definition spaceRunes :: "string list" where
  "spaceRunes =
     [[CHR 0x09], [CHR 0x0A], [CHR 0x0B], [CHR 0x0C], [CHR 0x0D], [CHR 0x20],
      [CHR 0xC2, CHR 0x85], [CHR 0xC2, CHR 0xA0], [CHR 0xE1, CHR 0x9A, CHR 0x80],
      [CHR 0xE2, CHR 0x80, CHR 0x80], [CHR 0xE2, CHR 0x80, CHR 0x81], [CHR 0xE2, CHR 0x80, CHR 0x82],
      [CHR 0xE2, CHR 0x80, CHR 0x83], [CHR 0xE2, CHR 0x80, CHR 0x84], [CHR 0xE2, CHR 0x80, CHR 0x85],
      [CHR 0xE2, CHR 0x80, CHR 0x86], [CHR 0xE2, CHR 0x80, CHR 0x87], [CHR 0xE2, CHR 0x80, CHR 0x88],
      [CHR 0xE2, CHR 0x80, CHR 0x89], [CHR 0xE2, CHR 0x80, CHR 0x8A], [CHR 0xE2, CHR 0x80, CHR 0xA8],
      [CHR 0xE2, CHR 0x80, CHR 0xA9], [CHR 0xE2, CHR 0x80, CHR 0xAF], [CHR 0xE2, CHR 0x81, CHR 0x9F],
      [CHR 0xE3, CHR 0x80, CHR 0x80]]"

text \<open>Strip the given runes from the front as long as one of them is there.\<close>

function strip_runes :: "string list \<Rightarrow> string \<Rightarrow> string" where
  "strip_runes rs s =
     (case find (\<lambda>r. r \<noteq> [] \<and> hasPrefix s r) rs of
        None \<Rightarrow> s
      | Some r \<Rightarrow> if s = [] then s else strip_runes rs (drop (length r) s))"
  by pat_completeness auto
termination
  by (relation "measure (\<lambda>(rs, s). length s)") (auto simp: find_Some_iff)

declare strip_runes.simps [simp del]

definition trimSpace :: "string \<Rightarrow> string" where
  "trimSpace s = rev (strip_runes (map rev spaceRunes) (rev (strip_runes spaceRunes s)))"

section \<open>Package strconv\<close>

definition isDigit :: "char \<Rightarrow> bool" where
  "isDigit c \<longleftrightarrow> 48 \<le> (of_char c :: nat) \<and> (of_char c :: nat) \<le> 57"

definition digit_val :: "char \<Rightarrow> nat" where
  "digit_val c = of_char c - 48"

definition digits_val :: "string \<Rightarrow> nat" where
  "digits_val s = foldl (\<lambda>v c. 10 * v + digit_val c) 0 s"

text \<open>The range of \<open>int\<close> on the 64-bit platforms the images are built for.\<close>

definition maxInt :: int where "maxInt = 2 ^ 63 - 1"
definition minInt :: int where "minInt = - (2 ^ 63)"

definition parse_digits :: "string \<Rightarrow> nat option" where
  "parse_digits s = (if s \<noteq> [] \<and> list_all isDigit s then Some (digits_val s) else None)"

definition int_in_range :: "int \<Rightarrow> int option" where
  "int_in_range v = (if minInt \<le> v \<and> v \<le> maxInt then Some v else None)"

text \<open>\<open>strconv.Atoi\<close>: an optional sign and decimal digits; \<^const>\<open>None\<close> where it returns an error.\<close>

definition atoi :: "string \<Rightarrow> int option" where
  "atoi s = (case s of
       [] \<Rightarrow> None
     | c # ds \<Rightarrow>
         if c = CHR ''-'' then Option.bind (parse_digits ds) (\<lambda>n. int_in_range (- int n))
         else if c = CHR ''+'' then Option.bind (parse_digits ds) (\<lambda>n. int_in_range (int n))
         else Option.bind (parse_digits s) (\<lambda>n. int_in_range (int n)))"

fun nat_digits :: "nat \<Rightarrow> string" where
  "nat_digits n = (if n < 10 then [char_of (48 + n)]
                   else nat_digits (n div 10) @ [char_of (48 + n mod 10)])"

declare nat_digits.simps [simp del]

text \<open>\<open>strconv.Itoa\<close>, which is also what the verb \<open>%d\<close> prints.\<close>

definition itoa :: "int \<Rightarrow> string" where
  "itoa v = (if v < 0 then CHR ''-'' # nat_digits (nat (- v)) else nat_digits (nat v))"

definition formatBool :: "bool \<Rightarrow> string" where
  "formatBool b = (if b then ''true'' else ''false'')"

definition parseBool :: "string \<Rightarrow> bool option" where
  "parseBool s =
     (if s \<in> set [''1'', ''t'', ''T'', ''true'', ''TRUE'', ''True''] then Some True
      else if s \<in> set [''0'', ''f'', ''F'', ''false'', ''FALSE'', ''False''] then Some False
      else None)"

section \<open>Facts about the modelled functions\<close>

lemma hasPrefix_iff: "hasPrefix s p \<longleftrightarrow> prefix p s"
  by (metis hasPrefix_def prefix_def append_eq_conv_conj take_is_prefix)

lemma hasPrefix_refl [simp]: "hasPrefix s s"
  by (simp add: hasPrefix_def)

lemma hasPrefix_Nil [simp]: "hasPrefix s []"
  by (simp add: hasPrefix_def)

lemma hasPrefix_Cons_iff [simp]:
  "hasPrefix [] (y # p) \<longleftrightarrow> False"
  "hasPrefix (x # s) (y # p) \<longleftrightarrow> x = y \<and> hasPrefix s p"
  by (auto simp: hasPrefix_def)

lemma hasPrefix_append [simp]: "hasPrefix (p @ s) p"
  by (simp add: hasPrefix_def)

lemma contains_Nil [simp]: "contains s []"
  by (cases s) auto

lemma contains_iff_sublist: "contains s sub \<longleftrightarrow> sublist sub s"
  by (induction s) (auto simp: hasPrefix_iff sublist_Cons_right)

lemma contains_singleton: "contains s [c] \<longleftrightarrow> c \<in> set s"
  by (induction s) (auto simp: hasPrefix_def)

lemma contains_append: "contains (a @ sub @ b) sub"
  by (simp add: contains_iff_sublist)

lemma trimPrefix_hasPrefix: "hasPrefix s p \<Longrightarrow> p @ trimPrefix s p = s"
  by (metis append_take_drop_id hasPrefix_def trimPrefix_def)

lemma length_truncate [simp]: "length (truncate v n) \<le> n"
  by (simp add: truncate_def)

lemma truncate_id [simp]: "length v \<le> n \<Longrightarrow> truncate v n = v"
  by (simp add: truncate_def)

lemma cut_found: "cut s c = (b, a, True) \<longleftrightarrow> s = b @ c # a \<and> c \<notin> set b"
proof (induction s arbitrary: a b)
  case Nil
  then show ?case by auto
next
  case (Cons x s)
  show ?case
  proof (cases "x = c")
    case True
    then show ?thesis by (cases b) auto
  next
    case False
    obtain b' a' f where cs: "cut s c = (b', a', f)" by (cases "cut s c") auto
    show ?thesis
    proof (cases f)
      case True
      with Cons.IH [of b' a'] cs have s: "s = b' @ c # a' \<and> c \<notin> set b'" by simp
      have "b = x # b'' \<Longrightarrow> s = b'' @ c # a \<Longrightarrow> c \<notin> set b'' \<Longrightarrow> b'' = b' \<and> a = a'" for b''
        using Cons.IH [of b'' a] cs True by simp
      with s cs True False show ?thesis by (cases b) auto
    next
      case f: False
      have "\<not> (s = b'' @ c # a \<and> c \<notin> set b'')" for b''
        using Cons.IH [of b'' a] cs f by simp
      with cs f False show ?thesis by (cases b) auto
    qed
  qed
qed

lemma cut_not_found: "c \<notin> set s \<Longrightarrow> cut s c = (s, [], False)"
  by (induction s) auto

lemma cut_flag: "snd (snd (cut s c)) \<longleftrightarrow> c \<in> set s"
  by (induction s) (auto split: prod.splits)

lemma cut_key_value [simp]: "c \<notin> set k \<Longrightarrow> cut (k @ c # v) c = (k, v, True)"
  by (simp add: cut_found)

lemma split_on_nonempty [simp]: "split_on c s \<noteq> []"
  by (induction s) (auto split: list.splits)

lemma split_on_free: "c \<notin> set s \<Longrightarrow> split_on c s = [s]"
  by (induction s) auto

lemma split_on_append: "c \<notin> set a \<Longrightarrow> split_on c (a @ c # s) = a # split_on c s"
  by (induction a) auto

lemma split_on_sep_free: "w \<in> set (split_on c s) \<Longrightarrow> c \<notin> set w"
  by (induction s arbitrary: w) (auto split: list.splits if_splits)

subsection \<open>Blanks at the ends\<close>

lemma strip_runes_suffix: "suffix (strip_runes rs s) s"
proof (induction rs s rule: strip_runes.induct)
  case (1 rs s)
  show ?case
  proof (cases "find (\<lambda>r. r \<noteq> [] \<and> hasPrefix s r) rs")
    case None
    then show ?thesis by (simp add: strip_runes.simps)
  next
    case (Some r)
    then show ?thesis using 1 [OF Some]
      by (subst strip_runes.simps) (auto intro: suffix_order.trans [OF _ suffix_drop])
  qed
qed

lemma strip_runes_none: "find (\<lambda>r. r \<noteq> [] \<and> hasPrefix (strip_runes rs s) r) rs = None"
proof (induction rs s rule: strip_runes.induct)
  case (1 rs s)
  show ?case
  proof (cases "find (\<lambda>r. r \<noteq> [] \<and> hasPrefix s r) rs")
    case None
    then show ?thesis by (simp add: strip_runes.simps [of rs s])
  next
    case (Some r)
    then have "s \<noteq> []" by (auto simp: find_Some_iff hasPrefix_def)
    with Some show ?thesis using 1 [OF Some] by (simp add: strip_runes.simps [of rs s])
  qed
qed

lemma strip_runes_fix: "find (\<lambda>r. r \<noteq> [] \<and> hasPrefix s r) rs = None \<Longrightarrow> strip_runes rs s = s"
  by (simp add: strip_runes.simps)

lemma hasPrefix_prefix: "hasPrefix s p \<longleftrightarrow> prefix p s"
  by (auto simp: hasPrefix_def prefix_def) (metis append_take_drop_id)

text \<open>A trimmed text has no blank at either end.\<close>

lemma trimSpace_ends:
  assumes "r \<in> set spaceRunes"
  shows "\<not> prefix r (trimSpace s)" "\<not> suffix r (trimSpace s)"
proof -
  have nonempty: "r \<noteq> []" using assms by (auto simp: spaceRunes_def)
  let ?u = "strip_runes spaceRunes s"
  have "prefix (trimSpace s) ?u"
    using strip_runes_suffix [of "map rev spaceRunes" "rev ?u"] by (simp add: trimSpace_def suffix_to_prefix)
  moreover have "\<not> prefix r ?u"
    using strip_runes_none [of spaceRunes s] assms nonempty by (auto simp: find_None_iff hasPrefix_prefix)
  ultimately show "\<not> prefix r (trimSpace s)" using prefix_order.trans by blast
  have "\<not> prefix (rev r) (rev (trimSpace s))"
    using strip_runes_none [of "map rev spaceRunes" "rev ?u"] assms nonempty
    by (auto simp: find_None_iff hasPrefix_prefix trimSpace_def)
  then show "\<not> suffix r (trimSpace s)" by (simp add: suffix_to_prefix)
qed

lemma trimSpace_idem: "trimSpace (trimSpace s) = trimSpace s"
proof -
  have 1: "strip_runes spaceRunes (trimSpace s) = trimSpace s"
    using trimSpace_ends(1) by (intro strip_runes_fix) (auto simp: find_None_iff hasPrefix_prefix)
  have 2: "strip_runes (map rev spaceRunes) (rev (trimSpace s)) = rev (trimSpace s)"
    using trimSpace_ends(2) by (intro strip_runes_fix) (auto simp: find_None_iff hasPrefix_prefix suffix_to_prefix)
  show ?thesis using 1 2 by (simp add: trimSpace_def [of "trimSpace s"])
qed

lemma trimSpace_subset: "set (trimSpace s) \<subseteq> set s"
proof -
  have "set (trimSpace s) \<subseteq> set (strip_runes spaceRunes s)"
    using set_mono_suffix [OF strip_runes_suffix [of "map rev spaceRunes" "rev (strip_runes spaceRunes s)"]] by (simp add: trimSpace_def)
  then show ?thesis using set_mono_suffix [OF strip_runes_suffix [of spaceRunes s]] by blast
qed

subsection \<open>Characters by their bits\<close>

lemma char_of_byte: "n < 256 \<Longrightarrow> char_of n = c \<longleftrightarrow> n = (of_char c :: nat)"
  by (auto simp: char_of_eq_iff take_bit_eq_mod)

lemma ascii_upper_Char [simp]:
  "ascii_upper (Char b0 b1 b2 b3 b4 b5 b6 b7) =
     Char b0 b1 b2 b3 b4
       (b5 \<and> (b7 \<or> \<not> b6 \<or> \<not> (b0 \<or> b1 \<or> b2 \<or> b3 \<or> b4) \<or> b4 \<and> b3 \<and> (b2 \<or> b1 \<and> b0))) b6 b7"
  by (cases b0; cases b1; cases b2; cases b3; cases b4; cases b5; cases b6; cases b7)
    (simp_all add: ascii_upper_def char_of_byte)

lemma ascii_lower_Char [simp]:
  "ascii_lower (Char b0 b1 b2 b3 b4 b5 b6 b7) =
     Char b0 b1 b2 b3 b4
       (b5 \<or> (\<not> b7 \<and> b6 \<and> (b0 \<or> b1 \<or> b2 \<or> b3 \<or> b4) \<and> \<not> (b4 \<and> b3 \<and> (b2 \<or> b1 \<and> b0)))) b6 b7"
  by (cases b0; cases b1; cases b2; cases b3; cases b4; cases b5; cases b6; cases b7)
    (simp_all add: ascii_lower_def char_of_byte)

lemma isDigit_Char [simp]:
  "isDigit (Char b0 b1 b2 b3 b4 b5 b6 b7) \<longleftrightarrow> \<not> b7 \<and> \<not> b6 \<and> b5 \<and> b4 \<and> (\<not> b3 \<or> \<not> b2 \<and> \<not> b1)"
  by (cases b0; cases b1; cases b2; cases b3; cases b4; cases b5; cases b6; cases b7)
    (simp_all add: isDigit_def)

subsection \<open>Decimal numbers\<close>

lemma char_digit [simp]:
  "n < 10 \<Longrightarrow> isDigit (char_of (48 + n))"
  "n < 10 \<Longrightarrow> digit_val (char_of (48 + n)) = n"
  by (simp_all add: isDigit_def digit_val_def)

lemma nat_digits_digits: "list_all isDigit (nat_digits n)"
proof (induction n rule: nat_digits.induct)
  case (1 n)
  then show ?case by (subst nat_digits.simps) simp
qed

lemma nat_digits_nonempty [simp]: "nat_digits n \<noteq> []"
  by (subst nat_digits.simps) simp

lemma digits_val_nat_digits [simp]: "digits_val (nat_digits n) = n"
proof (induction n rule: nat_digits.induct)
  case (1 n)
  then show ?case by (subst nat_digits.simps) (simp add: digits_val_def)
qed

lemma parse_digits_nat_digits [simp]: "parse_digits (nat_digits n) = Some n"
  by (simp add: parse_digits_def nat_digits_digits)

lemma isDigit_not_sign: "isDigit c \<Longrightarrow> c \<noteq> CHR ''-'' \<and> c \<noteq> CHR ''+''"
  by auto

lemma atoi_digits:
  assumes "list_all isDigit s" and "s \<noteq> []"
  shows "atoi s = int_in_range (int (digits_val s))"
  using assms by (cases s) (auto simp: atoi_def parse_digits_def dest: isDigit_not_sign)

text \<open>Printing an \<open>int\<close> and reading it back gives the same value.\<close>

lemma atoi_itoa:
  assumes "minInt \<le> v" and "v \<le> maxInt"
  shows "atoi (itoa v) = Some v"
proof (cases "v < 0")
  case True
  with assms show ?thesis by (simp add: itoa_def atoi_def int_in_range_def)
next
  case False
  with assms show ?thesis
    by (simp add: itoa_def atoi_digits nat_digits_digits int_in_range_def)
qed

end
