(* ===== verification/Security.thy ===== *)
theory Security
  imports Prelude "HOL-Library.Word"
begin

text \<open>
  Package \<open>internal/security\<close> (\<open>src/backend/internal/security/security.go\<close>): tokens and
  identifiers, Argon2id password records, the secret-masking vocabulary, the constant-time secret
  comparison and the validators of user names, container identifiers and bounded integers.

  Random bytes are arguments (the result of \<open>rand.Read\<close>, \<^const>\<open>None\<close> where it fails).  Two
  functions stay parameters: \<open>sha256\<close> (the digest of a byte string) and \<open>argon2\<close> (the third-party
  \<open>argon2.IDKey\<close> over password, salt, iterations, memory, parallelism and key length;
  \<^const>\<open>None\<close> where it panics, which its documentation announces for zero iterations or lanes).
\<close>

unbundle bit_operations_syntax

section \<open>Hexadecimal and base64 encodings\<close>

definition hex_digit :: "nat \<Rightarrow> char" where
  "hex_digit n = char_of (if n < 10 then 48 + n else 87 + n)"

definition hex_encode :: "string \<Rightarrow> string" where
  "hex_encode s = concat (map (\<lambda>c. [hex_digit (of_char c div 16), hex_digit (of_char c mod 16)]) s)"

text \<open>The standard alphabet of base64; the URL alphabet differs in the last two letters.\<close>

definition b64_char :: "bool \<Rightarrow> nat \<Rightarrow> char" where
  "b64_char url i =
     (if i < 26 then char_of (65 + i)
      else if i < 52 then char_of (71 + i)
      else if i < 62 then char_of (i - 4)
      else if i = 62 then (if url then CHR ''-'' else CHR ''+'')
      else (if url then CHR ''_'' else CHR ''/''))"

definition b64_val :: "char \<Rightarrow> nat option" where
  "b64_val c =
     (let n = of_char c :: nat in
      if 65 \<le> n \<and> n \<le> 90 then Some (n - 65)
      else if 97 \<le> n \<and> n \<le> 122 then Some (n - 71)
      else if 48 \<le> n \<and> n \<le> 57 then Some (n + 4)
      else if c = CHR ''+'' then Some 62
      else if c = CHR ''/'' then Some 63
      else None)"

text \<open>\<open>EncodeToString\<close> of the unpadded encodings: three bytes give four letters.\<close>

fun b64_groups :: "nat list \<Rightarrow> nat list" where
  "b64_groups [] = []"
| "b64_groups [a] = [a div 4, (a mod 4) * 16]"
| "b64_groups [a, b] = [a div 4, (a mod 4) * 16 + b div 16, (b mod 16) * 4]"
| "b64_groups (a # b # c # r) =
     a div 4 # ((a mod 4) * 16 + b div 16) # ((b mod 16) * 4 + c div 64) # (c mod 64) # b64_groups r"

definition b64_encode :: "bool \<Rightarrow> string \<Rightarrow> string" where
  "b64_encode url s = map (b64_char url) (b64_groups (map of_char s))"

text \<open>
  \<open>RawStdEncoding.DecodeString\<close>: line breaks are skipped, a letter outside the alphabet or a
  single left-over letter is an error, the unused low bits of the last letter are ignored.
\<close>

fun b64_ungroup :: "nat list \<Rightarrow> nat list option" where
  "b64_ungroup [] = Some []"
| "b64_ungroup [x] = None"
| "b64_ungroup [x, y] = Some [x * 4 + y div 16]"
| "b64_ungroup [x, y, z] = Some [x * 4 + y div 16, (y mod 16) * 16 + z div 4]"
| "b64_ungroup (x # y # z # w # r) =
     map_option (\<lambda>bs. (x * 4 + y div 16) # ((y mod 16) * 16 + z div 4) # ((z mod 4) * 64 + w) # bs)
       (b64_ungroup r)"

fun letters_vals :: "string \<Rightarrow> nat list option" where
  "letters_vals [] = Some []"
| "letters_vals (c # s) =
     (case b64_val c of None \<Rightarrow> None | Some v \<Rightarrow> map_option (\<lambda>vs. v # vs) (letters_vals s))"

definition b64_decode :: "string \<Rightarrow> string option" where
  "b64_decode s =
     Option.bind (letters_vals (filter (\<lambda>c. c \<noteq> CHR 0x0A \<and> c \<noteq> CHR 0x0D) s))
       (\<lambda>vs. map_option (map char_of) (b64_ungroup vs))"

section \<open>Tokens\<close>

definition RandomToken :: "string option \<Rightarrow> string go_result" where
  "RandomToken rnd = (case rnd of
       None \<Rightarrow> Inl (ErrEngine ''rand'')
     | Some b \<Rightarrow> Inr (b64_encode True b))"

definition ID :: "string option \<Rightarrow> string go_result" where
  "ID rnd = (case rnd of
       None \<Rightarrow> Inl (ErrEngine ''rand'')
     | Some value \<Rightarrow> Inr (hex_encode value))"

definition TokenHash :: "(string \<Rightarrow> string) \<Rightarrow> string \<Rightarrow> string" where
  "TokenHash sha256 token = hex_encode (sha256 token)"

section \<open>Passwords\<close>

type_synonym argon2_fun = "string \<Rightarrow> string \<Rightarrow> nat \<Rightarrow> nat \<Rightarrow> nat \<Rightarrow> nat \<Rightarrow> string option"

definition maxPasswordBytes :: nat where "maxPasswordBytes = 1024"

definition hash_params :: "nat \<Rightarrow> nat \<Rightarrow> nat \<Rightarrow> string" where
  "hash_params memory iterations parallelism =
     ''m='' @ nat_digits memory @ '',t='' @ nat_digits iterations @ '',p='' @ nat_digits parallelism"

text \<open>
  The outcome of an operation that hashes a password: \<^const>\<open>None\<close> is a panic inside
  \<open>argon2.IDKey\<close>.
\<close>

definition HashPassword :: "argon2_fun \<Rightarrow> string option \<Rightarrow> string \<Rightarrow> (string go_result) option" where
  "HashPassword argon2 rnd password =
     (if length password < 6 then Some (Inl (ErrNew ''password must be at least 6 characters''))
      else if length password > maxPasswordBytes then Some (Inl (ErrNew ''password is too long''))
      else case rnd of
          None \<Rightarrow> Some (Inl (ErrEngine ''rand''))
        | Some salt \<Rightarrow>
            (let memory = 64 * 1024; iterations = 3; parallelism = 2 in
             case argon2 password salt iterations memory parallelism 32 of
               None \<Rightarrow> None
             | Some hash \<Rightarrow>
                 Some (Inr (''$argon2id$v=19$'' @ hash_params memory iterations parallelism
                   @ ''$'' @ b64_encode False salt @ ''$'' @ b64_encode False hash))))"

text \<open>
  \<open>fmt.Sscanf\<close> on the pieces the format \<open>m=%d,t=%d,p=%d\<close> uses: a literal, and \<open>%d\<close> into an
  unsigned integer of the given width (blanks are skipped, a line break is an error, at least one
  digit is needed and the value must fit).
\<close>

definition scan_literal :: "string \<Rightarrow> string \<Rightarrow> string option" where
  "scan_literal lit s = (if hasPrefix s lit then Some (drop (length lit) s) else None)"

definition scan_space :: "string \<Rightarrow> string option" where
  "scan_space s =
     (let t = strip_runes (remove1 [CHR 0x0A] spaceRunes) s
      in if hasPrefix t [CHR 0x0A] then None else Some t)"

definition scan_uint :: "nat \<Rightarrow> string \<Rightarrow> (nat \<times> string) option" where
  "scan_uint bits s =
     Option.bind (scan_space s) (\<lambda>t.
       let ds = takeWhile isDigit t; v = digits_val ds in
       if ds = [] \<or> v \<ge> 2 ^ 64 \<or> v \<ge> 2 ^ bits then None else Some (v, dropWhile isDigit t))"

definition scan_params :: "string \<Rightarrow> (nat \<times> nat \<times> nat) option" where
  "scan_params s =
     Option.bind (scan_literal ''m='' s) (\<lambda>s1.
     Option.bind (scan_uint 32 s1) (\<lambda>(memory, s2).
     Option.bind (scan_literal '',t='' s2) (\<lambda>s3.
     Option.bind (scan_uint 32 s3) (\<lambda>(iterations, s4).
     Option.bind (scan_literal '',p='' s4) (\<lambda>s5.
     Option.bind (scan_uint 8 s5) (\<lambda>(parallelism, s6).
       Some (memory, iterations, parallelism)))))))"

text \<open>\<open>subtle.ConstantTimeCompare\<close>: the differences of all byte pairs are collected in one byte.\<close>

definition constantTimeCompare :: "string \<Rightarrow> string \<Rightarrow> int" where
  "constantTimeCompare x y =
     (if length x \<noteq> length y then 0
      else if fold (\<lambda>(a, b) v. v OR (of_nat (of_char a) XOR of_nat (of_char b))) (zip x y) (0 :: 8 word) = 0
      then 1 else 0)"

definition VerifyPassword :: "argon2_fun \<Rightarrow> string \<Rightarrow> string \<Rightarrow> bool option" where
  "VerifyPassword argon2 encoded password =
     (if length password > maxPasswordBytes then Some False
      else let p = split_on (CHR ''$'') encoded in
      if length p \<noteq> 6 \<or> p ! 1 \<noteq> ''argon2id'' \<or> p ! 2 \<noteq> ''v=19'' then Some False
      else case scan_params (p ! 3) of
        None \<Rightarrow> Some False
      | Some (memory, iterations, parallelism) \<Rightarrow>
          if memory > 256 * 1024 \<or> iterations > 10 \<or> parallelism > 8 then Some False
          else (case (b64_decode (p ! 4), b64_decode (p ! 5)) of
              (Some salt, Some expected) \<Rightarrow>
                if length salt \<noteq> 16 \<or> length expected \<noteq> 32 then Some False
                else (case argon2 password salt iterations memory parallelism (length expected) of
                    None \<Rightarrow> None
                  | Some actual \<Rightarrow> Some (constantTimeCompare actual expected = 1))
            | _ \<Rightarrow> Some False))"

section \<open>Secret masking vocabulary\<close>

definition sensitiveFragments :: "string list" where
  "sensitiveFragments = [''PASSWORD'', ''PASS'', ''SECRET'', ''TOKEN'', ''PRIVATE'', ''CREDENTIAL'',
     ''AUTH'', ''API_KEY'', ''ACCESS_KEY'']"

definition SensitiveKey :: "string \<Rightarrow> bool" where
  "SensitiveKey key =
     (let u = toUpper key in
      if u = ''DATABASE_URL'' \<or> u = ''REDIS_URL'' then True
      else list_ex (\<lambda>fragment. u = fragment \<or> contains u (''_'' @ fragment)
             \<or> hasPrefix u (fragment @ ''_'')) sensitiveFragments)"

definition mask_item :: "bool \<Rightarrow> string \<Rightarrow> string" where
  "mask_item reveal item =
     (case cut item (CHR ''='') of (key, _, ok) \<Rightarrow>
        if ok \<and> SensitiveKey key \<and> \<not> reveal then key @ ''=********'' else item)"

definition MaskEnv :: "string list \<Rightarrow> bool \<Rightarrow> string list" where
  "MaskEnv values reveal = map (mask_item reveal) values"

section \<open>Comparisons and validators\<close>

definition ConstantTimeSecret :: "string \<Rightarrow> string \<Rightarrow> bool" where
  "ConstantTimeSecret expected actual =
     (if length expected < 32 \<or> length actual \<noteq> length expected then False
      else constantTimeCompare expected actual = 1)"

abbreviation char_in :: "nat \<Rightarrow> nat \<Rightarrow> char \<Rightarrow> bool" where
  "char_in lo hi c \<equiv> lo \<le> (of_char c :: nat) \<and> (of_char c :: nat) \<le> hi"

text \<open>
  The loops range over runes; a rune outside ASCII is refused like the bytes that encode it, so
  the model ranges over bytes.  \<open>i\<close> is the byte index of the loop.
\<close>

fun username_loop :: "nat \<Rightarrow> string \<Rightarrow> bool" where
  "username_loop i [] = True"
| "username_loop i (r # s) =
     (if char_in 97 122 r \<or> char_in 65 90 r \<or> (char_in 48 57 r \<and> i > 0)
         \<or> r = CHR ''_'' \<or> r = CHR ''-'' \<or> r = CHR ''.''
      then username_loop (Suc i) s else False)"

definition ValidateUsername :: "string \<Rightarrow> bool" where
  "ValidateUsername s =
     (if length s < 3 \<or> length s > 64 then False else username_loop 0 s)"

definition container_char :: "char \<Rightarrow> bool" where
  "container_char r \<longleftrightarrow> r = CHR ''_'' \<or> r = CHR ''-'' \<or> r = CHR ''.''
     \<or> char_in 97 122 r \<or> char_in 65 90 r \<or> char_in 48 57 r"

definition ValidateContainerID :: "string \<Rightarrow> bool" where
  "ValidateContainerID s =
     (if length s < 1 \<or> length s > 128 then False
      else if \<not> list_all container_char s then False
      else \<not> contains s ''..'')"

definition ParseBoundedInt :: "string \<Rightarrow> int \<Rightarrow> int \<Rightarrow> int \<Rightarrow> int" where
  "ParseBoundedInt raw fallback lo hi = (case atoi raw of
       None \<Rightarrow> fallback
     | Some v \<Rightarrow> if v < lo \<or> v > hi then fallback else v)"

section \<open>Correctness of the encodings\<close>

lemma b64_val_char: "i < 64 \<Longrightarrow> b64_val (b64_char False i) = Some i"
  by (auto simp: b64_val_def b64_char_def Let_def)

lemma b64_char_code: "i < 64 \<Longrightarrow> (of_char (b64_char url i) :: nat) \<in> {43, 45, 47, 95} \<union> {48..57} \<union> {65..90} \<union> {97..122}"
  by (auto simp: b64_char_def)

lemma b64_char_not_special:
  assumes "i < 64"
  shows "b64_char url i \<notin> {CHR 0x0A, CHR 0x0D, CHR ''$'', CHR ''='', CHR ''%'', CHR ''?'', CHR ''#''}"
  using b64_char_code [OF assms, of url] by auto

lemma div_mod_digit:
  assumes "y < (n :: nat)"
  shows "(x * n + y) div n = x" and "(x * n + y) mod n = y"
  using assms by simp_all

lemma byte_parts:
  assumes "(a :: nat) < 256"
  shows "a div 4 < 64" "a div 16 < 16" "a div 64 < 4" "a mod 4 < 4" "a mod 16 < 16" "a mod 64 < 64"
  using assms by (simp_all add: less_mult_imp_div_less)

lemma sextets:
  assumes "(a :: nat) < 256" "b < 256" "c < 256"
  shows "a mod 4 * 16 + b div 16 < 64" "b mod 16 * 4 + c div 64 < 64"
  using byte_parts [OF assms(1)] byte_parts [OF assms(2)] byte_parts [OF assms(3)] by linarith+

lemma b64_groups_bound: "list_all (\<lambda>n. n < 256) bs \<Longrightarrow> list_all (\<lambda>n. n < 64) (b64_groups bs)"
proof (induction bs rule: b64_groups.induct)
  case (4 a b c r)
  then show ?case using sextets [of a b c] byte_parts [of a] by simp
next
  case (3 a b)
  then show ?case using sextets [of a b 0] byte_parts [of a] by simp
next
  case (2 a)
  then show ?case using byte_parts [of a] by simp
qed simp

lemma sextet_digits:
  assumes "(b :: nat) < 256"
  shows "(x * 16 + b div 16) div 16 = x" "(x * 16 + b div 16) mod 16 = b div 16"
    "(x * 4 + b div 64) div 4 = x" "(x * 4 + b div 64) mod 4 = b div 64"
  using byte_parts [OF assms] by (simp_all only: div_mod_digit)

lemma b64_ungroup_groups: "list_all (\<lambda>n. n < 256) bs \<Longrightarrow> b64_ungroup (b64_groups bs) = Some bs"
proof (induction bs rule: b64_groups.induct)
  case (4 a b c r)
  then have "b < 256" "c < 256" and IH: "b64_ungroup (b64_groups r) = Some r" by simp_all
  then show ?case
    unfolding b64_groups.simps b64_ungroup.simps IH
    by (simp only: sextet_digits div_mult_mod_eq option.map)
next
  case (3 a b)
  then have "b < 256" by simp
  then show ?case
    unfolding b64_groups.simps b64_ungroup.simps
    by (simp add: sextet_digits(1,2) del: div_mult_self3 div_mult_self4)
qed simp_all

lemma letters_vals_map: "list_all (\<lambda>n. n < 64) vs \<Longrightarrow> letters_vals (map (b64_char False) vs) = Some vs"
  by (induction vs) (auto simp: b64_val_char)

lemma bytes_bound: "list_all (\<lambda>n. n < 256) (map of_char (s :: string) :: nat list)"
  by (induction s) auto

lemma b64_encode_letters:
  assumes "c \<in> set (b64_encode url s)"
  shows "c \<notin> {CHR 0x0A, CHR 0x0D, CHR ''$'', CHR ''='', CHR ''%'', CHR ''?'', CHR ''#''}"
proof -
  from assms obtain i where "i \<in> set (b64_groups (map of_char s))" and c: "c = b64_char url i"
    by (auto simp: b64_encode_def)
  with b64_groups_bound [OF bytes_bound, of s] have "i < 64" by (auto simp: list_all_iff)
  with c b64_char_not_special show ?thesis by simp
qed

text \<open>Decoding inverts encoding.\<close>

lemma b64_decode_encode: "b64_decode (b64_encode False s) = Some s"
proof -
  have "filter (\<lambda>c. c \<noteq> CHR 0x0A \<and> c \<noteq> CHR 0x0D) (b64_encode False s) = b64_encode False s"
    using b64_encode_letters by (intro filter_True) auto
  then have "b64_decode (b64_encode False s) = map_option (map char_of) (b64_ungroup (b64_groups (map of_char s)))"
    by (simp add: b64_decode_def b64_encode_def letters_vals_map b64_groups_bound bytes_bound)
  then show ?thesis by (simp add: b64_ungroup_groups bytes_bound map_idI)
qed

lemma length_hex_encode [simp]: "length (hex_encode s) = 2 * length s"
  by (induction s) (simp_all add: hex_encode_def)

lemma hex_digit_inj: "m < 16 \<Longrightarrow> n < 16 \<Longrightarrow> hex_digit m = hex_digit n \<longleftrightarrow> m = n"
  by (auto simp: hex_digit_def dest!: arg_cong [where f = "of_char :: char \<Rightarrow> nat"] split: if_splits)

lemma hex_encode_inj: "hex_encode s = hex_encode t \<Longrightarrow> s = t"
proof (induction s arbitrary: t)
  case Nil
  then show ?case by (cases t) (auto simp: hex_encode_def)
next
  case (Cons c s)
  then obtain d t' where t: "t = d # t'" by (cases t) (auto simp: hex_encode_def)
  have bound: "(of_char x :: nat) div 16 < 16" "(of_char x :: nat) mod 16 < 16" for x :: char
    by (simp_all add: byte_parts)
  from Cons.prems t have "of_char c div 16 = (of_char d div 16 :: nat)" "of_char c mod 16 = (of_char d mod 16 :: nat)"
    by (simp_all add: hex_encode_def hex_digit_inj bound)
  then have "(of_char c :: nat) = of_char d" by (metis div_mult_mod_eq)
  then have "c = d" by simp
  with Cons t show ?case by (simp add: hex_encode_def)
qed

lemma byte_xor_zero: "(of_nat (of_char a) XOR of_nat (of_char b) = (0 :: 8 word)) \<longleftrightarrow> a = b"
proof
  assume "of_nat (of_char a) XOR of_nat (of_char b) = (0 :: 8 word)"
  then have "(of_nat (of_char a) :: 8 word) = of_nat (of_char b)"
    by (simp add: bit_eq_iff bit_simps)
  then have "unat (of_nat (of_char a) :: 8 word) = unat (of_nat (of_char b) :: 8 word)"
    by simp
  then have "(of_char a :: nat) = of_char b"
    by (simp add: unat_of_nat)
  then show "a = b" by simp
qed simp

lemma diff_fold_zero:
  "fold (\<lambda>(a, b) v. v OR (of_nat (of_char a) XOR of_nat (of_char b))) ps (v :: 8 word) = 0
     \<longleftrightarrow> v = 0 \<and> (\<forall>(a, b) \<in> set ps. a = b)"
  by (induction ps arbitrary: v) (auto simp: or_eq_0_iff byte_xor_zero)

lemma constantTimeCompare_iff: "constantTimeCompare x y = 1 \<longleftrightarrow> x = y"
proof (cases "length x = length y")
  case True
  then have "(\<forall>(a, b) \<in> set (zip x y). a = b) \<longleftrightarrow> x = y"
    by (induction x y rule: list_induct2) auto
  with True show ?thesis by (simp add: constantTimeCompare_def diff_fold_zero)
next
  case False
  then show ?thesis by (auto simp: constantTimeCompare_def)
qed

section \<open>Password records\<close>

lemma scan_space_digit:
  assumes "isDigit c"
  shows "scan_space (c # s) = Some (c # s)"
proof -
  have "find (\<lambda>r. r \<noteq> [] \<and> hasPrefix (c # s) r) (remove1 [CHR 0x0A] spaceRunes) = None"
  proof -
    have "list_all (\<lambda>r. \<not> isDigit (hd r)) spaceRunes" by (simp add: spaceRunes_def)
    then have "\<not> isDigit (hd r)" if "r \<in> set (remove1 [CHR 0x0A] spaceRunes)" for r
      using notin_set_remove1 [of r spaceRunes "[CHR 0x0A]"] that by (auto simp: list_all_iff)
    moreover have "hd r = c" if "r \<noteq> []" "hasPrefix (c # s) r" for r
      using that by (cases r) auto
    ultimately show ?thesis using assms by (force simp: find_None_iff)
  qed
  then show ?thesis using assms
    by (auto simp: scan_space_def Let_def strip_runes.simps [of _ "c # s"])
qed

lemma scan_uint_digits:
  assumes "v < 2 ^ bits" "v < 2 ^ 64" and "rest = [] \<or> \<not> isDigit (hd rest)"
  shows "scan_uint bits (nat_digits v @ rest) = Some (v, rest)"
proof -
  obtain c ds where cs: "nat_digits v = c # ds" by (cases "nat_digits v") auto
  have all: "\<forall>x \<in> set (nat_digits v). isDigit x"
    using nat_digits_digits by (simp add: list_all_iff)
  then have "isDigit c" by (simp add: cs)
  then have sp: "scan_space (nat_digits v @ rest) = Some (nat_digits v @ rest)"
    by (simp add: cs scan_space_digit)
  have "takeWhile isDigit rest = []" "dropWhile isDigit rest = rest"
    using assms(3) by (cases rest; auto)+
  then have "takeWhile isDigit (nat_digits v @ rest) = nat_digits v"
    "dropWhile isDigit (nat_digits v @ rest) = rest"
    using all by (simp_all add: takeWhile_append2 dropWhile_append2)
  with sp assms show ?thesis by (simp add: scan_uint_def Let_def)
qed

lemma scan_hash_params:
  assumes "memory < 2 ^ 32" "iterations < 2 ^ 32" "parallelism < 2 ^ 8"
  shows "scan_params (hash_params memory iterations parallelism) = Some (memory, iterations, parallelism)"
proof -
  have lit: "scan_literal l (l @ s) = Some s" for l s by (simp add: scan_literal_def)
  have 1: "scan_uint 32 (nat_digits memory @ '',t='' @ s) = Some (memory, '',t='' @ s)" for s
    by (rule scan_uint_digits) (use assms in \<open>auto\<close>)
  have 2: "scan_uint 32 (nat_digits iterations @ '',p='' @ s) = Some (iterations, '',p='' @ s)" for s
    by (rule scan_uint_digits) (use assms in \<open>auto\<close>)
  have 3: "scan_uint 8 (nat_digits parallelism) = Some (parallelism, [])"
    using scan_uint_digits [of parallelism 8 "[]"] assms by simp
  show ?thesis
    unfolding scan_params_def hash_params_def
    by (simp only: lit 1 2 3 Option.bind.simps bind.simps prod.case)
qed

lemma hash_params_letters: "CHR ''$'' \<notin> set (hash_params memory iterations parallelism)"
proof -
  have "CHR ''$'' \<notin> set (nat_digits n)" for n
    using nat_digits_digits [of n] by (auto simp: list_all_iff)
  then show ?thesis by (simp add: hash_params_def)
qed

text \<open>The six fields of a freshly written password record.\<close>

lemma HashPassword_ok:
  assumes "HashPassword argon2 rnd password = Some (Inr enc)"
  obtains salt hash where "rnd = Some salt" "argon2 password salt 3 65536 2 32 = Some hash"
    "6 \<le> length password" "length password \<le> maxPasswordBytes"
    "split_on (CHR ''$'') enc =
       [[], ''argon2id'', ''v=19'', hash_params 65536 3 2, b64_encode False salt, b64_encode False hash]"
proof -
  from assms obtain salt hash where 1: "rnd = Some salt" "argon2 password salt 3 65536 2 32 = Some hash"
      "6 \<le> length password" "length password \<le> maxPasswordBytes"
    and enc: "enc = ''$argon2id$v=19$'' @ hash_params 65536 3 2 @ ''$'' @ b64_encode False salt
       @ ''$'' @ b64_encode False hash"
    by (auto simp: HashPassword_def Let_def split: if_splits option.splits)
  have "CHR ''$'' \<notin> set (b64_encode False x)" for x
    using b64_encode_letters by blast
  then have "split_on (CHR ''$'') enc =
      [[], ''argon2id'', ''v=19'', hash_params 65536 3 2, b64_encode False salt, b64_encode False hash]"
    by (simp add: enc split_on_append split_on_free hash_params_letters)
  with 1 that show ?thesis by simp
qed

text \<open>Verification against such a record compares the two Argon2 outputs.\<close>

lemma VerifyPassword_record:
  assumes "HashPassword argon2 (Some salt) password = Some (Inr enc)" and "length salt = 16"
    and "\<And>h. argon2 password salt 3 65536 2 32 = Some h \<Longrightarrow> length h = 32" and "length p \<le> maxPasswordBytes"
  shows "VerifyPassword argon2 enc p = map_option (\<lambda>h. Some h = argon2 password salt 3 65536 2 32) (argon2 p salt 3 65536 2 32)"
proof -
  obtain hash where h: "argon2 password salt 3 65536 2 32 = Some hash"
    "split_on (CHR ''$'') enc =
       [[], ''argon2id'', ''v=19'', hash_params 65536 3 2, b64_encode False salt, b64_encode False hash]"
    by (rule HashPassword_ok [OF assms(1)]) auto
  with assms(3) have len: "length hash = 32" by simp
  have scan: "scan_params (hash_params 65536 3 2) = Some (65536, 3, 2)"
    by (rule scan_hash_params) simp_all
  show ?thesis
    unfolding VerifyPassword_def h(2)
    using h(1) len assms(2,4) by (simp add: scan b64_decode_encode constantTimeCompare_iff split: option.split)
qed

lemma HashPassword_verifies:
  assumes "HashPassword argon2 (Some salt) password = Some (Inr enc)" and "length salt = 16"
    and "\<And>h. argon2 password salt 3 65536 2 32 = Some h \<Longrightarrow> length h = 32"
  shows "VerifyPassword argon2 enc password = Some True"
proof -
  obtain hash where "argon2 password salt 3 65536 2 32 = Some hash" "length password \<le> maxPasswordBytes"
    by (rule HashPassword_ok [OF assms(1)]) auto
  with VerifyPassword_record [OF assms, of password] show ?thesis by simp
qed

section \<open>Properties\<close>

text \<open>
  A password verifies against the record that \<open>HashPassword\<close> wrote for it, whatever the salt, as long as
  Argon2id returns the 32 bytes it is asked for (verification does not panic), and another password
  of at most 1024 bytes is accepted only if Argon2id maps it to the same bytes under that salt.
\<close>

lemma verify_hash_roundtrip:
  assumes "HashPassword argon2 (Some salt) password = Some (Inr enc)"
    and "length salt = 16"
    and argon2_length: "\<And>h. argon2 password salt 3 65536 2 32 = Some h \<Longrightarrow> length h = 32"
  shows "VerifyPassword argon2 enc password = Some True
    \<and> (VerifyPassword argon2 enc other = Some True \<longrightarrow> argon2 other salt 3 65536 2 32 = argon2 password salt 3 65536 2 32)"
proof (intro conjI impI)
  show "VerifyPassword argon2 enc password = Some True" by (rule HashPassword_verifies [OF assms])
  assume "VerifyPassword argon2 enc other = Some True"
  then show "argon2 other salt 3 65536 2 32 = argon2 password salt 3 65536 2 32"
  proof (cases "length other \<le> maxPasswordBytes")
    case True
    with \<open>VerifyPassword argon2 enc other = Some True\<close> VerifyPassword_record [OF assms True] show ?thesis by auto
  qed (simp add: VerifyPassword_def)
qed

definition toy_argon2 :: argon2_fun where
  "toy_argon2 p s t m l k = Some (take k (p @ replicate k CHR ''x''))"

lemma username_loop_Suc:
  "username_loop (Suc i) s \<longleftrightarrow> (\<forall>c\<in>set s. container_char c)"
  by (induction s arbitrary: i) (auto simp: container_char_def)

lemma ValidateUsername_iff:
  "ValidateUsername u \<longleftrightarrow> 3 \<le> length u \<and> length u \<le> 64 \<and> (\<forall>c\<in>set u. container_char c) \<and> \<not> char_in 48 57 (hd u)"
proof (cases u)
  case (Cons c s)
  then show ?thesis by (auto simp: ValidateUsername_def username_loop_Suc container_char_def)
qed (simp add: ValidateUsername_def)

definition letters :: string where
  "letters = ''ABCDEFGHIJKLMNOPQRSTUVWXYZabcdefghijklmnopqrstuvwxyz''"

definition name_chars :: string where
  "name_chars = letters @ ''0123456789_.-''"

lemma container_char_iff: "container_char c \<longleftrightarrow> c \<in> set name_chars"
proof -
  have "\<forall>c. container_char c \<longleftrightarrow> c \<in> set name_chars" by code_simp
  then show ?thesis by blast
qed

lemma leading_char: "c \<in> set name_chars \<Longrightarrow> char_in 48 57 c \<longleftrightarrow> c \<notin> set (letters @ ''_.-'')"
proof -
  have "\<forall>c. c \<in> set name_chars \<longrightarrow> (char_in 48 57 c \<longleftrightarrow> c \<notin> set (letters @ ''_.-''))" by code_simp
  then show "c \<in> set name_chars \<Longrightarrow> ?thesis" by blast
qed

text \<open>
  The pattern that the form for new users asks for, \<open>[A-Za-z][A-Za-z0-9_.-]{2,63}\<close>
  (\<open>src/frontend/src/pages/app/users.astro\<close>), and the same with another class of first letters.
\<close>

definition name_pattern :: "string \<Rightarrow> string \<Rightarrow> bool" where
  "name_pattern firsts u \<longleftrightarrow> (\<exists>c s. u = c # s \<and> c \<in> set firsts \<and> 2 \<le> length s \<and> length s \<le> 63 \<and> set s \<subseteq> set name_chars)"

lemma name_pattern_Cons:
  "name_pattern firsts (c # s) \<longleftrightarrow> c \<in> set firsts \<and> 2 \<le> length s \<and> length s \<le> 63 \<and> set s \<subseteq> set name_chars"
  by (simp add: name_pattern_def)

lemma ValidateUsername_pattern: "ValidateUsername u \<longleftrightarrow> name_pattern (letters @ ''_.-'') u"
proof (cases u)
  case Nil
  then show ?thesis by (simp add: ValidateUsername_def name_pattern_def)
next
  case (Cons c s)
  have "set (letters @ ''_.-'') \<subseteq> set name_chars" by (auto simp: name_chars_def)
  then have "c \<in> set name_chars \<and> \<not> char_in 48 57 c \<longleftrightarrow> c \<in> set (letters @ ''_.-'')"
    using leading_char [of c] by blast
  then show ?thesis
    by (auto simp: Cons ValidateUsername_iff name_pattern_Cons container_char_iff simp del: set_append)
qed

lemma ParseBoundedInt_itoa:
  assumes "minInt \<le> v" and "v \<le> maxInt"
  shows "ParseBoundedInt (itoa v) fallback lo hi = (if lo \<le> v \<and> v \<le> hi then v else fallback)"
  using assms by (auto simp: ParseBoundedInt_def atoi_itoa)

text \<open>
  C27: what the validators accept.  A user name is accepted exactly if it matches the pattern of the form for new
  users, or that pattern with an underscore, a dot or a dash in the place of the leading letter (the form
  refuses these, the server does not).  A container identifier is accepted exactly if it has 1 to 128
  characters of the same class without two dots in a row, so it has no slash.  A bounded number never
  leaves its bounds if the fallback lies within them, and the decimal text of a number within them is
  read as that number.
\<close>

theorem validators_spec:
  "(ValidateUsername u \<longleftrightarrow> name_pattern letters u \<or> name_pattern ''_.-'' u)
   \<and> (ValidateContainerID i \<longleftrightarrow> 1 \<le> length i \<and> length i \<le> 128 \<and> set i \<subseteq> set name_chars \<and> \<not> sublist ''..'' i)
   \<and> (lo \<le> fallback \<and> fallback \<le> hi \<longrightarrow> lo \<le> ParseBoundedInt raw fallback lo hi \<and> ParseBoundedInt raw fallback lo hi \<le> hi)
   \<and> (minInt \<le> lo \<and> lo \<le> v \<and> v \<le> hi \<and> hi \<le> maxInt \<longrightarrow> ParseBoundedInt (itoa v) fallback lo hi = v)"
proof (intro conjI)
  show "ValidateUsername u \<longleftrightarrow> name_pattern letters u \<or> name_pattern ''_.-'' u"
    unfolding ValidateUsername_pattern name_pattern_def set_append by blast
  have "list_all container_char i \<longleftrightarrow> set i \<subseteq> set name_chars" by (auto simp: list_all_iff container_char_iff)
  then show "ValidateContainerID i \<longleftrightarrow> 1 \<le> length i \<and> length i \<le> 128 \<and> set i \<subseteq> set name_chars \<and> \<not> sublist ''..'' i"
    unfolding ValidateContainerID_def contains_iff_sublist by (auto simp: not_less Suc_le_eq)
  show "lo \<le> fallback \<and> fallback \<le> hi \<longrightarrow> lo \<le> ParseBoundedInt raw fallback lo hi \<and> ParseBoundedInt raw fallback lo hi \<le> hi"
    by (auto simp: ParseBoundedInt_def split: option.split)
  show "minInt \<le> lo \<and> lo \<le> v \<and> v \<le> hi \<and> hi \<le> maxInt \<longrightarrow> ParseBoundedInt (itoa v) fallback lo hi = v"
    by (simp add: ParseBoundedInt_itoa)
qed

theorem validators_spec_witness:
  "ValidateUsername ''_ops'' \<and> \<not> name_pattern letters ''_ops'' \<and> ParseBoundedInt (itoa 250) 200 1 1000 = 250
   \<and> ParseBoundedInt ''x'' 200 1 1000 \<in> {1..1000}"
proof -
  have "name_pattern ''_.-'' ''_ops''" "\<not> name_pattern letters ''_ops''"
    by (simp_all add: name_pattern_Cons name_chars_def letters_def)
  then show ?thesis
    using validators_spec [of "''_ops''" "[]" 1 200 1000 "''x''" 250] by (simp add: minInt_def maxInt_def)
qed

end
