(* ===== verification/Go_Time.thy ===== *)
theory Go_Time
  imports Prelude "HOL-Library.List_Lexorder" "HOL-Library.Char_ord"
begin

text \<open>
  Timestamps.  The store writes every time as text, \<open>time.Now().UTC().Format(time.RFC3339Nano)\<close>, and
  compares these texts in SQL (\<open>expires_at>?\<close>, \<open>ORDER BY timestamp\<close>), byte by byte.  This theory
  models the format for times at or after 1970-01-01 (nanoseconds since the Unix epoch) and settles
  how far the order of the texts is the order of the times.
\<close>

definition leap :: "nat \<Rightarrow> bool" where
  "leap y \<longleftrightarrow> (4 dvd y \<and> \<not> 100 dvd y) \<or> 400 dvd y"

definition year_len :: "nat \<Rightarrow> nat" where
  "year_len y = (if leap y then 366 else 365)"

definition month_lens :: "nat \<Rightarrow> nat list" where
  "month_lens y = [31, if leap y then 29 else 28, 31, 30, 31, 30, 31, 31, 30, 31, 30, 31]"

lemma year_len_pos [simp]: "0 < year_len y"
  by (simp add: year_len_def)

text \<open>The year, and the day within it (from 0), of a day counted from the first day of year \<open>y\<close>.\<close>

function civil_year :: "nat \<Rightarrow> nat \<Rightarrow> nat \<times> nat" where
  "civil_year d y = (if d < year_len y then (y, d) else civil_year (d - year_len y) (Suc y))"
  by pat_completeness auto
termination
  by (relation "measure fst") (auto simp: year_len_def)

declare civil_year.simps [simp del]

text \<open>The month (counted from \<open>m\<close>) and the day within it (from 1).\<close>

fun civil_month :: "nat list \<Rightarrow> nat \<Rightarrow> nat \<Rightarrow> nat \<times> nat" where
  "civil_month [] m d = (m, d + 1)"
| "civil_month (l # ls) m d = (if d < l then (m, d + 1) else civil_month ls (Suc m) (d - l))"

fun pad :: "nat \<Rightarrow> nat \<Rightarrow> string" where
  "pad 0 n = []"
| "pad (Suc w) n = pad w (n div 10) @ [char_of (48 + n mod 10)]"

definition year_text :: "nat \<Rightarrow> string" where
  "year_text y = (if y < 10000 then pad 4 y else nat_digits y)"

text \<open>The fraction: nine digits without the trailing zeros, nothing for a whole second.\<close>

definition frac_text :: "nat \<Rightarrow> string" where
  "frac_text ns = (if ns = 0 then []
     else CHR ''.'' # rev (dropWhile (\<lambda>c. c = CHR ''0'') (rev (pad 9 ns))))"

definition clock_text :: "nat \<Rightarrow> string" where
  "clock_text s = pad 2 (s div 3600) @ '':'' @ pad 2 (s div 60 mod 60) @ '':'' @ pad 2 (s mod 60)"

definition date_text :: "nat \<Rightarrow> string" where
  "date_text day =
     (case civil_year day 1970 of (y, doy) \<Rightarrow>
        case civil_month (month_lens y) 1 doy of (m, d) \<Rightarrow>
          year_text y @ ''-'' @ pad 2 m @ ''-'' @ pad 2 d)"

definition second_text :: "nat \<Rightarrow> string" where
  "second_text s = date_text (s div 86400) @ ''T'' @ clock_text (s mod 86400)"

definition rfc3339nano :: "nat \<Rightarrow> string" where
  "rfc3339nano t = second_text (t div 1000000000) @ frac_text (t mod 1000000000) @ ''Z''"

section \<open>Fixed-width numbers in byte order\<close>

lemma length_pad [simp]: "length (pad w n) = w"
  by (induction w arbitrary: n) simp_all

lemma pad_numeral [simp]: "pad (numeral w) n = pad (pred_numeral w) (n div 10) @ [char_of (48 + n mod 10)]"
  by (simp only: numeral_eq_Suc [of w] pad.simps)

lemma less_append_right:
  fixes a b x y :: string
  assumes "a < b" and "length a = length b"
  shows "a @ x < b @ y"
  using assms
proof (induction a arbitrary: b)
  case (Cons c a)
  then show ?case by (cases b) auto
qed simp

lemma less_append_left [simp]: "(a :: string) @ x < a @ y \<longleftrightarrow> x < y"
  by (induction a) auto

lemma char_of_less: "m < n \<Longrightarrow> n < 256 \<Longrightarrow> (char_of (m :: nat) :: char) < char_of n"
  by (simp add: less_char_def)

lemma pad_less: "m < n \<Longrightarrow> n < 10 ^ w \<Longrightarrow> pad w m < pad w n"
proof (induction w arbitrary: m n)
  case (Suc w)
  show ?case
  proof (cases "m div 10 = n div 10")
    case True
    with Suc.prems(1) have "m mod 10 < n mod 10"
      by (metis div_mult_mod_eq nat_add_left_cancel_less)
    then have "(char_of (48 + m mod 10) :: char) < char_of (48 + n mod 10)"
      by (intro char_of_less) auto
    with True show ?thesis by simp
  next
    case False
    with Suc.prems(1) have "m div 10 < n div 10"
      by (simp add: div_le_mono le_neq_implies_less)
    moreover have "n div 10 < 10 ^ w" using Suc.prems(2) by (simp add: less_mult_imp_div_less)
    ultimately have "pad w (m div 10) < pad w (n div 10)" by (rule Suc.IH)
    then show ?thesis by (simp add: less_append_right)
  qed
qed simp

section \<open>The calendar is monotone\<close>

lemma civil_year_ge: "y \<le> fst (civil_year d y)"
proof (induction d y rule: civil_year.induct)
  case (1 d y)
  then show ?case by (subst civil_year.simps) (auto dest: Suc_leD)
qed

lemma civil_year_doy: "snd (civil_year d y) < year_len (fst (civil_year d y))"
proof (induction d y rule: civil_year.induct)
  case (1 d y)
  then show ?case by (subst (1 2) civil_year.simps) auto
qed

lemma civil_year_mono:
  "d < e \<Longrightarrow> fst (civil_year d y) < fst (civil_year e y) \<or>
     (fst (civil_year d y) = fst (civil_year e y) \<and> snd (civil_year d y) < snd (civil_year e y))"
proof (induction d y arbitrary: e rule: civil_year.induct)
  case (1 d y)
  show ?case
  proof (cases "d < year_len y")
    case True
    then have d: "civil_year d y = (y, d)" by (simp add: civil_year.simps)
    show ?thesis
    proof (cases "e < year_len y")
      case True
      with 1 d show ?thesis by (simp add: civil_year.simps [of e])
    next
      case False
      then have "civil_year e y = civil_year (e - year_len y) (Suc y)" by (simp add: civil_year.simps [of e])
      with d civil_year_ge [of "Suc y" "e - year_len y"] show ?thesis by auto
    qed
  next
    case False
    with 1 show ?thesis by (simp add: civil_year.simps [of d y] civil_year.simps [of e y])
  qed
qed

lemma civil_month_ge: "m \<le> fst (civil_month ls m d)"
  by (induction ls m d rule: civil_month.induct) auto

lemma civil_month_mono:
  "d < e \<Longrightarrow> fst (civil_month ls m d) < fst (civil_month ls m e) \<or>
     (fst (civil_month ls m d) = fst (civil_month ls m e) \<and> snd (civil_month ls m d) < snd (civil_month ls m e))"
proof (induction ls m d arbitrary: e rule: civil_month.induct)
  case (2 l ls m d)
  then show ?case using civil_month_ge [of "Suc m" ls "e - l"] by (auto dest: diff_less_mono)
qed simp

lemma civil_month_bounds:
  "d < sum_list ls \<Longrightarrow> list_all (\<lambda>l. l \<le> 31) ls \<Longrightarrow>
     fst (civil_month ls m d) < m + length ls \<and> snd (civil_month ls m d) \<le> 31"
proof (induction ls m d rule: civil_month.induct)
  case (2 l ls m d)
  then show ?case by (auto dest!: less_diff_conv2 [THEN iffD2, rotated] simp: add.commute)
qed simp

lemma month_lens_year: "sum_list (month_lens y) = year_len y" "list_all (\<lambda>l. l \<le> 31) (month_lens y)"
  "length (month_lens y) = 12"
  by (simp_all add: month_lens_def year_len_def)

section \<open>Order of the texts\<close>

definition day_year :: "nat \<Rightarrow> nat" where
  "day_year day = fst (civil_year day 1970)"

lemma date_text_fields:
  obtains y m d where "y = day_year day" "m < 100" "d < 100"
    "date_text day = year_text y @ ''-'' @ pad 2 m @ ''-'' @ pad 2 d"
    "(m, d) = civil_month (month_lens y) 1 (snd (civil_year day 1970))"
proof -
  obtain y doy where yd: "civil_year day 1970 = (y, doy)" by fastforce
  obtain m d where md: "civil_month (month_lens y) 1 doy = (m, d)" by fastforce
  have "doy < sum_list (month_lens y)"
    using civil_year_doy [of day 1970] yd by (simp add: month_lens_year)
  from civil_month_bounds [OF this month_lens_year(2), of 1] md
  have "m < 100" "d < 100" by (simp_all add: month_lens_year)
  with yd md show ?thesis by (intro that [of y m d]) (simp_all add: day_year_def date_text_def)
qed

lemma length_date_text: "day_year day < 10000 \<Longrightarrow> length (date_text day) = 10"
  by (rule date_text_fields [of day]) (simp add: year_text_def)

lemma date_text_less:
  assumes "d < e" and "day_year e < 10000"
  shows "date_text d < date_text e"
proof -
  obtain y m k where 1: "y = day_year d" "m < 100" "k < 100"
    "date_text d = year_text y @ ''-'' @ pad 2 m @ ''-'' @ pad 2 k"
    "(m, k) = civil_month (month_lens y) 1 (snd (civil_year d 1970))"
    by (rule date_text_fields)
  obtain y' m' k' where 2: "y' = day_year e" "m' < 100" "k' < 100"
    "date_text e = year_text y' @ ''-'' @ pad 2 m' @ ''-'' @ pad 2 k'"
    "(m', k') = civil_month (month_lens y') 1 (snd (civil_year e 1970))"
    by (rule date_text_fields)
  consider "y < y'" | "y = y'" "m < m'" | "y = y'" "m = m'" "k < k'"
    using civil_year_mono [OF assms(1), of 1970] civil_month_mono [of "snd (civil_year d 1970)" "snd (civil_year e 1970)" "month_lens y'" 1]
      1(1) 2(1) 1(5) 2(5) unfolding day_year_def by (metis fst_conv snd_conv)
  then show ?thesis
  proof cases
    case 1: 1
    then have "pad 4 y < pad 4 y'" using pad_less [of y y' 4] 2(1) assms(2) by simp
    moreover have "year_text y = pad 4 y" "year_text y' = pad 4 y'"
      using 1 2(1) assms(2) by (simp_all add: year_text_def)
    ultimately show ?thesis unfolding \<open>date_text d = _\<close> 2(4) by (simp only: less_append_right length_pad)
  next
    case 2: 2
    then have "pad 2 m < pad 2 m'" using pad_less [of m m' 2] \<open>m' < 100\<close> by simp
    with 2 show ?thesis unfolding 1(4) \<open>date_text e = _\<close> by (simp only: less_append_left less_append_right length_pad)
  next
    case 3: 3
    then have "pad 2 k < pad 2 k'" using pad_less [of k k' 2] \<open>k' < 100\<close> by simp
    with 3 show ?thesis unfolding 1(4) \<open>date_text e = _\<close> by (simp only: less_append_left)
  qed
qed

lemma length_clock_text [simp]: "length (clock_text s) = 8"
  by (simp add: clock_text_def)

lemma clock_text_less:
  assumes "s < r" and "r < 86400"
  shows "clock_text s < clock_text r"
proof -
  have r: "r div 3600 < 100" "r div 60 mod 60 < 100" "r mod 60 < 100"
    using assms(2) by (auto simp: less_mult_imp_div_less intro: less_trans [OF mod_less_divisor])
  consider "s div 3600 < r div 3600" | "s div 3600 = r div 3600" "s div 60 mod 60 < r div 60 mod 60"
    | "s div 3600 = r div 3600" "s div 60 mod 60 = r div 60 mod 60" "s mod 60 < r mod 60"
  proof -
    have "x div 3600 = x div 60 div 60" for x :: nat by (simp add: div_mult2_eq [symmetric])
    moreover have "s div 60 \<le> r div 60" using assms(1) by (simp add: div_le_mono)
    moreover have "s div 60 = r div 60 \<Longrightarrow> s mod 60 < r mod 60"
      using assms(1) by (metis div_mult_mod_eq nat_add_left_cancel_less)
    moreover have "s div 60 div 60 \<le> r div 60 div 60" using assms(1) by (simp add: div_le_mono)
    moreover have "s div 60 < r div 60 \<Longrightarrow> s div 60 div 60 = r div 60 div 60 \<Longrightarrow> s div 60 mod 60 < r div 60 mod 60"
      by (metis div_mult_mod_eq nat_add_left_cancel_less)
    ultimately show ?thesis using that by (metis le_neq_implies_less)
  qed
  then show ?thesis
    unfolding clock_text_def
    by cases (simp_all only: less_append_left less_append_right length_pad
        pad_less [of _ _ 2] r power2_eq_square numeral_times_numeral semiring_norm)
qed

lemma day_year_mono: "d \<le> e \<Longrightarrow> day_year d \<le> day_year e"
  using civil_year_mono [of d e 1970] by (cases "d = e") (auto simp: day_year_def)

lemma second_text_less:
  assumes "s < r" and "day_year (r div 86400) < 10000"
  shows "second_text s < second_text r"
proof (cases "s div 86400 = r div 86400")
  case True
  with assms(1) have "s mod 86400 < r mod 86400"
    by (metis div_mult_mod_eq nat_add_left_cancel_less)
  then have "clock_text (s mod 86400) < clock_text (r mod 86400)"
    by (rule clock_text_less) simp
  with True show ?thesis unfolding second_text_def by (simp only: less_append_left)
next
  case False
  with assms(1) have day: "s div 86400 < r div 86400"
    by (simp add: div_le_mono le_neq_implies_less)
  then have "day_year (s div 86400) < 10000"
    using day_year_mono [of "s div 86400" "r div 86400"] assms(2) by simp
  with date_text_less [OF day assms(2)] show ?thesis
    unfolding second_text_def using assms(2) by (simp only: less_append_right length_date_text)
qed

lemma length_second_text: "day_year (s div 86400) < 10000 \<Longrightarrow> length (second_text s) = 19"
  by (simp add: second_text_def length_date_text)

text \<open>The second of a time, and the range in which the year has four digits.\<close>

definition sec_of :: "nat \<Rightarrow> nat" where
  "sec_of t = t div 1000000000"

definition four_digit_year :: "nat \<Rightarrow> bool" where
  "four_digit_year t \<longleftrightarrow> day_year (sec_of t div 86400) < 10000"

lemma four_digit_year_mono: "t \<le> u \<Longrightarrow> four_digit_year u \<Longrightarrow> four_digit_year t"
  using day_year_mono [of "sec_of t div 86400" "sec_of u div 86400"]
  by (simp add: four_digit_year_def sec_of_def div_le_mono)

text \<open>Times in different seconds are ordered by their texts.\<close>

lemma rfc3339nano_less:
  assumes "sec_of t < sec_of u" and "four_digit_year u"
  shows "rfc3339nano t < rfc3339nano u"
proof -
  have "second_text (sec_of t) < second_text (sec_of u)"
    using assms by (intro second_text_less) (simp_all add: four_digit_year_def)
  moreover have "day_year (sec_of t div 86400) \<le> day_year (sec_of u div 86400)"
    using assms(1) by (intro day_year_mono div_le_mono) simp
  then have "length (second_text (sec_of t)) = length (second_text (sec_of u))"
    using assms(2) by (simp add: four_digit_year_def length_second_text)
  ultimately show ?thesis
    unfolding rfc3339nano_def sec_of_def by (rule less_append_right)
qed

lemma rfc3339nano_le_sec:
  assumes "rfc3339nano t \<le> rfc3339nano u" and "four_digit_year t"
  shows "sec_of t \<le> sec_of u"
proof (rule ccontr)
  assume "\<not> sec_of t \<le> sec_of u"
  then have "rfc3339nano u < rfc3339nano t" using rfc3339nano_less assms(2) by simp
  with assms(1) show False by simp
qed

text \<open>
  Within one second the byte order of the texts is not the order of the times: half a second
  past is written \<open>.5Z\<close> and is greater than the later \<open>.51Z\<close>.
\<close>

lemma rfc3339nano_misordered:
  "\<exists>t u. t < u \<and> four_digit_year u \<and> rfc3339nano u < rfc3339nano t"
proof -
  have "four_digit_year 510000000"
    by (simp add: four_digit_year_def sec_of_def day_year_def civil_year.simps year_len_def leap_def)
  moreover have "rfc3339nano 510000000 < rfc3339nano 500000000"
    by (simp add: rfc3339nano_def frac_text_def char_of_byte less_char_def)
  moreover have "(500000000 :: nat) < 510000000" by simp
  ultimately show ?thesis by blast
qed

end
