(* ===== verification/Store_Base.thy ===== *)
theory Store_Base
  imports Security Go_Time
begin

text \<open>
  The SQLite store (\<open>src/backend/internal/database/database.go\<close>): its tables, its environment and
  the way its operations run.

  A table is the list of its rows in insertion order; a row is a record with one field per column
  (a nullable column is an option).  An operation is a function of the environment and of a pair of
  a step counter and the database; it returns a Go result and the new pair.  Every interaction with
  the outside (a statement, a clock reading, random bytes) takes one step; the environment says for
  each step whether the engine fails there, what the clock shows and which bytes the random source
  gives.  A transaction that ends in an error, or whose begin or commit fails, leaves the database
  as it was.
\<close>

section \<open>Tables\<close>

record user_row =
  ur_id :: string
  ur_username :: string
  ur_password_hash :: string
  ur_enabled :: bool
  ur_created_at :: string
  ur_updated_at :: string
  ur_last_login_at :: "string option"
  ur_last_activity_at :: "string option"

record role_row =
  rr_id :: string
  rr_name :: string
  rr_description :: string
  rr_builtin :: bool
  rr_created_at :: string

record permission_row =
  pr_name :: string
  pr_category :: string
  pr_description :: string

record user_role_row =
  ul_user_id :: string
  ul_role_id :: string
  ul_scope_type :: string
  ul_scope_id :: string

record session_row =
  sr_id_hash :: string
  sr_user_id :: string
  sr_csrf_hash :: string
  sr_created_at :: string
  sr_expires_at :: string
  sr_last_activity_at :: string
  sr_revoked_at :: "string option"
  sr_source_ip :: string
  sr_user_agent :: string

record policy_row =
  po_id :: string
  po_name :: string
  po_description :: string
  po_enabled :: bool
  po_created_at :: string
  po_updated_at :: string

record rule_row =
  ru_id :: string
  ru_policy_id :: string
  ru_effect :: string
  ru_action :: string
  ru_subject_role_id :: "string option"
  ru_match_type :: string
  ru_match_key :: string
  ru_match_value :: string
  ru_priority :: nat

record audit_row =
  au_id :: string
  au_timestamp :: string
  au_user_id :: "string option"
  au_username :: string
  au_source_ip :: string
  au_action :: string
  au_resource_type :: string
  au_resource_id :: string
  au_result :: string
  au_reason :: string
  au_session_id :: string
  au_metadata :: string

record setting_row =
  st_key :: string
  st_value :: string
  st_updated_at :: string

record terminal_row =
  te_id :: string
  te_user_id :: string
  te_container_id :: string
  te_shell :: string
  te_created_at :: string
  te_last_activity_at :: string
  te_expires_at :: string
  te_status :: string
  te_ended_at :: "string option"

record db =
  users :: "user_row list"
  roles :: "role_row list"
  permissions :: "permission_row list"
  role_permissions :: "(string \<times> string) list"
  user_roles :: "user_role_row list"
  sessions :: "session_row list"
  policies :: "policy_row list"
  policy_rules :: "rule_row list"
  audit_events :: "audit_row list"
  settings :: "setting_row list"
  terminal_sessions :: "terminal_row list"

text \<open>The tables as the schema creates them.\<close>

definition empty_db :: db where
  "empty_db = \<lparr>users = [], roles = [], permissions = [], role_permissions = [], user_roles = [], sessions = [],
     policies = [], policy_rules = [], audit_events = [], settings = [], terminal_sessions = []\<rparr>"

text \<open>The collation \<open>NOCASE\<close> folds the ASCII letters.\<close>

definition fold_case :: "string \<Rightarrow> string" where
  "fold_case s = map ascii_lower s"

definition nocase :: "string \<Rightarrow> string \<Rightarrow> bool" where
  "nocase a b \<longleftrightarrow> fold_case a = fold_case b"

text \<open>\<open>UPDATE ... SET ... WHERE\<close> on the rows of a table.\<close>

definition update_where :: "('a \<Rightarrow> bool) \<Rightarrow> ('a \<Rightarrow> 'a) \<Rightarrow> 'a list \<Rightarrow> 'a list" where
  "update_where c f xs = map (\<lambda>x. if c x then f x else x) xs"

lemma update_where_Nil [simp]: "update_where c f [] = []"
  by (simp add: update_where_def)

lemma update_where_Cons [simp]: "update_where c f (x # xs) = (if c x then f x else x) # update_where c f xs"
  by (simp add: update_where_def)

lemma length_update_where [simp]: "length (update_where c f xs) = length xs"
  by (simp add: update_where_def)

lemma ball_update_where [simp]:
  "(\<forall>x\<in>set (update_where c f xs). P x) \<longleftrightarrow> (\<forall>x\<in>set xs. P (if c x then f x else x))"
  by (induction xs) auto

lemma bex_update_where [simp]:
  "(\<exists>x\<in>set (update_where c f xs). P x) \<longleftrightarrow> (\<exists>x\<in>set xs. P (if c x then f x else x))"
  by (induction xs) auto

lemma update_where_id: "(\<And>x. x \<in> set xs \<Longrightarrow> \<not> c x) \<Longrightarrow> update_where c f xs = xs"
  by (induction xs) auto

text \<open>The keys that are left after \<open>DELETE ... WHERE key IN G\<close>.\<close>

lemma image_filter_key: "k ` set (filter (\<lambda>x. k x \<notin> G) xs) = k ` set xs - G"
  by auto

lemma nocase_image: "(\<exists>v\<in>S. nocase (k v) a) \<longleftrightarrow> fold_case a \<in> (\<lambda>v. fold_case (k v)) ` S"
  unfolding nocase_def image_iff by (metis (no_types))

text \<open>A column that the update does not set keeps its values.\<close>

lemma map_update_where [simp]: "(\<And>x. k (f x) = k x) \<Longrightarrow> map k (update_where c f xs) = map k xs"
  by (induction xs) auto

lemma image_update_where [simp]: "(\<And>x. k (f x) = k x) \<Longrightarrow> k ` set (update_where c f xs) = k ` set xs"
  by (induction xs) auto

text \<open>A column that is set to a value no other row has keeps its values apart.\<close>

lemma distinct_update_where:
  assumes "distinct (map k xs)" and "distinct (map i xs)" and "\<And>x. k (f x) = v"
    and "\<And>x. x \<in> set xs \<Longrightarrow> i x \<noteq> j \<Longrightarrow> k x \<noteq> v"
  shows "distinct (map k (update_where (\<lambda>x. i x = j) f xs))"
  using assms by (induction xs) (auto simp: update_where_def image_iff split: if_splits)

section \<open>Environment and operations\<close>

record env =
  engine_fails :: "nat \<Rightarrow> bool"
  clock :: "nat \<Rightarrow> nat"
  random :: "nat \<Rightarrow> nat \<Rightarrow> string option"
  sha256 :: "string \<Rightarrow> string"
  argon2 :: argon2_fun
  dummyPasswordHash :: string

type_synonym store = "nat \<times> db"
type_synonym 'a dbm = "env \<Rightarrow> store \<Rightarrow> 'a go_result \<times> store"

definition ret :: "'a \<Rightarrow> 'a dbm" where
  "ret x = (\<lambda>e s. (Inr x, s))"

definition raise :: "go_error \<Rightarrow> 'a dbm" where
  "raise err = (\<lambda>e s. (Inl err, s))"

definition bnd :: "'a dbm \<Rightarrow> ('a \<Rightarrow> 'b dbm) \<Rightarrow> 'b dbm" where
  "bnd m f = (\<lambda>e s. case m e s of (Inl err, s') \<Rightarrow> (Inl err, s') | (Inr x, s') \<Rightarrow> f x e s')"

text \<open>The error of \<open>m\<close> is looked at by the caller; a panic is not an error and passes through.\<close>

definition attempt :: "'a dbm \<Rightarrow> 'a go_result dbm" where
  "attempt m = (\<lambda>e s. case m e s of
       (Inl (ErrPanic p), s') \<Rightarrow> (Inl (ErrPanic p), s')
     | (r, s') \<Rightarrow> (Inr r, s'))"

definition on_error :: "go_error \<Rightarrow> 'a dbm \<Rightarrow> 'a dbm" where
  "on_error err m = bnd (attempt m) (\<lambda>r. case r of Inl _ \<Rightarrow> raise err | Inr x \<Rightarrow> ret x)"

fun each :: "('a \<Rightarrow> unit dbm) \<Rightarrow> 'a list \<Rightarrow> unit dbm" where
  "each f [] = ret ()"
| "each f (x # xs) = bnd (f x) (\<lambda>_. each f xs)"

fun mapM :: "('a \<Rightarrow> 'b dbm) \<Rightarrow> 'a list \<Rightarrow> 'b list dbm" where
  "mapM f [] = ret []"
| "mapM f (x # xs) = bnd (f x) (\<lambda>y. bnd (mapM f xs) (\<lambda>ys. ret (y # ys)))"

text \<open>One SQL statement: it may fail in the engine, otherwise it has its result and its effect.\<close>

definition exec :: "(db \<Rightarrow> 'a go_result \<times> db) \<Rightarrow> 'a dbm" where
  "exec f = (\<lambda>e (n, d). if engine_fails e n then (Inl (ErrEngine ''database''), Suc n, d)
     else case f d of (r, d') \<Rightarrow> (r, Suc n, d'))"

definition query :: "(db \<Rightarrow> 'a) \<Rightarrow> 'a dbm" where
  "query q = exec (\<lambda>d. (Inr (q d), d))"

text \<open>\<open>QueryRow(...).Scan\<close>: no row is the error \<open>sql.ErrNoRows\<close>.\<close>

definition query_row :: "(db \<Rightarrow> 'a option) \<Rightarrow> 'a dbm" where
  "query_row q = exec (\<lambda>d. (case q d of None \<Rightarrow> Inl ErrNoRows | Some x \<Rightarrow> Inr x, d))"

definition modify :: "(db \<Rightarrow> db) \<Rightarrow> unit dbm" where
  "modify f = exec (\<lambda>d. (Inr (), f d))"

text \<open>A statement that a constraint of the schema can refuse; it then changes nothing.\<close>

definition checked :: "(db \<Rightarrow> ('a \<times> db) option) \<Rightarrow> 'a dbm" where
  "checked f = exec (\<lambda>d. case f d of None \<Rightarrow> (Inl (ErrEngine ''constraint''), d) | Some (x, d') \<Rightarrow> (Inr x, d'))"

definition now :: "string dbm" where
  "now = (\<lambda>e (n, d). (Inr (rfc3339nano (clock e n)), Suc n, d))"

definition time_Now :: "nat dbm" where
  "time_Now = (\<lambda>e (n, d). (Inr (clock e n), Suc n, d))"

text \<open>\<open>id, _ := security.ID()\<close>: the error is dropped and leaves the empty string.\<close>

definition new_ID :: "string dbm" where
  "new_ID = (\<lambda>e (n, d). (Inr (case ID (random e n 16) of Inr i \<Rightarrow> i | Inl _ \<Rightarrow> []), Suc n, d))"

definition checked_ID :: "string dbm" where
  "checked_ID = (\<lambda>e (n, d). (ID (random e n 16), Suc n, d))"

definition random_token :: "nat \<Rightarrow> string dbm" where
  "random_token k = (\<lambda>e (n, d). (RandomToken (random e n k), Suc n, d))"

definition hash_password :: "string \<Rightarrow> string dbm" where
  "hash_password password = (\<lambda>e (n, d). (case HashPassword (argon2 e) (random e n 16) password of
       None \<Rightarrow> Inl (ErrPanic ''argon2'') | Some r \<Rightarrow> r, Suc n, d))"

definition verify_password :: "string \<Rightarrow> string \<Rightarrow> bool dbm" where
  "verify_password encoded password = (\<lambda>e s. (case VerifyPassword (argon2 e) encoded password of
       None \<Rightarrow> Inl (ErrPanic ''argon2'') | Some b \<Rightarrow> Inr b, s))"

text \<open>The comparison against the dummy hash, which takes the time of a real one.\<close>

definition verify_dummy :: "string \<Rightarrow> bool dbm" where
  "verify_dummy password = (\<lambda>e s. verify_password (dummyPasswordHash e) password e s)"

text \<open>The token hash of the environment's SHA-256.\<close>

definition token_hash :: "string \<Rightarrow> string dbm" where
  "token_hash token = (\<lambda>e s. (Inr (TokenHash (sha256 e) token), s))"

text \<open>\<open>BeginTx\<close>, the body, \<open>Commit\<close>, with the deferred \<open>Rollback\<close>.\<close>

definition in_tx :: "'a dbm \<Rightarrow> 'a dbm" where
  "in_tx m = (\<lambda>e (n, d).
     if engine_fails e n then (Inl (ErrEngine ''begin''), Suc n, d)
     else case m e (Suc n, d) of
         (Inl err, n', _) \<Rightarrow> (Inl err, n', d)
       | (Inr x, n', d') \<Rightarrow> if engine_fails e n' then (Inl (ErrEngine ''commit''), Suc n', d)
                           else (Inr x, Suc n', d'))"

section \<open>What an operation does to the database\<close>

text \<open>
  \<open>rel_steps R m\<close>: every run of \<open>m\<close> takes the database to one that is related to it by \<open>R\<close>, in every
  environment and on success and failure alike.  For a reflexive and transitive \<open>R\<close> this is checked
  statement by statement; the interface below carries the rules.
\<close>

definition rel_steps :: "(db \<Rightarrow> db \<Rightarrow> bool) \<Rightarrow> 'a dbm \<Rightarrow> bool" where
  "rel_steps R m \<longleftrightarrow> (\<forall>e n d. R d (snd (snd (m e (n, d)))))"

text \<open>The databases that a run of \<open>m\<close> can leave.\<close>

definition runs :: "'a dbm \<Rightarrow> db \<Rightarrow> db \<Rightarrow> bool" where
  "runs m d d' \<longleftrightarrow> (\<exists>e n. d' = snd (snd (m e (n, d))))"

lemma rel_steps_iff: "rel_steps R m \<longleftrightarrow> (\<forall>d d'. runs m d d' \<longrightarrow> R d d')"
  by (auto simp: rel_steps_def runs_def)

locale store_relation =
  fixes R :: "db \<Rightarrow> db \<Rightarrow> bool"
  assumes R_refl: "R d d"
    and R_trans: "R d d' \<Longrightarrow> R d' d'' \<Longrightarrow> R d d''"
begin

lemma steps_ret: "rel_steps R (ret x)"
  by (simp add: rel_steps_def ret_def R_refl)

lemma steps_raise: "rel_steps R (raise err)"
  by (simp add: rel_steps_def raise_def R_refl)

lemma steps_bnd:
  assumes "rel_steps R m" and "\<And>x. rel_steps R (f x)"
  shows "rel_steps R (bnd m f)"
  unfolding rel_steps_def
proof (intro allI)
  fix e n d
  obtain r n' d' where m: "m e (n, d) = (r, n', d')" by (cases "m e (n, d)") auto
  have 1: "R d d'" using assms(1) m unfolding rel_steps_def by (metis snd_conv)
  show "R d (snd (snd (bnd m f e (n, d))))"
  proof (cases r)
    case (Inl err)
    with m 1 show ?thesis by (simp add: bnd_def)
  next
    case (Inr x)
    have "R d' (snd (snd (f x e (n', d'))))" using assms(2) unfolding rel_steps_def by blast
    with m Inr 1 R_trans show ?thesis by (auto simp: bnd_def)
  qed
qed

lemma steps_attempt: "rel_steps R m \<Longrightarrow> rel_steps R (attempt m)"
  unfolding rel_steps_def attempt_def
  by (auto split: prod.split sum.split go_error.split simp: case_prod_beta)

lemma steps_on_error: "rel_steps R m \<Longrightarrow> rel_steps R (on_error err m)"
  unfolding on_error_def
  by (auto intro!: steps_bnd steps_attempt steps_raise steps_ret split: sum.split)

lemma steps_each: "(\<And>x. rel_steps R (f x)) \<Longrightarrow> rel_steps R (each f xs)"
  by (induction xs) (auto intro: steps_bnd steps_ret)

lemma steps_mapM: "(\<And>x. rel_steps R (f x)) \<Longrightarrow> rel_steps R (mapM f xs)"
  by (induction xs) (auto intro!: steps_bnd steps_ret)

lemma steps_in_tx:
  assumes "rel_steps R m"
  shows "rel_steps R (in_tx m)"
  unfolding rel_steps_def
proof (intro allI)
  fix e n d
  obtain r n' d' where m: "m e (Suc n, d) = (r, n', d')" by (cases "m e (Suc n, d)") auto
  have "R d d'" using assms m unfolding rel_steps_def by (metis snd_conv)
  with m R_refl show "R d (snd (snd (in_tx m e (n, d))))"
    by (cases r) (auto simp: in_tx_def)
qed

lemma steps_exec: "(\<And>d. R d (snd (f d))) \<Longrightarrow> rel_steps R (exec f)"
  by (auto simp: rel_steps_def exec_def R_refl case_prod_beta)

lemma steps_bnd_query_row:
  assumes "\<And>x d d'. q d = Some x \<Longrightarrow> runs (f x) d d' \<Longrightarrow> R d d'"
  shows "rel_steps R (bnd (query_row q) f)"
  unfolding rel_steps_def
proof (intro allI)
  fix e n d
  have "R d (snd (snd (f x e (Suc n, d))))" if "q d = Some x" for x
    using assms [OF that] by (auto simp: runs_def)
  then show "R d (snd (snd (bnd (query_row q) f e (n, d))))"
    by (auto simp: bnd_def query_row_def exec_def R_refl split: option.split)
qed

lemma steps_query: "rel_steps R (query q)"
  unfolding query_def by (rule steps_exec) (simp add: R_refl)

lemma steps_query_row: "rel_steps R (query_row q)"
  unfolding query_row_def by (rule steps_exec) (simp add: R_refl)

lemma steps_modify: "(\<And>d. R d (f d)) \<Longrightarrow> rel_steps R (modify f)"
  unfolding modify_def by (rule steps_exec) simp

lemma steps_checked: "(\<And>d x d'. f d = Some (x, d') \<Longrightarrow> R d d') \<Longrightarrow> rel_steps R (checked f)"
  unfolding checked_def by (rule steps_exec) (auto simp: R_refl split: option.split)

lemma steps_env:
  "rel_steps R now" "rel_steps R time_Now" "rel_steps R new_ID" "rel_steps R checked_ID" "rel_steps R (random_token k)"
  "rel_steps R (hash_password p)" "rel_steps R (verify_password h p)" "rel_steps R (verify_dummy p)" "rel_steps R (token_hash t)"
  by (simp_all add: rel_steps_def now_def time_Now_def new_ID_def checked_ID_def random_token_def hash_password_def
      verify_password_def verify_dummy_def token_hash_def R_refl)

lemmas steps_intros = steps_ret steps_raise steps_bnd steps_attempt steps_on_error steps_each steps_mapM
  steps_in_tx steps_query steps_query_row steps_env

end

section \<open>Successful runs\<close>

text \<open>How a program that returns without an error got there, construct by construct.\<close>

lemma ret_ok: "ret x e s = (Inr y, s') \<longleftrightarrow> y = x \<and> s' = s"
  by (auto simp: ret_def)

lemma raise_ok: "raise err e s \<noteq> (Inr y, s')"
  by (simp add: raise_def)

lemma bnd_ok: "bnd m f e s = (Inr y, s') \<longleftrightarrow> (\<exists>x t. m e s = (Inr x, t) \<and> f x e t = (Inr y, s'))"
  by (auto simp: bnd_def split: prod.splits sum.splits)

lemma attempt_ok:
  "attempt m e s = (Inr r, s') \<longleftrightarrow> m e s = (r, s') \<and> (\<forall>p. r \<noteq> Inl (ErrPanic p))"
  by (auto simp: attempt_def split: prod.splits sum.splits go_error.splits)

lemma on_error_ok: "on_error err m e s = (Inr y, s') \<longleftrightarrow> m e s = (Inr y, s')"
  by (cases "m e s"; cases "fst (m e s)")
    (auto simp: on_error_def bnd_def attempt_def ret_def raise_def split: sum.splits go_error.splits)

lemma exec_ok: "exec f e (n, d) = (Inr y, n', d') \<longleftrightarrow> \<not> engine_fails e n \<and> n' = Suc n \<and> f d = (Inr y, d')"
  by (auto simp: exec_def split: prod.splits)

lemma query_ok: "query q e (n, d) = (Inr y, n', d') \<longleftrightarrow> \<not> engine_fails e n \<and> n' = Suc n \<and> d' = d \<and> y = q d"
  by (auto simp: query_def exec_ok)

lemma query_row_ok:
  "query_row q e (n, d) = (Inr y, n', d') \<longleftrightarrow> \<not> engine_fails e n \<and> n' = Suc n \<and> d' = d \<and> q d = Some y"
  by (auto simp: query_row_def exec_ok split: option.splits)

lemma modify_ok: "modify f e (n, d) = (Inr y, n', d') \<longleftrightarrow> \<not> engine_fails e n \<and> n' = Suc n \<and> d' = f d"
  by (auto simp: modify_def exec_ok)

lemma checked_ok: "checked f e (n, d) = (Inr y, n', d') \<longleftrightarrow> \<not> engine_fails e n \<and> n' = Suc n \<and> f d = Some (y, d')"
  by (auto simp: checked_def exec_ok split: option.splits)

lemma now_ok: "now e (n, d) = (Inr y, n', d') \<longleftrightarrow> n' = Suc n \<and> d' = d \<and> y = rfc3339nano (clock e n)"
  by (auto simp: now_def)

lemma time_Now_ok: "time_Now e (n, d) = (Inr y, n', d') \<longleftrightarrow> n' = Suc n \<and> d' = d \<and> y = clock e n"
  by (auto simp: time_Now_def)

lemma token_hash_ok: "token_hash t e s = (Inr y, s') \<longleftrightarrow> s' = s \<and> y = TokenHash (sha256 e) t"
  by (auto simp: token_hash_def)

lemma random_token_ok:
  "random_token k e (n, d) = (Inr y, n', d') \<longleftrightarrow> n' = Suc n \<and> d' = d \<and> RandomToken (random e n k) = Inr y"
  by (auto simp: random_token_def)

lemma hash_password_ok:
  "hash_password p e (n, d) = (Inr h, n', d') \<longleftrightarrow>
    n' = Suc n \<and> d' = d \<and> HashPassword (argon2 e) (random e n 16) p = Some (Inr h)"
  by (auto simp: hash_password_def split: option.splits)

lemma verify_password_ok:
  "verify_password h p e s = (Inr b, s') \<longleftrightarrow> s' = s \<and> VerifyPassword (argon2 e) h p = Some b"
  by (auto simp: verify_password_def split: option.splits)

lemma in_tx_ok:
  "in_tx m e (n, d) = (Inr y, n', d') \<longleftrightarrow>
    (\<exists>k. \<not> engine_fails e n \<and> m e (Suc n, d) = (Inr y, k, d') \<and> \<not> engine_fails e k \<and> n' = Suc k)"
  by (auto simp: in_tx_def split: prod.splits sum.splits if_splits)

lemma case_raise_ok:
  "(case r of Inl a \<Rightarrow> raise (g a) | Inr x \<Rightarrow> f x) e s = (Inr y, s') \<longleftrightarrow> (\<exists>x. r = Inr x \<and> f x e s = (Inr y, s'))"
  by (cases r) (simp_all add: raise_ok)

lemma if_raise_ok: "(if c then raise err else m) e s = (Inr y, s') \<longleftrightarrow> \<not> c \<and> m e s = (Inr y, s')"
  by (simp add: raise_ok)

lemmas run_ok = case_raise_ok if_raise_ok ret_ok raise_ok bnd_ok attempt_ok on_error_ok query_ok query_row_ok modify_ok checked_ok now_ok
  time_Now_ok token_hash_ok random_token_ok hash_password_ok verify_password_ok in_tx_ok

text \<open>A transaction that does not succeed changes nothing.\<close>

lemma in_tx_error: "in_tx m e (n, d) = (Inl err, n', d') \<Longrightarrow> d' = d"
  by (auto simp: in_tx_def split: if_splits prod.splits sum.splits)

end
