(* ===== verification/Store_Users.thy ===== *)
theory Store_Users
  imports Store_Base
begin

text \<open>
  The accounts of the store (\<open>src/backend/internal/database/database.go\<close>): opening and seeding the
  database, users and their roles, authentication, password recovery and the guard that keeps the
  last enabled administrator.
\<close>

section \<open>Go structures\<close>

record User =
  user_ID :: string
  user_Username :: string
  user_Enabled :: bool
  user_CreatedAt :: string
  user_LastLoginAt :: "string option"
  user_LastActivityAt :: "string option"
  user_Roles :: "string list"
  user_RoleIDs :: "string list"
  user_Permissions :: "string list"

record Permission =
  perm_Name :: string
  perm_Category :: string
  perm_Description :: string
  perm_Roles :: "string list"

definition PermissionCatalog :: "(string \<times> string \<times> string) list" where
  "PermissionCatalog = [
     (''container.read'', ''Containers'', ''List and view containers''),
     (''container.inspect'', ''Containers'', ''View container configuration''),
     (''container.stats'', ''Containers'', ''View live resource statistics''),
     (''container.logs'', ''Containers'', ''View and follow logs''),
     (''container.exec'', ''Terminal'', ''Open an interactive shell (privileged)''),
     (''container.restart'', ''Containers'', ''Restart a container''),
     (''secret.view'', ''Secrets'', ''Reveal masked container secrets''),
     (''user.read'', ''Users'', ''View users''),
     (''user.manage'', ''Users'', ''Manage users''),
     (''role.read'', ''Roles'', ''View roles''),
     (''role.manage'', ''Roles'', ''Manage roles''),
     (''permission.read'', ''Roles'', ''View permission catalog''),
     (''policy.read'', ''Policies'', ''View policies''),
     (''policy.manage'', ''Policies'', ''Manage policies''),
     (''audit.read'', ''Audit'', ''Read audit events''),
     (''settings.read'', ''Settings'', ''View settings''),
     (''settings.manage'', ''Settings'', ''Manage settings'')]"

section \<open>Statements\<close>

text \<open>\<open>INSERT INTO users\<close>: the primary key and the unique user name may refuse it.\<close>

definition insert_user :: "user_row \<Rightarrow> db \<Rightarrow> (unit \<times> db) option" where
  "insert_user u d =
     (if ur_id u \<in> ur_id ` set (users d) \<or> (\<exists>v\<in>set (users d). nocase (ur_username v) (ur_username u)) then None
      else Some ((), d\<lparr>users := users d @ [u]\<rparr>))"

text \<open>\<open>INSERT INTO users ... WHERE NOT EXISTS(SELECT 1 FROM users)\<close> with the number of rows it inserted.\<close>

definition insert_first_user :: "user_row \<Rightarrow> db \<Rightarrow> (nat \<times> db) option" where
  "insert_first_user u d = (if users d = [] then Some (1, d\<lparr>users := [u]\<rparr>) else Some (0, d))"

definition local_scope :: "string \<Rightarrow> string \<Rightarrow> user_role_row" where
  "local_scope uid rid = \<lparr>ul_user_id = uid, ul_role_id = rid, ul_scope_type = ''host'', ul_scope_id = ''local''\<rparr>"

text \<open>The roles that \<open>WHERE id=? OR name=?\<close> finds.\<close>

definition role_matches :: "string \<Rightarrow> db \<Rightarrow> string list" where
  "role_matches role d = [rr_id r. r \<leftarrow> roles d, rr_id r = role \<or> nocase (rr_name r) role]"

text \<open>
  Insert user-role rows for the given role ids: the foreign keys and the primary key may refuse them,
  and then none is inserted.
\<close>

definition insert_user_roles :: "string \<Rightarrow> string list \<Rightarrow> db \<Rightarrow> (nat \<times> db) option" where
  "insert_user_roles uid rids d =
     (if rids = [] then Some (0, d)
      else if uid \<in> ur_id ` set (users d) \<and> (\<forall>r\<in>set rids. r \<in> rr_id ` set (roles d))
            \<and> distinct rids \<and> (\<forall>r\<in>set rids. local_scope uid r \<notin> set (user_roles d))
      then Some (length rids, d\<lparr>user_roles := user_roles d @ map (local_scope uid) rids\<rparr>)
      else None)"

definition assign_role :: "string \<Rightarrow> string \<Rightarrow> db \<Rightarrow> (nat \<times> db) option" where
  "assign_role uid role d = insert_user_roles uid (role_matches role d) d"

definition update_user :: "string \<Rightarrow> (user_row \<Rightarrow> user_row) \<Rightarrow> db \<Rightarrow> db" where
  "update_user uid f d = d\<lparr>users := update_where (\<lambda>u. ur_id u = uid) f (users d)\<rparr>"

definition revoke_active :: "string \<Rightarrow> string \<Rightarrow> db \<Rightarrow> db" where
  "revoke_active uid t d = d\<lparr>sessions :=
     update_where (\<lambda>s. sr_user_id s = uid \<and> sr_revoked_at s = None) (\<lambda>s. s\<lparr>sr_revoked_at := Some t\<rparr>) (sessions d)\<rparr>"

definition clear_user_roles :: "string \<Rightarrow> db \<Rightarrow> db" where
  "clear_user_roles uid d = d\<lparr>user_roles := filter (\<lambda>l. ul_user_id l \<noteq> uid) (user_roles d)\<rparr>"

definition insert_audit :: "audit_row \<Rightarrow> db \<Rightarrow> (unit \<times> db) option" where
  "insert_audit a d = (if au_id a \<in> au_id ` set (audit_events d) then None
     else Some ((), d\<lparr>audit_events := audit_events d @ [a]\<rparr>))"

text \<open>The users joined with their assignments of the role \<open>role-admin\<close>, one row per match.\<close>

definition admin_rows :: "db \<Rightarrow> string list" where
  "admin_rows d = [ur_id u. u \<leftarrow> users d, l \<leftarrow> user_roles d,
     ul_user_id l = ur_id u \<and> ur_enabled u \<and> ul_role_id l = ''role-admin'']"

definition count_distinct :: "'a list \<Rightarrow> nat" where
  "count_distinct xs = length (remdups xs)"

section \<open>Opening the database\<close>

definition upsert_permission :: "string \<times> string \<times> string \<Rightarrow> db \<Rightarrow> db" where
  "upsert_permission p d = (case p of (name, category, description) \<Rightarrow>
     if name \<in> pr_name ` set (permissions d)
     then d\<lparr>permissions := update_where (\<lambda>r. pr_name r = name)
              (\<lambda>r. r\<lparr>pr_category := category, pr_description := description\<rparr>) (permissions d)\<rparr>
     else d\<lparr>permissions := permissions d @ [\<lparr>pr_name = name, pr_category = category, pr_description = description\<rparr>]\<rparr>)"

text \<open>
  \<open>INSERT OR IGNORE\<close>: a row that a unique constraint refuses is skipped.  A foreign key is not covered by
  the \<open>OR IGNORE\<close> and makes the statement fail.
\<close>

definition insert_ignore_role :: "role_row \<Rightarrow> db \<Rightarrow> db" where
  "insert_ignore_role r d =
     (if rr_id r \<in> rr_id ` set (roles d) \<or> (\<exists>q\<in>set (roles d). nocase (rr_name q) (rr_name r)) then d
      else d\<lparr>roles := roles d @ [r]\<rparr>)"

definition insert_ignore_role_permission :: "string \<Rightarrow> string \<Rightarrow> db \<Rightarrow> (unit \<times> db) option" where
  "insert_ignore_role_permission rid p d =
     (if (rid, p) \<in> set (role_permissions d) then Some ((), d)
      else if rid \<in> rr_id ` set (roles d) \<and> p \<in> pr_name ` set (permissions d)
      then Some ((), d\<lparr>role_permissions := role_permissions d @ [(rid, p)]\<rparr>)
      else None)"

definition insert_ignore_setting :: "setting_row \<Rightarrow> db \<Rightarrow> db" where
  "insert_ignore_setting s d = (if st_key s \<in> st_key ` set (settings d) then d
     else d\<lparr>settings := settings d @ [s]\<rparr>)"

definition builtin_roles :: "(string \<times> string \<times> string \<times> string list) list" where
  "builtin_roles = [
     (''role-viewer'', ''Viewer'', ''Read-only container troubleshooting'',
       [''container.read'', ''container.inspect'', ''container.stats'', ''container.logs'']),
     (''role-developer'', ''Developer'', ''Viewer plus privileged terminal access'',
       [''container.read'', ''container.inspect'', ''container.stats'', ''container.logs'', ''container.exec'']),
     (''role-admin'', ''Admin'', ''Full administrative access'', [])]"

definition seed_role :: "string \<times> string \<times> string \<times> string list \<Rightarrow> unit dbm" where
  "seed_role r = (case r of (rid, name, desc, perms) \<Rightarrow>
     bnd now (\<lambda>t.
     bnd (modify (insert_ignore_role \<lparr>rr_id = rid, rr_name = name, rr_description = desc, rr_builtin = True, rr_created_at = t\<rparr>)) (\<lambda>_.
     each (\<lambda>p. checked (insert_ignore_role_permission rid p))
       (if name = ''Admin'' then perms @ map fst PermissionCatalog else perms))))"

definition seed :: "unit dbm" where
  "seed = in_tx (
     bnd (each (\<lambda>p. modify (upsert_permission p)) PermissionCatalog) (\<lambda>_.
     bnd (each seed_role builtin_roles) (\<lambda>_.
     bnd now (\<lambda>t.
     modify (insert_ignore_setting \<lparr>st_key = ''auth_provider'', st_value = ''local'', st_updated_at = t\<rparr>)))))"

text \<open>
  \<open>Open\<close> after the directory and the connection are there: the schema creates the missing tables, which
  changes no row, and the seed runs.
\<close>

definition Open :: "unit dbm" where
  "Open = bnd (on_error (ErrNew ''migrate database'') (modify (\<lambda>d. d))) (\<lambda>_. seed)"

section \<open>Users\<close>

definition UserCount :: "nat dbm" where
  "UserCount = query (\<lambda>d. length (users d))"

text \<open>The rows of the join that \<open>GetUser\<close> reads: role id, role name and, if the role has any, a permission.\<close>

definition user_join :: "string \<Rightarrow> db \<Rightarrow> (string \<times> string \<times> string option) list" where
  "user_join uid d = [(rr_id r, rr_name r, p).
     l \<leftarrow> filter (\<lambda>l. ul_user_id l = uid \<and> ul_scope_type l = ''host'' \<and> ul_scope_id l = ''local'') (user_roles d),
     r \<leftarrow> filter (\<lambda>r. rr_id r = ul_role_id l) (roles d),
     p \<leftarrow> (case [snd rp. rp \<leftarrow> role_permissions d, fst rp = rr_id r] of [] \<Rightarrow> [None] | ps \<Rightarrow> map Some ps)]"

text \<open>One turn of the loop over the rows, with \<open>seen\<close> and \<open>seenPermission\<close> as lists.\<close>

type_synonym collect = "string list \<times> string list \<times> string list \<times> string list \<times> string list"

definition collect_row :: "string \<times> string \<times> string option \<Rightarrow> collect \<Rightarrow> collect" where
  "collect_row row st = (case row of (roleID, role, perm) \<Rightarrow> case st of (rs, ids, ps, seen, seenPermission) \<Rightarrow>
     let (rs, ids, seen) = (if role \<notin> set seen then (rs @ [role], ids @ [roleID], role # seen) else (rs, ids, seen));
         (ps, seenPermission) = (case perm of
             Some p \<Rightarrow> if p \<notin> set seenPermission then (ps @ [p], p # seenPermission) else (ps, seenPermission)
           | None \<Rightarrow> (ps, seenPermission))
     in (rs, ids, ps, seen, seenPermission))"

definition collect_rows :: "(string \<times> string \<times> string option) list \<Rightarrow> collect" where
  "collect_rows rows = fold collect_row rows ([], [], [], [], [])"

definition user_of :: "user_row \<Rightarrow> (string \<times> string \<times> string option) list \<Rightarrow> User" where
  "user_of u rows = (case collect_rows rows of (rs, ids, ps, _) \<Rightarrow>
     \<lparr>user_ID = ur_id u, user_Username = ur_username u, user_Enabled = ur_enabled u, user_CreatedAt = ur_created_at u,
      user_LastLoginAt = ur_last_login_at u, user_LastActivityAt = ur_last_activity_at u,
      user_Roles = rs, user_RoleIDs = ids, user_Permissions = ps\<rparr>)"

definition GetUser :: "string \<Rightarrow> User dbm" where
  "GetUser uid =
     bnd (query_row (\<lambda>d. find (\<lambda>u. ur_id u = uid) (users d))) (\<lambda>u.
     bnd (query (user_join uid)) (\<lambda>rows. ret (user_of u rows)))"

text \<open>The loop that gives the roles, with the error for a role that no row has.\<close>

definition assign_roles :: "(string \<Rightarrow> go_error) \<Rightarrow> string \<Rightarrow> string list \<Rightarrow> unit dbm" where
  "assign_roles unknown uid = each (\<lambda>role.
     bnd (checked (assign_role uid role)) (\<lambda>n. if n = 0 then raise (unknown role) else ret ()))"

definition CreateUser :: "string \<Rightarrow> string \<Rightarrow> string list \<Rightarrow> bool \<Rightarrow> User dbm" where
  "CreateUser username password roleNames enabled =
     (if \<not> ValidateUsername username then raise (ErrNew ''invalid username'')
      else bnd (hash_password password) (\<lambda>hash. bnd new_ID (\<lambda>uid. bnd now (\<lambda>t.
        bnd (in_tx (
          bnd (on_error (ErrNew ''username already exists'') (checked (insert_user
                \<lparr>ur_id = uid, ur_username = username, ur_password_hash = hash, ur_enabled = enabled,
                 ur_created_at = t, ur_updated_at = t, ur_last_login_at = None, ur_last_activity_at = None\<rparr>)))
            (\<lambda>_. assign_roles (ErrQuoted ''unknown role'') uid roleNames)))
        (\<lambda>_. GetUser uid)))))"

definition BootstrapAdmin :: "string \<Rightarrow> string \<Rightarrow> User dbm" where
  "BootstrapAdmin username password =
     (if \<not> ValidateUsername username then raise (ErrNew ''invalid username'')
      else bnd (hash_password password) (\<lambda>hash. bnd new_ID (\<lambda>uid. bnd now (\<lambda>t.
        bnd (in_tx (
          bnd (on_error (ErrNew ''bootstrap unavailable'') (checked (insert_first_user
                \<lparr>ur_id = uid, ur_username = username, ur_password_hash = hash, ur_enabled = True,
                 ur_created_at = t, ur_updated_at = t, ur_last_login_at = None, ur_last_activity_at = None\<rparr>)))
            (\<lambda>n. if n \<noteq> 1 then raise (ErrNew ''bootstrap already completed'')
              else bnd (checked (insert_user_roles uid [''role-admin''])) (\<lambda>_. ret ()))))
        (\<lambda>_. GetUser uid)))))"

text \<open>\<open>Authenticate\<close> returns the user, or \<open>None\<close> for its result \<open>false\<close> without an error.\<close>

definition Authenticate :: "string \<Rightarrow> string \<Rightarrow> User option dbm" where
  "Authenticate username password =
     bnd (attempt (query_row (\<lambda>d. find (\<lambda>u. nocase (ur_username u) username) (users d)))) (\<lambda>r.
       case r of
         Inl ErrNoRows \<Rightarrow> bnd (verify_dummy password) (\<lambda>_. ret None)
       | Inl err \<Rightarrow> raise err
       | Inr u \<Rightarrow>
           if \<not> ur_enabled u then ret None
           else bnd (verify_password (ur_password_hash u) password) (\<lambda>ok.
             if \<not> ok then ret None
             else bnd now (\<lambda>t1. bnd now (\<lambda>t2.
               bnd (attempt (modify (update_user (ur_id u)
                 (\<lambda>x. x\<lparr>ur_last_login_at := Some t1, ur_last_activity_at := Some t2\<rparr>)))) (\<lambda>_.
               bnd (GetUser (ur_id u)) (\<lambda>x. ret (Some x)))))))"

definition ListUsers :: "User list dbm" where
  "ListUsers = bnd (query (\<lambda>d. map ur_id (sort_key (\<lambda>u. fold_case (ur_username u)) (users d)))) (mapM GetUser)"

definition keeps_admin :: "string list option \<Rightarrow> bool" where
  "keeps_admin roleNames = (case roleNames of None \<Rightarrow> True
     | Some rs \<Rightarrow> list_ex (\<lambda>role. role = ''role-admin'' \<or> equalFold role ''Admin'') rs)"

text \<open>
  The parts of \<open>UpdateUser\<close>: the guard for the last enabled administrator, the flag, the password with
  the revocation of the sessions, and the roles (\<open>None\<close> is the nil slice).
\<close>

definition guard_last_admin :: "string \<Rightarrow> bool option \<Rightarrow> string list option \<Rightarrow> unit dbm" where
  "guard_last_admin uid enabled roleNames =
     bnd (query (\<lambda>d. uid \<in> set (admin_rows d))) (\<lambda>isEnabledAdmin.
     if isEnabledAdmin \<and> (enabled = Some False \<or> \<not> keeps_admin roleNames)
     then bnd (query (\<lambda>d. count_distinct (admin_rows d))) (\<lambda>count.
            if count \<le> 1 then raise ErrLastAdmin else ret ())
     else ret ())"

definition update_enabled :: "string \<Rightarrow> bool option \<Rightarrow> unit dbm" where
  "update_enabled uid enabled = (case enabled of None \<Rightarrow> ret ()
     | Some b \<Rightarrow> bnd now (\<lambda>t. modify (update_user uid (\<lambda>u. u\<lparr>ur_enabled := b, ur_updated_at := t\<rparr>))))"

definition update_password :: "string \<Rightarrow> string \<Rightarrow> unit dbm" where
  "update_password uid password = (if password = [] then ret ()
     else bnd (hash_password password) (\<lambda>h.
          bnd now (\<lambda>t. bnd (modify (update_user uid (\<lambda>u. u\<lparr>ur_password_hash := h, ur_updated_at := t\<rparr>))) (\<lambda>_.
          bnd now (\<lambda>t. modify (revoke_active uid t))))))"

definition update_roles :: "string \<Rightarrow> string list option \<Rightarrow> unit dbm" where
  "update_roles uid roleNames = (case roleNames of None \<Rightarrow> ret ()
     | Some rs \<Rightarrow> bnd (modify (clear_user_roles uid)) (\<lambda>_. assign_roles (\<lambda>_. ErrNew ''unknown role'') uid rs))"

definition UpdateUser :: "string \<Rightarrow> bool option \<Rightarrow> string list option \<Rightarrow> string \<Rightarrow> unit dbm" where
  "UpdateUser uid enabled roleNames password = in_tx (
     bnd (guard_last_admin uid enabled roleNames) (\<lambda>_.
     bnd (update_enabled uid enabled) (\<lambda>_.
     bnd (update_password uid password) (\<lambda>_.
     update_roles uid roleNames))))"

lemmas UpdateUser_parts = guard_last_admin_def update_enabled_def update_password_def update_roles_def

definition RecoverPassword :: "string \<Rightarrow> string \<Rightarrow> User dbm" where
  "RecoverPassword username password =
     bnd (hash_password password) (\<lambda>hash.
     bnd (in_tx (
       bnd (attempt (query_row (\<lambda>d. find (\<lambda>u. nocase (ur_username u) username) (users d)))) (\<lambda>r.
         case r of
           Inl ErrNoRows \<Rightarrow> raise (ErrNew ''user not found'')
         | Inl err \<Rightarrow> raise err
         | Inr u \<Rightarrow>
             if \<not> ur_enabled u then raise (ErrNew ''user is disabled; another administrator must enable it'')
             else bnd now (\<lambda>timestamp.
               bnd (modify (update_user (ur_id u) (\<lambda>x. x\<lparr>ur_password_hash := hash, ur_updated_at := timestamp\<rparr>))) (\<lambda>_.
               bnd (modify (revoke_active (ur_id u) timestamp)) (\<lambda>_.
               bnd checked_ID (\<lambda>auditID.
               bnd (checked (insert_audit
                 \<lparr>au_id = auditID, au_timestamp = timestamp, au_user_id = Some (ur_id u), au_username = ur_username u,
                  au_source_ip = ''local-host'', au_action = ''PASSWORD_RECOVERY'', au_resource_type = ''user'',
                  au_resource_id = ur_id u, au_result = ''success'', au_reason = ''emergency host recovery'',
                  au_session_id = [], au_metadata = ''{\"source\":\"host-cli\"}''\<rparr>)) (\<lambda>_.
               ret (ur_id u))))))))) GetUser)"

definition ActiveAdminCount :: "nat dbm" where
  "ActiveAdminCount = query (\<lambda>d. count_distinct [ur_id u. u \<leftarrow> users d, l \<leftarrow> user_roles d, r \<leftarrow> roles d,
     ul_user_id l = ur_id u \<and> rr_id r = ul_role_id l \<and> ur_enabled u \<and> nocase (rr_name r) ''Admin''])"

end
