(* ===== verification/Store_Sessions.thy ===== *)
theory Store_Sessions
  imports Store_Users
begin

text \<open>
  Login sessions, terminal sessions, settings and the audit trail of the store
  (\<open>src/backend/internal/database/database.go\<close>).
\<close>

section \<open>Login sessions\<close>

record Session =
  session_User :: User
  session_TokenHash :: string
  session_CSRFHash :: string
  session_ExpiresAt :: string

definition insert_session :: "session_row \<Rightarrow> db \<Rightarrow> (unit \<times> db) option" where
  "insert_session s d =
     (if sr_id_hash s \<in> sr_id_hash ` set (sessions d) \<or> sr_user_id s \<notin> ur_id ` set (users d) then None
      else Some ((), d\<lparr>sessions := sessions d @ [s]\<rparr>))"

definition update_session :: "string \<Rightarrow> (session_row \<Rightarrow> session_row) \<Rightarrow> db \<Rightarrow> db" where
  "update_session h f d = d\<lparr>sessions := update_where (\<lambda>s. sr_id_hash s = h) f (sessions d)\<rparr>"

definition CreateSession :: "string \<Rightarrow> string \<Rightarrow> string \<Rightarrow> nat \<Rightarrow> (string \<times> string) dbm" where
  "CreateSession userID sourceIP userAgent ttl =
     bnd (random_token 32) (\<lambda>token. bnd (random_token 32) (\<lambda>csrf. bnd time_Now (\<lambda>t.
     bnd (token_hash token) (\<lambda>h. bnd (token_hash csrf) (\<lambda>ch.
     bnd (checked (insert_session
       \<lparr>sr_id_hash = h, sr_user_id = userID, sr_csrf_hash = ch, sr_created_at = rfc3339nano t,
        sr_expires_at = rfc3339nano (t + ttl), sr_last_activity_at = rfc3339nano t, sr_revoked_at = None,
        sr_source_ip = sourceIP, sr_user_agent = Prelude.truncate userAgent 256\<rparr>)) (\<lambda>_.
     ret (token, csrf)))))))"

text \<open>The sessions that \<open>WHERE id_hash=? AND revoked_at IS NULL AND expires_at>?\<close> finds; the texts are compared as bytes.\<close>

definition live_session :: "string \<Rightarrow> string \<Rightarrow> session_row \<Rightarrow> bool" where
  "live_session h t s \<longleftrightarrow> sr_id_hash s = h \<and> sr_revoked_at s = None \<and> sr_expires_at s > t"

definition ResolveSession :: "string \<Rightarrow> Session dbm" where
  "ResolveSession token =
     bnd (token_hash token) (\<lambda>h. bnd now (\<lambda>t.
     bnd (query_row (\<lambda>d. find (live_session h t) (sessions d))) (\<lambda>s.
     bnd (attempt (GetUser (sr_user_id s))) (\<lambda>r.
       case r of
         Inl _ \<Rightarrow> raise ErrNoRows
       | Inr u \<Rightarrow>
           if \<not> user_Enabled u then raise ErrNoRows
           else bnd now (\<lambda>t'.
             bnd (attempt (modify (update_session h (\<lambda>x. x\<lparr>sr_last_activity_at := t'\<rparr>)))) (\<lambda>_.
             ret \<lparr>session_User = u, session_TokenHash = h, session_CSRFHash = sr_csrf_hash s,
                  session_ExpiresAt = sr_expires_at s\<rparr>))))))"

definition RevokeSession :: "string \<Rightarrow> unit dbm" where
  "RevokeSession token = bnd now (\<lambda>t. bnd (token_hash token) (\<lambda>h.
     modify (update_session h (\<lambda>s. s\<lparr>sr_revoked_at := Some t\<rparr>))))"

definition RevokeUserSessions :: "string \<Rightarrow> unit dbm" where
  "RevokeUserSessions userID = bnd now (\<lambda>t. modify (revoke_active userID t))"

section \<open>Terminal sessions\<close>

record TerminalSession =
  term_ID :: string
  term_UserID :: string
  term_ContainerID :: string
  term_Shell :: string
  term_CreatedAt :: string
  term_LastActivityAt :: string
  term_ExpiresAt :: string
  term_Status :: string

definition insert_terminal :: "terminal_row \<Rightarrow> db \<Rightarrow> (unit \<times> db) option" where
  "insert_terminal x d =
     (if te_id x \<in> te_id ` set (terminal_sessions d) \<or> te_user_id x \<notin> ur_id ` set (users d) then None
      else Some ((), d\<lparr>terminal_sessions := terminal_sessions d @ [x]\<rparr>))"

definition terminal_of :: "terminal_row \<Rightarrow> TerminalSession" where
  "terminal_of x = \<lparr>term_ID = te_id x, term_UserID = te_user_id x, term_ContainerID = te_container_id x,
     term_Shell = te_shell x, term_CreatedAt = te_created_at x, term_LastActivityAt = te_last_activity_at x,
     term_ExpiresAt = te_expires_at x, term_Status = te_status x\<rparr>"

definition CreateTerminal :: "string \<Rightarrow> string \<Rightarrow> string \<Rightarrow> nat \<Rightarrow> TerminalSession dbm" where
  "CreateTerminal userID containerID shell ttl =
     bnd new_ID (\<lambda>tid. bnd time_Now (\<lambda>t.
     let x = \<lparr>te_id = tid, te_user_id = userID, te_container_id = containerID, te_shell = shell,
              te_created_at = rfc3339nano t, te_last_activity_at = rfc3339nano t,
              te_expires_at = rfc3339nano (t + ttl), te_status = ''created'', te_ended_at = None\<rparr>
     in bnd (checked (insert_terminal x)) (\<lambda>_. ret (terminal_of x))))"

definition live_terminal :: "string \<Rightarrow> string \<Rightarrow> string \<Rightarrow> terminal_row \<Rightarrow> bool" where
  "live_terminal tid userID t x \<longleftrightarrow> te_id x = tid \<and> te_user_id x = userID
     \<and> te_status x \<in> {''created'', ''attached''} \<and> te_expires_at x > t"

definition GetTerminal :: "string \<Rightarrow> string \<Rightarrow> TerminalSession dbm" where
  "GetTerminal tid userID = bnd now (\<lambda>t.
     bnd (query_row (\<lambda>d. find (live_terminal tid userID t) (terminal_sessions d))) (\<lambda>x. ret (terminal_of x)))"

definition touch_terminal :: "string \<Rightarrow> string \<Rightarrow> string \<Rightarrow> string \<Rightarrow> db \<Rightarrow> db" where
  "touch_terminal tid status t t' d = d\<lparr>terminal_sessions :=
     update_where (\<lambda>x. te_id x = tid)
       (\<lambda>x. x\<lparr>te_last_activity_at := t, te_status := status,
               te_ended_at := (if status = ''ended'' then Some t' else te_ended_at x)\<rparr>) (terminal_sessions d)\<rparr>"

definition TouchTerminal :: "string \<Rightarrow> string \<Rightarrow> unit dbm" where
  "TouchTerminal tid status = bnd now (\<lambda>t. bnd now (\<lambda>t'. modify (touch_terminal tid status t t')))"

section \<open>Settings\<close>

definition Settings :: "(string \<rightharpoonup> string) dbm" where
  "Settings = query (\<lambda>d. map_of (map (\<lambda>s. (st_key s, st_value s)) (settings d)))"

definition allowedSettings :: "string list" where
  "allowedSettings = [''instance_name'', ''environment'', ''terminal_idle_timeout'', ''default_log_tail'', ''secret_masking'']"

definition setting_ok :: "string \<times> string \<Rightarrow> bool" where
  "setting_ok kv \<longleftrightarrow> fst kv \<in> set allowedSettings \<and> length (snd kv) \<le> 200"

text \<open>A Go map is given as its entries, in the order in which the loop happens to visit them.\<close>

definition EnsureSettings :: "(string \<times> string) list \<Rightarrow> unit dbm" where
  "EnsureSettings m = each (\<lambda>(k, v). if \<not> setting_ok (k, v) then raise (ErrNew ''invalid setting'')
     else bnd now (\<lambda>t. modify (insert_ignore_setting \<lparr>st_key = k, st_value = v, st_updated_at = t\<rparr>))) m"

definition upsert_setting :: "string \<Rightarrow> string \<Rightarrow> string \<Rightarrow> db \<Rightarrow> db" where
  "upsert_setting k v t d =
     (if k \<in> st_key ` set (settings d)
      then d\<lparr>settings := update_where (\<lambda>s. st_key s = k) (\<lambda>s. s\<lparr>st_value := v, st_updated_at := t\<rparr>) (settings d)\<rparr>
      else d\<lparr>settings := settings d @ [\<lparr>st_key = k, st_value = v, st_updated_at = t\<rparr>]\<rparr>)"

definition UpdateSettings :: "(string \<times> string) list \<Rightarrow> unit dbm" where
  "UpdateSettings m = in_tx (each (\<lambda>(k, v). if \<not> setting_ok (k, v) then raise (ErrNew ''invalid setting'')
     else bnd now (\<lambda>t. modify (upsert_setting k v t))) m)"

section \<open>Audit trail\<close>

record AuditEvent =
  event_ID :: string
  event_Timestamp :: string
  event_UserID :: string
  event_Username :: string
  event_SourceIP :: string
  event_Action :: string
  event_ResourceType :: string
  event_ResourceID :: string
  event_Result :: string
  event_Reason :: string
  event_SessionID :: string
  event_Metadata :: string

text \<open>A stable sort in descending order of the key.\<close>

definition sort_desc :: "('a \<Rightarrow> 'k::linorder) \<Rightarrow> 'a list \<Rightarrow> 'a list" where
  "sort_desc key xs = rev (sort_key key (rev xs))"

definition maxAuditEvents :: nat where "maxAuditEvents = 100000"

text \<open>\<open>DELETE ... WHERE id IN (SELECT id ... ORDER BY timestamp DESC LIMIT -1 OFFSET 100000)\<close>.\<close>

definition trim_audit :: "nat \<Rightarrow> db \<Rightarrow> db" where
  "trim_audit keep d = (let old = map au_id (drop keep (sort_desc au_timestamp (audit_events d)))
     in d\<lparr>audit_events := filter (\<lambda>a. au_id a \<notin> set old) (audit_events d)\<rparr>)"

definition audit_row_of :: "AuditEvent \<Rightarrow> audit_row" where
  "audit_row_of x = \<lparr>au_id = event_ID x, au_timestamp = event_Timestamp x,
     au_user_id = (if event_UserID x = [] then None else Some (event_UserID x)),
     au_username = Prelude.truncate (event_Username x) 64, au_source_ip = Prelude.truncate (event_SourceIP x) 64,
     au_action = Prelude.truncate (event_Action x) 64, au_resource_type = Prelude.truncate (event_ResourceType x) 64,
     au_resource_id = Prelude.truncate (event_ResourceID x) 128, au_result = Prelude.truncate (event_Result x) 16,
     au_reason = Prelude.truncate (event_Reason x) 300, au_session_id = Prelude.truncate (event_SessionID x) 64,
     au_metadata = event_Metadata x\<rparr>"

definition Audit :: "AuditEvent \<Rightarrow> unit dbm" where
  "Audit x =
     bnd new_ID (\<lambda>i.
     bnd (if event_Timestamp x = [] then now else ret (event_Timestamp x)) (\<lambda>t.
     let x = x\<lparr>event_ID := i, event_Timestamp := t,
               event_Metadata := (if event_Metadata x = [] then ''{}'' else event_Metadata x)\<rparr>
     in bnd (checked (insert_audit (audit_row_of x))) (\<lambda>_.
        modify (trim_audit maxAuditEvents))))"

definition event_of_row :: "audit_row \<Rightarrow> AuditEvent" where
  "event_of_row a = \<lparr>event_ID = au_id a, event_Timestamp = au_timestamp a,
     event_UserID = (case au_user_id a of None \<Rightarrow> [] | Some u \<Rightarrow> u), event_Username = au_username a,
     event_SourceIP = au_source_ip a, event_Action = au_action a, event_ResourceType = au_resource_type a,
     event_ResourceID = au_resource_id a, event_Result = au_result a, event_Reason = au_reason a,
     event_SessionID = au_session_id a, event_Metadata = au_metadata a\<rparr>"

definition ListAudit :: "int \<Rightarrow> AuditEvent list dbm" where
  "ListAudit limit = (let limit = (if limit < 1 \<or> limit > 1000 then 200 else limit)
     in query (\<lambda>d. map event_of_row (take (nat limit) (sort_desc au_timestamp (audit_events d)))))"

end
