(* ===== verification/Store_Access.thy ===== *)
theory Store_Access
  imports Store_Sessions
begin

text \<open>
  Roles, the permission catalog and policies of the store
  (\<open>src/backend/internal/database/database.go\<close>).
\<close>

section \<open>Go structures\<close>

record Role =
  role_ID :: string
  role_Name :: string
  role_Description :: string
  role_Builtin :: bool
  role_Permissions :: "string list"

record PolicyRule =
  rule_ID :: string
  rule_PolicyID :: string
  rule_Effect :: string
  rule_Action :: string
  rule_SubjectRoleID :: string
  rule_MatchType :: string
  rule_MatchKey :: string
  rule_MatchValue :: string
  rule_Priority :: int

record Policy =
  policy_ID :: string
  policy_Name :: string
  policy_Description :: string
  policy_Enabled :: bool
  policy_Rules :: "PolicyRule list"

section \<open>Roles\<close>

definition role_of :: "role_row \<Rightarrow> string list \<Rightarrow> Role" where
  "role_of r ps = \<lparr>role_ID = rr_id r, role_Name = rr_name r, role_Description = rr_description r,
     role_Builtin = rr_builtin r, role_Permissions = ps\<rparr>"

definition permissions_of_role :: "string \<Rightarrow> db \<Rightarrow> string list" where
  "permissions_of_role rid d = sort [snd rp. rp \<leftarrow> role_permissions d, fst rp = rid]"

definition ListRoles :: "Role list dbm" where
  "ListRoles =
     bnd (query (\<lambda>d. sort_key (\<lambda>r. fold_case (rr_name r)) (roles d)))
       (mapM (\<lambda>r. bnd (query (permissions_of_role (rr_id r))) (\<lambda>ps. ret (role_of r ps))))"

definition insert_role :: "role_row \<Rightarrow> db \<Rightarrow> (unit \<times> db) option" where
  "insert_role r d =
     (if rr_id r \<in> rr_id ` set (roles d) \<or> (\<exists>q\<in>set (roles d). nocase (rr_name q) (rr_name r)) then None
      else Some ((), d\<lparr>roles := roles d @ [r]\<rparr>))"

definition rename_role :: "string \<Rightarrow> string \<Rightarrow> string \<Rightarrow> db \<Rightarrow> (unit \<times> db) option" where
  "rename_role rid name desc d =
     (if rid \<in> rr_id ` set (roles d) \<and> (\<exists>q\<in>set (roles d). rr_id q \<noteq> rid \<and> nocase (rr_name q) name) then None
      else Some ((), d\<lparr>roles := update_where (\<lambda>r. rr_id r = rid) (\<lambda>r. r\<lparr>rr_name := name, rr_description := desc\<rparr>) (roles d)\<rparr>))"

definition clear_role_permissions :: "string \<Rightarrow> db \<Rightarrow> db" where
  "clear_role_permissions rid d = d\<lparr>role_permissions := filter (\<lambda>rp. fst rp \<noteq> rid) (role_permissions d)\<rparr>"

definition insert_role_permission :: "string \<Rightarrow> string \<Rightarrow> db \<Rightarrow> (unit \<times> db) option" where
  "insert_role_permission rid p d =
     (if (rid, p) \<in> set (role_permissions d) \<or> rid \<notin> rr_id ` set (roles d) \<or> p \<notin> pr_name ` set (permissions d) then None
      else Some ((), d\<lparr>role_permissions := role_permissions d @ [(rid, p)]\<rparr>))"

text \<open>The transaction at the end of \<open>SaveRole\<close>.\<close>

definition replace_permissions :: "string \<Rightarrow> string list \<Rightarrow> unit dbm" where
  "replace_permissions rid ps = in_tx (
     bnd (modify (clear_role_permissions rid)) (\<lambda>_.
     each (\<lambda>p. on_error (ErrQuoted ''unknown permission'' p) (checked (insert_role_permission rid p))) ps))"

definition SaveRole :: "Role \<Rightarrow> Role dbm" where
  "SaveRole r =
     (if trimSpace (role_Name r) = [] \<or> length (role_Name r) > 64 then raise (ErrNew ''invalid role name'')
      else
        bnd (if role_ID r = [] then
               bnd new_ID (\<lambda>i. bnd now (\<lambda>t.
               bnd (on_error (ErrNew ''role name already exists'') (checked (insert_role
                      \<lparr>rr_id = i, rr_name = role_Name r, rr_description = Prelude.truncate (role_Description r) 500,
                       rr_builtin = False, rr_created_at = t\<rparr>))) (\<lambda>_.
               ret (r\<lparr>role_ID := i\<rparr>))))
             else
               bnd (query_row (\<lambda>d. find (\<lambda>q. rr_id q = role_ID r) (roles d))) (\<lambda>q.
               if rr_builtin q \<and> rr_name q \<noteq> role_Name r then raise (ErrNew ''built-in role cannot be renamed'')
               else bnd (checked (rename_role (role_ID r) (role_Name r) (Prelude.truncate (role_Description r) 500))) (\<lambda>_. ret r)))
        (\<lambda>r. bnd (replace_permissions (role_ID r) (role_Permissions r)) (\<lambda>_. ret r)))"

text \<open>\<open>DELETE FROM roles\<close> with the cascades of the schema; the number of roles deleted.\<close>

definition delete_role :: "string \<Rightarrow> db \<Rightarrow> nat \<times> db" where
  "delete_role rid d =
     (let gone = map rr_id (filter (\<lambda>r. rr_id r = rid \<and> \<not> rr_builtin r) (roles d))
      in (length gone,
          d\<lparr>roles := filter (\<lambda>r. rr_id r \<notin> set gone) (roles d),
            role_permissions := filter (\<lambda>rp. fst rp \<notin> set gone) (role_permissions d),
            user_roles := filter (\<lambda>l. ul_role_id l \<notin> set gone) (user_roles d),
            policy_rules := filter (\<lambda>x. case ru_subject_role_id x of None \<Rightarrow> True | Some q \<Rightarrow> q \<notin> set gone) (policy_rules d)\<rparr>))"

definition DeleteRole :: "string \<Rightarrow> unit dbm" where
  "DeleteRole rid = bnd (exec (\<lambda>d. case delete_role rid d of (n, d') \<Rightarrow> (Inr n, d'))) (\<lambda>n.
     if n = 0 then raise (ErrNew ''built-in or unknown role'') else ret ())"

text \<open>\<open>group_concat\<close> of the names, and the split of its text on commas.\<close>

fun group_concat :: "string list \<Rightarrow> string" where
  "group_concat [] = []"
| "group_concat [x] = x"
| "group_concat (x # y # xs) = x @ '','' @ group_concat (y # xs)"

definition roles_of_permission :: "string \<Rightarrow> db \<Rightarrow> string list" where
  "roles_of_permission p d = [rr_name r. rp \<leftarrow> filter (\<lambda>rp. snd rp = p) (role_permissions d),
     r \<leftarrow> filter (\<lambda>r. rr_id r = fst rp) (roles d)]"

definition permission_of :: "db \<Rightarrow> permission_row \<Rightarrow> Permission" where
  "permission_of d p = (let joined = group_concat (roles_of_permission (pr_name p) d)
     in \<lparr>perm_Name = pr_name p, perm_Category = pr_category p, perm_Description = pr_description p,
        perm_Roles = (if joined \<noteq> [] then split_on (CHR '','') joined else [])\<rparr>)"

definition ListPermissions :: "Permission list dbm" where
  "ListPermissions = query (\<lambda>d. map (permission_of d)
     (sort_key pr_category (sort_key pr_name (permissions d))))"

section \<open>Policies\<close>

definition rule_of :: "rule_row \<Rightarrow> PolicyRule" where
  "rule_of x = \<lparr>rule_ID = ru_id x, rule_PolicyID = ru_policy_id x, rule_Effect = ru_effect x, rule_Action = ru_action x,
     rule_SubjectRoleID = (case ru_subject_role_id x of None \<Rightarrow> [] | Some r \<Rightarrow> r), rule_MatchType = ru_match_type x,
     rule_MatchKey = ru_match_key x, rule_MatchValue = ru_match_value x, rule_Priority = int (ru_priority x)\<rparr>"

definition policy_of :: "policy_row \<Rightarrow> rule_row list \<Rightarrow> Policy" where
  "policy_of p xs = \<lparr>policy_ID = po_id p, policy_Name = po_name p, policy_Description = po_description p,
     policy_Enabled = po_enabled p, policy_Rules = map rule_of xs\<rparr>"

definition rules_of_policy :: "string \<Rightarrow> db \<Rightarrow> rule_row list" where
  "rules_of_policy pid d = sort_desc ru_priority (filter (\<lambda>x. ru_policy_id x = pid) (policy_rules d))"

definition ListPolicies :: "Policy list dbm" where
  "ListPolicies = bnd (query (\<lambda>d. sort_key po_name (policies d)))
     (mapM (\<lambda>p. bnd (query (rules_of_policy (po_id p))) (\<lambda>xs. ret (policy_of p xs))))"

text \<open>\<open>INSERT INTO policies ... ON CONFLICT(id) DO UPDATE\<close>; the unique name may refuse either half.\<close>

definition upsert_policy :: "policy_row \<Rightarrow> db \<Rightarrow> (unit \<times> db) option" where
  "upsert_policy p d =
     (if \<exists>q\<in>set (policies d). po_id q \<noteq> po_id p \<and> po_name q = po_name p then None
      else if po_id p \<in> po_id ` set (policies d)
      then Some ((), d\<lparr>policies := update_where (\<lambda>q. po_id q = po_id p)
             (\<lambda>q. q\<lparr>po_name := po_name p, po_description := po_description p, po_enabled := po_enabled p,
                    po_updated_at := po_updated_at p\<rparr>) (policies d)\<rparr>)
      else Some ((), d\<lparr>policies := policies d @ [p]\<rparr>))"

definition clear_rules :: "string \<Rightarrow> db \<Rightarrow> db" where
  "clear_rules pid d = d\<lparr>policy_rules := filter (\<lambda>x. ru_policy_id x \<noteq> pid) (policy_rules d)\<rparr>"

definition insert_rule :: "rule_row \<Rightarrow> db \<Rightarrow> (unit \<times> db) option" where
  "insert_rule x d =
     (if ru_id x \<notin> ru_id ` set (policy_rules d) \<and> ru_policy_id x \<in> po_id ` set (policies d)
         \<and> ru_effect x \<in> {''allow'', ''deny''} \<and> ru_action x \<in> pr_name ` set (permissions d)
         \<and> (case ru_subject_role_id x of None \<Rightarrow> True | Some r \<Rightarrow> r \<in> rr_id ` set (roles d))
         \<and> ru_match_type x \<in> {''name'', ''label''}
      then Some ((), d\<lparr>policy_rules := policy_rules d @ [x]\<rparr>) else None)"

text \<open>One turn of the loop over the rules, with the position \<open>i\<close> as the priority.\<close>

definition save_rule :: "string \<Rightarrow> nat \<times> PolicyRule \<Rightarrow> unit dbm" where
  "save_rule pid = (\<lambda>(i, r).
     if rule_Effect r \<noteq> ''allow'' \<and> rule_Effect r \<noteq> ''deny'' then raise (ErrNew ''invalid effect'')
     else if rule_MatchType r \<noteq> ''name'' \<and> rule_MatchType r \<noteq> ''label'' then raise (ErrNew ''invalid match type'')
     else if length (rule_MatchValue r) > 128 \<or> contains (rule_MatchValue r) ''['' then raise (ErrNew ''invalid policy pattern'')
     else bnd (if rule_ID r = [] then new_ID else ret (rule_ID r)) (\<lambda>rid.
       checked (insert_rule
         \<lparr>ru_id = rid, ru_policy_id = pid, ru_effect = rule_Effect r, ru_action = rule_Action r,
          ru_subject_role_id = (if rule_SubjectRoleID r = [] then None else Some (rule_SubjectRoleID r)),
          ru_match_type = rule_MatchType r, ru_match_key = Prelude.truncate (rule_MatchKey r) 128,
          ru_match_value = rule_MatchValue r, ru_priority = i\<rparr>)))"

definition SavePolicy :: "Policy \<Rightarrow> Policy dbm" where
  "SavePolicy p =
     (if length (trimSpace (policy_Name p)) < 1 \<or> length (policy_Name p) > 100 then raise (ErrNew ''invalid policy name'')
      else bnd (if policy_ID p = [] then new_ID else ret (policy_ID p)) (\<lambda>pid.
        bnd now (\<lambda>t.
        bnd (in_tx (
          bnd (checked (upsert_policy \<lparr>po_id = pid, po_name = policy_Name p,
                 po_description = Prelude.truncate (policy_Description p) 500, po_enabled = policy_Enabled p,
                 po_created_at = t, po_updated_at = t\<rparr>)) (\<lambda>_.
          bnd (modify (clear_rules pid)) (\<lambda>_.
          each (save_rule pid) (List.enumerate 0 (policy_Rules p))))))
        (\<lambda>_. ret (p\<lparr>policy_ID := pid\<rparr>)))))"

definition delete_policy :: "string \<Rightarrow> db \<Rightarrow> db" where
  "delete_policy pid d = d\<lparr>policies := filter (\<lambda>p. po_id p \<noteq> pid) (policies d),
     policy_rules := filter (\<lambda>x. ru_policy_id x \<noteq> pid) (policy_rules d)\<rparr>"

definition DeletePolicy :: "string \<Rightarrow> unit dbm" where
  "DeletePolicy pid = modify (delete_policy pid)"

end
