(* ===== verification/Store_Laws.thy ===== *)
theory Store_Laws
  imports Store_Access
begin

text \<open>
  What the operations of the store keep.

  The interface \<open>store_laws\<close> lists, for a reflexive and transitive relation between databases, the
  laws of the SQL statements; every operation of the store is then within the relation.
  \<open>store_operations\<close> adds the operation \<open>UpdateUser\<close>, whose guard looks at more than one statement,
  and \<open>store_statements\<close> the two statements that give it for relations that hold statement by
  statement.  The relation \<open>store_step\<close> is one call of an exported operation.
\<close>

section \<open>One call of an operation\<close>

inductive store_step :: "db \<Rightarrow> db \<Rightarrow> bool" where
  step_Open: "runs Open d d' \<Longrightarrow> store_step d d'"
| step_UserCount: "runs UserCount d d' \<Longrightarrow> store_step d d'"
| step_CreateUser: "runs (CreateUser username password rs b) d d' \<Longrightarrow> store_step d d'"
| step_BootstrapAdmin: "runs (BootstrapAdmin username password) d d' \<Longrightarrow> store_step d d'"
| step_Authenticate: "runs (Authenticate username password) d d' \<Longrightarrow> store_step d d'"
| step_GetUser: "runs (GetUser uid) d d' \<Longrightarrow> store_step d d'"
| step_ListUsers: "runs ListUsers d d' \<Longrightarrow> store_step d d'"
| step_UpdateUser: "runs (UpdateUser uid enabled rso password) d d' \<Longrightarrow> store_step d d'"
| step_RecoverPassword: "runs (RecoverPassword username password) d d' \<Longrightarrow> store_step d d'"
| step_ActiveAdminCount: "runs ActiveAdminCount d d' \<Longrightarrow> store_step d d'"
| step_CreateSession: "runs (CreateSession uid ip agent ttl) d d' \<Longrightarrow> store_step d d'"
| step_ResolveSession: "runs (ResolveSession token) d d' \<Longrightarrow> store_step d d'"
| step_RevokeSession: "runs (RevokeSession token) d d' \<Longrightarrow> store_step d d'"
| step_RevokeUserSessions: "runs (RevokeUserSessions uid) d d' \<Longrightarrow> store_step d d'"
| step_ListRoles: "runs ListRoles d d' \<Longrightarrow> store_step d d'"
| step_SaveRole: "runs (SaveRole role) d d' \<Longrightarrow> store_step d d'"
| step_DeleteRole: "runs (DeleteRole rid) d d' \<Longrightarrow> store_step d d'"
| step_ListPermissions: "runs ListPermissions d d' \<Longrightarrow> store_step d d'"
| step_ListPolicies: "runs ListPolicies d d' \<Longrightarrow> store_step d d'"
| step_SavePolicy: "runs (SavePolicy pol) d d' \<Longrightarrow> store_step d d'"
| step_DeletePolicy: "runs (DeletePolicy pid) d d' \<Longrightarrow> store_step d d'"
| step_Settings: "runs Settings d d' \<Longrightarrow> store_step d d'"
| step_EnsureSettings: "runs (EnsureSettings m) d d' \<Longrightarrow> store_step d d'"
| step_UpdateSettings: "runs (UpdateSettings m) d d' \<Longrightarrow> store_step d d'"
| step_Audit: "runs (Audit event) d d' \<Longrightarrow> store_step d d'"
| step_ListAudit: "runs (ListAudit limit) d d' \<Longrightarrow> store_step d d'"
| step_CreateTerminal: "runs (CreateTerminal uid cid shell ttl) d d' \<Longrightarrow> store_step d d'"
| step_GetTerminal: "runs (GetTerminal tid uid) d d' \<Longrightarrow> store_step d d'"
| step_TouchTerminal: "runs (TouchTerminal tid status) d d' \<Longrightarrow> store_step d d'"

section \<open>The interface\<close>

text \<open>What every update of a user row keeps, and what an update of a session row may do.\<close>

definition user_update_ok :: "(user_row \<Rightarrow> user_row) \<Rightarrow> bool" where
  "user_update_ok f \<longleftrightarrow> (\<forall>u. ur_id (f u) = ur_id u \<and> ur_username (f u) = ur_username u \<and> ur_created_at (f u) = ur_created_at u)"

definition session_update_ok :: "(session_row \<Rightarrow> session_row) \<Rightarrow> bool" where
  "session_update_ok f \<longleftrightarrow> (\<forall>s. sr_id_hash (f s) = sr_id_hash s \<and> sr_user_id (f s) = sr_user_id s
     \<and> sr_csrf_hash (f s) = sr_csrf_hash s \<and> sr_expires_at (f s) = sr_expires_at s
     \<and> (sr_revoked_at s \<noteq> None \<longrightarrow> sr_revoked_at (f s) \<noteq> None))"

locale store_laws = store_relation +
  assumes R_insert_user: "insert_user u d = Some (x, d') \<Longrightarrow> R d d'"
    and R_insert_first_user: "insert_first_user u d = Some (n, d') \<Longrightarrow> R d d'"
    and R_insert_user_roles: "insert_user_roles uid rids d = Some (n, d') \<Longrightarrow> R d d'"
    and R_update_user: "user_update_ok f \<Longrightarrow> (\<And>u. ur_enabled (f u) = ur_enabled u) \<Longrightarrow> R d (update_user uid f d)"
    and R_revoke_active: "R d (revoke_active uid t d)"
    and R_insert_audit: "insert_audit a d = Some (x, d') \<Longrightarrow> R d d'"
    and R_upsert_permission: "R d (upsert_permission p d)"
    and R_insert_ignore_role: "R d (insert_ignore_role r d)"
    and R_insert_ignore_role_permission: "insert_ignore_role_permission rid perm d = Some (x, d') \<Longrightarrow> R d d'"
    and R_insert_ignore_setting: "R d (insert_ignore_setting s d)"
    and R_insert_session: "insert_session se d = Some (x, d') \<Longrightarrow> R d d'"
    and R_update_session: "session_update_ok g \<Longrightarrow> R d (update_session h g d)"
    and R_insert_terminal: "insert_terminal te d = Some (x, d') \<Longrightarrow> R d d'"
    and R_touch_terminal: "R d (touch_terminal tid status t t' d)"
    and R_upsert_setting: "R d (upsert_setting k v t d)"
    and R_trim_audit: "R d (trim_audit keep d)"
    and R_insert_role: "insert_role r d = Some (x, d') \<Longrightarrow> R d d'"
    and R_rename_role: "rename_role rid name desc d = Some (x, d') \<Longrightarrow>
        find (\<lambda>q. rr_id q = rid) (roles d) = Some q \<Longrightarrow> rr_builtin q \<longrightarrow> rr_name q = name \<Longrightarrow> R d d'"
    and R_clear_role_permissions: "R d (clear_role_permissions rid d)"
    and R_insert_role_permission: "insert_role_permission rid perm d = Some (x, d') \<Longrightarrow> R d d'"
    and R_delete_role: "R d (snd (delete_role rid d))"
    and R_upsert_policy: "upsert_policy po d = Some (x, d') \<Longrightarrow> R d d'"
    and R_clear_rules: "R d (clear_rules pid d)"
    and R_insert_rule: "insert_rule ru d = Some (x, d') \<Longrightarrow> R d d'"
    and R_delete_policy: "R d (delete_policy pid d)"
begin

lemmas steps_all = steps_intros steps_modify steps_checked

lemma steps_GetUser: "rel_steps R (GetUser uid)"
  unfolding GetUser_def by (intro steps_all)

lemma steps_seed_role: "rel_steps R (seed_role r)"
  unfolding seed_role_def
  by (cases r) (auto intro!: steps_all R_insert_ignore_role intro: R_insert_ignore_role_permission)

lemma steps_Open: "rel_steps R Open"
  unfolding Open_def seed_def
  by (intro steps_all R_refl R_upsert_permission steps_seed_role R_insert_ignore_setting)

lemma steps_assign_roles: "rel_steps R (assign_roles unknown uid rs)"
  unfolding assign_roles_def assign_role_def
  by (auto intro!: steps_all intro: R_insert_user_roles)

lemma steps_CreateUser: "rel_steps R (CreateUser username password rs b)"
  unfolding CreateUser_def by (auto intro!: steps_all steps_GetUser steps_assign_roles intro: R_insert_user)

lemma steps_BootstrapAdmin: "rel_steps R (BootstrapAdmin username password)"
  unfolding BootstrapAdmin_def
  by (auto intro!: steps_all steps_GetUser intro: R_insert_first_user R_insert_user_roles)

lemma steps_Authenticate: "rel_steps R (Authenticate username password)"
  unfolding Authenticate_def
  by (auto intro!: steps_all steps_GetUser R_update_user simp: user_update_ok_def split: sum.split go_error.split)

lemma steps_RecoverPassword: "rel_steps R (RecoverPassword username password)"
  unfolding RecoverPassword_def
  by (auto intro!: steps_all steps_GetUser R_update_user R_revoke_active intro: R_insert_audit
      simp: user_update_ok_def split: sum.split go_error.split)

lemma steps_readers:
  "rel_steps R UserCount" "rel_steps R ListUsers" "rel_steps R ActiveAdminCount" "rel_steps R ListRoles"
  "rel_steps R ListPermissions" "rel_steps R ListPolicies" "rel_steps R Settings" "rel_steps R (ListAudit limit)"
  "rel_steps R (GetTerminal tid uid)"
  unfolding UserCount_def ListUsers_def ActiveAdminCount_def ListRoles_def ListPermissions_def ListPolicies_def
    Settings_def ListAudit_def GetTerminal_def Let_def
  by (intro steps_all steps_GetUser)+

lemma steps_sessions:
  "rel_steps R (CreateSession uid ip agent ttl)" "rel_steps R (ResolveSession token)"
  "rel_steps R (RevokeSession token)" "rel_steps R (RevokeUserSessions uid)"
  unfolding CreateSession_def ResolveSession_def RevokeSession_def RevokeUserSessions_def
  by (auto intro!: steps_all steps_GetUser R_update_session R_revoke_active intro: R_insert_session
      simp: session_update_ok_def split: sum.split)

lemma steps_terminals:
  "rel_steps R (CreateTerminal uid cid shell ttl)" "rel_steps R (TouchTerminal tid status)"
  unfolding CreateTerminal_def TouchTerminal_def Let_def
  by (auto intro!: steps_all R_touch_terminal intro: R_insert_terminal)

lemma steps_settings: "rel_steps R (EnsureSettings m)" "rel_steps R (UpdateSettings m)"
  unfolding EnsureSettings_def UpdateSettings_def
  by (auto intro!: steps_all R_insert_ignore_setting R_upsert_setting)

lemma steps_Audit: "rel_steps R (Audit x)"
  unfolding Audit_def Let_def by (auto intro!: steps_all R_trim_audit intro: R_insert_audit)

lemma steps_replace_permissions: "rel_steps R (replace_permissions rid ps)"
  unfolding replace_permissions_def
  by (auto intro!: steps_all R_clear_role_permissions intro: R_insert_role_permission)

lemma steps_rename:
  "rel_steps R (bnd (query_row (\<lambda>d. find (\<lambda>q. rr_id q = rid) (roles d))) (\<lambda>q.
     if rr_builtin q \<and> rr_name q \<noteq> name then raise err
     else bnd (checked (rename_role rid name desc)) (\<lambda>_. ret r)))"
  by (rule steps_bnd_query_row)
    (auto simp: runs_def raise_def ret_def bnd_def checked_def exec_def R_refl
      split: if_splits option.splits intro: R_rename_role)

lemma steps_SaveRole: "rel_steps R (SaveRole role)"
  unfolding SaveRole_def
  by (auto intro!: steps_all steps_replace_permissions steps_rename intro: R_insert_role)

lemma steps_DeleteRole: "rel_steps R (DeleteRole rid)"
  unfolding DeleteRole_def using R_delete_role [of _ rid]
  by (auto intro!: steps_all steps_exec split: prod.split) (metis snd_conv)+

lemma steps_save_rule: "rel_steps R (save_rule pid ir)"
  unfolding save_rule_def by (cases ir) (auto intro!: steps_all intro: R_insert_rule)

lemma steps_SavePolicy: "rel_steps R (SavePolicy pol)"
  unfolding SavePolicy_def by (auto intro!: steps_all steps_save_rule R_clear_rules intro: R_upsert_policy)

lemma steps_DeletePolicy: "rel_steps R (DeletePolicy pid)"
  unfolding DeletePolicy_def by (intro steps_all R_delete_policy)

end

locale store_operations = store_laws +
  assumes steps_UpdateUser: "rel_steps R (UpdateUser uid enabled rso password)"
begin

lemmas operations = steps_Open steps_CreateUser steps_BootstrapAdmin steps_Authenticate steps_GetUser steps_UpdateUser
  steps_RecoverPassword steps_readers steps_sessions steps_terminals steps_settings steps_Audit steps_SaveRole
  steps_DeleteRole steps_SavePolicy steps_DeletePolicy

lemma store_step: "store_step d d' \<Longrightarrow> R d d'"
  using operations unfolding rel_steps_iff by (elim store_step.cases) metis+

lemma store_steps: "store_step\<^sup>*\<^sup>* d d' \<Longrightarrow> R d d'"
  by (induction rule: rtranclp_induct) (auto intro: R_refl R_trans store_step)

end

locale store_statements = store_laws +
  assumes R_set_user: "user_update_ok f \<Longrightarrow> R d (update_user uid f d)"
    and R_clear_user_roles: "R d (clear_user_roles uid d)"

sublocale store_statements \<subseteq> store_operations
  by unfold_locales
    (auto simp: UpdateUser_def UpdateUser_parts user_update_ok_def split: option.split
      intro!: steps_all R_set_user R_clear_user_roles R_revoke_active steps_assign_roles)

end
