(* ===== verification/Path_Match.thy ===== *)
theory Path_Match
  imports Prelude
begin

text \<open>
  Go's \<open>path.Match\<close>, which the policy engine uses for container-name globs: the real matching loop
  (chunks between stars, each placed at its leftmost position), character classes and escapes
  included, and its equivalence with the declarative meaning of a glob.

  The result \<^const>\<open>None\<close> is \<open>path.ErrBadPattern\<close>.
\<close>

section \<open>Decoding a rune\<close>

text \<open>\<open>utf8.DecodeRuneInString\<close>: the code point and its width in bytes; U+FFFD on invalid bytes.\<close>

definition decodeRune :: "string \<Rightarrow> nat \<times> nat" where
  "decodeRune s =
     (let b = map of_char (take 4 s) :: nat list;
          ok = (\<lambda>i lo hi. i < length b \<and> lo \<le> b ! i \<and> b ! i \<le> hi);
          lo2 = (\<lambda>c. if c = 0xE0 then 0xA0 else if c = 0xF0 then 0x90 else 0x80);
          hi2 = (\<lambda>c. if c = 0xED then 0x9F else if c = 0xF4 then 0x8F else 0xBF)
      in case b of
           [] \<Rightarrow> (0xFFFD, 0)
         | c # _ \<Rightarrow>
             if c < 0x80 then (c, 1)
             else if 0xC2 \<le> c \<and> c \<le> 0xDF \<and> ok 1 0x80 0xBF
               then ((c - 0xC0) * 64 + (b ! 1 - 0x80), 2)
             else if 0xE0 \<le> c \<and> c \<le> 0xEF \<and> ok 1 (lo2 c) (hi2 c) \<and> ok 2 0x80 0xBF
               then ((c - 0xE0) * 4096 + (b ! 1 - 0x80) * 64 + (b ! 2 - 0x80), 3)
             else if 0xF0 \<le> c \<and> c \<le> 0xF4 \<and> ok 1 (lo2 c) (hi2 c) \<and> ok 2 0x80 0xBF \<and> ok 3 0x80 0xBF
               then ((c - 0xF0) * 262144 + (b ! 1 - 0x80) * 4096 + (b ! 2 - 0x80) * 64 + (b ! 3 - 0x80), 4)
             else (0xFFFD, 1))"

lemma decodeRune_width: "s \<noteq> [] \<Longrightarrow> 1 \<le> snd (decodeRune s)"
  by (cases s) (simp_all add: decodeRune_def Let_def)

lemma decodeRune_ascii: "(of_char c :: nat) < 128 \<Longrightarrow> decodeRune (c # s) = (of_char c, 1)"
  by (simp add: decodeRune_def Let_def)

section \<open>The matcher\<close>

text \<open>A possibly escaped character of a class, and the rest of the chunk, which must not be empty.\<close>

definition getEsc :: "string \<Rightarrow> (nat \<times> string) option" where
  "getEsc chunk =
     (if chunk = [] \<or> hd chunk = CHR ''-'' \<or> hd chunk = CHR '']'' then None
      else let chunk' = (if hd chunk = CHR 0x5C then tl chunk else chunk) in
        if chunk' = [] then None
        else case decodeRune chunk' of (r, n) \<Rightarrow>
          if (r = 0xFFFD \<and> n = 1) \<or> drop n chunk' = [] then None else Some (r, drop n chunk'))"

lemma getEsc_shorter: "getEsc chunk = Some (r, rest) \<Longrightarrow> length rest < length chunk"
  using decodeRune_width [of chunk] decodeRune_width [of "tl chunk"]
  by (auto simp: getEsc_def Let_def split: if_splits prod.splits)

text \<open>The ranges of a class: whether the rune lies in one of them, and the chunk after the bracket.\<close>

function class_ranges :: "nat \<Rightarrow> string \<Rightarrow> bool \<Rightarrow> nat \<Rightarrow> (bool \<times> string) option" where
  "class_ranges r chunk mat nrange =
     (if chunk \<noteq> [] \<and> hd chunk = CHR '']'' \<and> nrange > 0 then Some (mat, tl chunk)
      else case getEsc chunk of
          None \<Rightarrow> None
        | Some (lo, c1) \<Rightarrow>
            if hd c1 = CHR ''-'' then
              (case getEsc (tl c1) of
                 None \<Rightarrow> None
               | Some (hi, c2) \<Rightarrow> class_ranges r c2 (mat \<or> (lo \<le> r \<and> r \<le> hi)) (Suc nrange))
            else class_ranges r c1 (mat \<or> (lo \<le> r \<and> r \<le> lo)) (Suc nrange))"
  by pat_completeness auto
termination
  by (relation "measure (\<lambda>(r, chunk, m, n). length chunk)")
    (fastforce dest!: getEsc_shorter)+

declare class_ranges.simps [simp del]

lemma class_ranges_shorter: "class_ranges r chunk m n = Some (b, rest) \<Longrightarrow> length rest < length chunk"
proof (induction r chunk m n rule: class_ranges.induct)
  case (1 r chunk mat nrange)
  show ?case
  proof (cases "chunk \<noteq> [] \<and> hd chunk = CHR '']'' \<and> nrange > 0")
    case True
    with 1(3) show ?thesis by (auto simp: class_ranges.simps [of r chunk])
  next
    case False
    with 1(3) obtain lo c1 where g: "getEsc chunk = Some (lo, c1)"
      by (auto simp: class_ranges.simps [of r chunk] split: option.splits)
    show ?thesis
    proof (cases "hd c1 = CHR ''-''")
      case True
      with 1(3) g False obtain hi c2 where h: "getEsc (tl c1) = Some (hi, c2)"
        by (auto simp: class_ranges.simps [of r chunk] split: option.splits)
      have "length rest < length c2"
        using 1(1) [OF False g refl True h refl] 1(3) False g True h
        by (simp add: class_ranges.simps [of r chunk] split: if_splits)
      with getEsc_shorter [OF g] getEsc_shorter [OF h] show ?thesis by simp
    next
      case f: False
      have "length rest < length c1"
        using 1(2) [OF False g refl f] 1(3) False g f
        by (simp add: class_ranges.simps [of r chunk] split: if_splits)
      with getEsc_shorter [OF g] show ?thesis by simp
    qed
  qed
qed

text \<open>
  \<open>matchChunk\<close>: outer \<^const>\<open>None\<close> for a bad pattern, inner \<^const>\<open>None\<close> for no match, otherwise the
  rest of the name.  After a failure the loop goes on over the chunk to check its syntax.
\<close>

function matchChunk :: "string \<Rightarrow> string \<Rightarrow> bool \<Rightarrow> string option option" where
  "matchChunk [] s failed0 = Some (if failed0 then None else Some s)"
| "matchChunk (c # chunk) s failed0 =
     (let failed = (failed0 \<or> s = []) in
      if c = CHR ''['' then
        (let (r, s1) = (if \<not> failed then (fst (decodeRune s), drop (snd (decodeRune s)) s) else (0, s));
             negated = (chunk \<noteq> [] \<and> hd chunk = CHR ''^'');
             chunk1 = (if negated then tl chunk else chunk)
         in case class_ranges r chunk1 False 0 of
              None \<Rightarrow> None
            | Some (mat, chunk2) \<Rightarrow> matchChunk chunk2 s1 (failed \<or> mat = negated))
      else if c = CHR ''?'' then
        (if failed then matchChunk chunk s failed
         else matchChunk chunk (drop (snd (decodeRune s)) s) (hd s = CHR ''/''))
      else if c = CHR 0x5C then
        (case chunk of
           [] \<Rightarrow> None
         | d # chunk1 \<Rightarrow>
             if failed then matchChunk chunk1 s failed
             else matchChunk chunk1 (tl s) (d \<noteq> hd s))
      else if failed then matchChunk chunk s failed
      else matchChunk chunk (tl s) (c \<noteq> hd s))"
  by pat_completeness auto
termination
  by (relation "measure (\<lambda>(c, s, f). length c)")
    (auto dest!: class_ranges_shorter split: if_splits)

declare matchChunk.simps(2) [simp del]

text \<open>\<open>scanChunk\<close> after the leading stars: the chunk up to the next star outside brackets, and the rest.\<close>

fun scan_body :: "bool \<Rightarrow> string \<Rightarrow> string \<times> string" where
  "scan_body inrange [] = ([], [])"
| "scan_body inrange (c # p) =
     (if c = CHR 0x5C then
        (case p of
           [] \<Rightarrow> ([c], [])
         | d # p' \<Rightarrow> (case scan_body inrange p' of (chunk, rest) \<Rightarrow> (c # d # chunk, rest)))
      else if c = CHR ''*'' \<and> \<not> inrange then ([], c # p)
      else (case scan_body (if c = CHR ''['' then True else if c = CHR '']'' then False else inrange) p of
              (chunk, rest) \<Rightarrow> (c # chunk, rest)))"

definition scanChunk :: "string \<Rightarrow> bool \<times> string \<times> string" where
  "scanChunk pattern =
     (let p = dropWhile (\<lambda>c. c = CHR ''*'') pattern
      in (pattern \<noteq> [] \<and> hd pattern = CHR ''*'', fst (scan_body False p), snd (scan_body False p)))"

lemma scan_body_append: "fst (scan_body b p) @ snd (scan_body b p) = p"
proof (induction b p rule: scan_body.induct)
  case (2 inrange c p)
  show ?case
  proof (cases "c = CHR 0x5C")
    case True
    with 2(1) show ?thesis by (cases p) (simp_all add: case_prod_beta)
  next
    case False
    with 2(2) show ?thesis by (auto simp: case_prod_beta simp del: if_split)
  qed
qed simp

lemma scanChunk_shorter:
  assumes "pattern \<noteq> []" and "scanChunk pattern = (star, chunk, rest)"
  shows "length rest < length pattern"
proof -
  let ?p = "dropWhile (\<lambda>c. c = CHR ''*'') pattern"
  have r: "rest = snd (scan_body False ?p)" and le: "length rest \<le> length ?p"
    using assms(2) scan_body_append [of False ?p] by (auto simp: scanChunk_def Let_def dest: arg_cong [where f = length])
  show ?thesis
  proof (cases "hd pattern = CHR ''*''")
    case True
    then have "length ?p < length pattern"
      using assms(1) by (cases pattern) (simp_all add: length_dropWhile_le le_imp_less_Suc)
    with le show ?thesis by simp
  next
    case False
    then obtain c p where p: "pattern = c # p" "c \<noteq> CHR ''*''" using assms(1) by (cases pattern) auto
    then have "0 < length (fst (scan_body False ?p))"
      by (cases p) (simp_all add: case_prod_beta)
    moreover have "length (fst (scan_body False ?p)) + length rest = length ?p"
      unfolding r length_append [symmetric] scan_body_append ..
    moreover have "length ?p = length pattern" using p by simp
    ultimately show ?thesis by linarith
  qed
qed

text \<open>Before \<open>false\<close> is returned, the rest of the pattern is checked for bad syntax.\<close>

function check_rest :: "string \<Rightarrow> bool option" where
  "check_rest pattern =
     (if pattern = [] then Some False
      else case scanChunk pattern of (star, chunk, rest) \<Rightarrow>
        (case matchChunk chunk [] False of None \<Rightarrow> None | Some _ \<Rightarrow> check_rest rest))"
  by pat_completeness auto
termination
  by (relation "measure length") (auto dest: scanChunk_shorter [OF _ sym])

declare check_rest.simps [simp del]

text \<open>The loop that lets the star skip \<open>i + 1\<close> bytes, never past a slash.\<close>

fun star_loop :: "string \<Rightarrow> bool \<Rightarrow> string \<Rightarrow> string option option" where
  "star_loop chunk final [] = Some None"
| "star_loop chunk final (c # name) =
     (if c = CHR ''/'' then Some None
      else case matchChunk chunk name False of
          None \<Rightarrow> None
        | Some None \<Rightarrow> star_loop chunk final name
        | Some (Some t) \<Rightarrow> if final \<and> t \<noteq> [] then star_loop chunk final name else Some (Some t))"

function Match :: "string \<Rightarrow> string \<Rightarrow> bool option" where
  "Match pattern name =
     (if pattern = [] then Some (name = [])
      else case scanChunk pattern of (star, chunk, rest) \<Rightarrow>
        if star \<and> chunk = [] then Some (CHR ''/'' \<notin> set name)
        else case matchChunk chunk name False of
          None \<Rightarrow> None
        | Some m \<Rightarrow>
            if m \<noteq> None \<and> (the m = [] \<or> rest \<noteq> []) then Match rest (the m)
            else if star then
              (case star_loop chunk (rest = []) name of
                 None \<Rightarrow> None
               | Some (Some t) \<Rightarrow> Match rest t
               | Some None \<Rightarrow> check_rest rest)
            else check_rest rest)"
  by pat_completeness auto
termination
  by (relation "measure (\<lambda>(p, n). length p)") (auto dest: scanChunk_shorter [OF _ sym])

declare Match.simps [simp del]

section \<open>The meaning of a glob\<close>

text \<open>
  Patterns without character classes: a star stands for any bytes but slashes, a question mark for
  one byte that is no slash, a backslash quotes the next byte, everything else stands for itself.
\<close>

fun glob :: "string \<Rightarrow> string \<Rightarrow> bool" where
  "glob [] n = (n = [])"
| "glob (c # p) n =
     (if c = CHR ''*'' then
        glob p n \<or> (case n of [] \<Rightarrow> False | x # n' \<Rightarrow> x \<noteq> CHR ''/'' \<and> glob (c # p) n')
      else if c = CHR ''?'' then
        (case n of [] \<Rightarrow> False | x # n' \<Rightarrow> x \<noteq> CHR ''/'' \<and> glob p n')
      else if c = CHR 0x5C then
        (case p of [] \<Rightarrow> False | d # p' \<Rightarrow> (case n of [] \<Rightarrow> False | x # n' \<Rightarrow> x = d \<and> glob p' n'))
      else (case n of [] \<Rightarrow> False | x # n' \<Rightarrow> x = c \<and> glob p n'))"

declare glob.simps(2) [simp del]

section \<open>Chunks\<close>

abbreviation plain :: "string \<Rightarrow> bool" where
  "plain p \<equiv> \<forall>c \<in> set p. c \<noteq> CHR ''[''"

abbreviation ascii :: "string \<Rightarrow> bool" where
  "ascii s \<equiv> \<forall>c \<in> set s. (of_char c :: nat) < 128"

text \<open>For plain chunks the loop of \<open>matchChunk\<close> looks at one byte of an ASCII name per step.\<close>

lemma matchChunk_failed:
  assumes "plain (c # p)"
  shows "matchChunk (c # p) s True =
     (if c = CHR 0x5C then (case p of [] \<Rightarrow> None | d # p' \<Rightarrow> matchChunk p' s True) else matchChunk p s True)"
  using assms by (subst matchChunk.simps(2)) (simp split: list.split)

lemma matchChunk_Nil_name:
  assumes "plain (c # p)"
  shows "matchChunk (c # p) [] f = matchChunk (c # p) [] True"
  using assms by (subst (1 2) matchChunk.simps(2)) simp

lemma matchChunk_step:
  assumes "plain (c # p)" and "(of_char x :: nat) < 128"
  shows "matchChunk (c # p) (x # s) False =
     (if c = CHR ''?'' then matchChunk p s (x = CHR ''/'')
      else if c = CHR 0x5C then (case p of [] \<Rightarrow> None | d # p' \<Rightarrow> matchChunk p' s (d \<noteq> x))
      else matchChunk p s (c \<noteq> x))"
  using assms by (subst matchChunk.simps(2)) (simp add: decodeRune_ascii split: list.split)

text \<open>The number of bytes a plain chunk consumes, and whether it ends in a bare backslash.\<close>

fun chunk_len :: "string \<Rightarrow> nat" where
  "chunk_len [] = 0"
| "chunk_len (c # p) =
     (if c = CHR 0x5C then (case p of [] \<Rightarrow> 0 | d # p' \<Rightarrow> Suc (chunk_len p')) else Suc (chunk_len p))"

fun chunk_bad :: "string \<Rightarrow> bool" where
  "chunk_bad [] = False"
| "chunk_bad (c # p) =
     (if c = CHR 0x5C then (case p of [] \<Rightarrow> True | d # p' \<Rightarrow> chunk_bad p') else chunk_bad p)"

lemma matchChunk_True: "plain p \<Longrightarrow> matchChunk p s True = (if chunk_bad p then None else Some None)"
proof (induction p rule: chunk_bad.induct)
  case (2 c p)
  then show ?case by (cases p) (auto simp: matchChunk_failed)
qed simp

lemma matchChunk_bad: "plain p \<Longrightarrow> ascii s \<Longrightarrow> matchChunk p s f = None \<longleftrightarrow> chunk_bad p"
proof (induction p arbitrary: s f rule: chunk_bad.induct)
  case (2 c p)
  show ?case
  proof (cases "f \<or> s = []")
    case True
    then show ?thesis
      using 2(3) matchChunk_Nil_name [of c p f] matchChunk_True [of "c # p"] by (cases f) auto
  next
    case False
    then obtain x s' where s: "s = x # s'" "f = False" by (cases s) auto
    show ?thesis
    proof (cases "c = CHR 0x5C")
      case True
      with 2 s show ?thesis by (cases p) (simp_all add: matchChunk_step)
    next
      case False
      with 2 s show ?thesis by (simp add: matchChunk_step)
    qed
  qed
qed simp

lemma matchChunk_flag:
  "plain p \<Longrightarrow> matchChunk p s b = Some (Some t) \<longleftrightarrow> \<not> b \<and> matchChunk p s False = Some (Some t)"
  by (cases b) (simp_all add: matchChunk_True)

lemma matchChunk_match_Cons:
  assumes "plain (c # p)" and "ascii s"
  shows "matchChunk (c # p) s False = Some (Some t) \<longleftrightarrow>
    (\<exists>x s'. s = x # s' \<and>
       (if c = CHR ''?'' then x \<noteq> CHR ''/'' \<and> matchChunk p s' False = Some (Some t)
        else if c = CHR 0x5C then (\<exists>p'. p = x # p' \<and> matchChunk p' s' False = Some (Some t))
        else c = x \<and> matchChunk p s' False = Some (Some t)))"
proof (cases s)
  case Nil
  then show ?thesis
    using assms(1) matchChunk_Nil_name [of c p False] matchChunk_True [of "c # p"] by simp
next
  case (Cons x s')
  then have "(of_char x :: nat) < 128" using assms(2) by simp
  note st = matchChunk_step [OF assms(1) this, of s']
  from assms(1) have pl: "plain p" "plain (tl p)" by (cases p; auto)+
  show ?thesis
  proof (cases "c = CHR 0x5C")
    case True
    then show ?thesis unfolding Cons st
      using matchChunk_flag [OF pl(2), of s' "hd p \<noteq> x" t] by (cases p) auto
  next
    case False
    then show ?thesis unfolding Cons st
      using matchChunk_flag [OF pl(1), of s' "x = CHR ''/''" t] matchChunk_flag [OF pl(1), of s' "c \<noteq> x" t]
      by (simp split: if_split)
  qed
qed

lemma matchChunk_consumes:
  "plain p \<Longrightarrow> CHR ''/'' \<notin> set p \<Longrightarrow> ascii s \<Longrightarrow> matchChunk p s False = Some (Some t) \<Longrightarrow>
     \<exists>u. s = u @ t \<and> length u = chunk_len p \<and> CHR ''/'' \<notin> set u"
proof (induction p arbitrary: s rule: chunk_len.induct)
  case (2 c p)
  from 2(3,5,6) obtain x s' where s: "s = x # s'" and
    m: "if c = CHR ''?'' then x \<noteq> CHR ''/'' \<and> matchChunk p s' False = Some (Some t)
        else if c = CHR 0x5C then (\<exists>p'. p = x # p' \<and> matchChunk p' s' False = Some (Some t))
        else c = x \<and> matchChunk p s' False = Some (Some t)"
    by (auto simp: matchChunk_match_Cons)
  have x: "x \<noteq> CHR ''/''" using m 2(4) by (auto split: if_splits)
  have "\<exists>u. s' = u @ t \<and> Suc (length u) = chunk_len (c # p) \<and> CHR ''/'' \<notin> set u"
  proof (cases "c = CHR 0x5C")
    case True
    with m obtain p' where "p = x # p'" "matchChunk p' s' False = Some (Some t)" by auto
    with 2 s True show ?thesis by simp
  next
    case False
    with m have "matchChunk p s' False = Some (Some t)" by (simp split: if_splits)
    with 2 s False show ?thesis by simp
  qed
  then show ?case unfolding s using x by (metis append_Cons length_Cons set_ConsD)
qed simp

section \<open>Globs by chunks\<close>

lemma glob_simps:
  "glob (CHR ''*'' # p) n = (glob p n \<or> (case n of [] \<Rightarrow> False | x # n' \<Rightarrow> x \<noteq> CHR ''/'' \<and> glob (CHR ''*'' # p) n'))"
  "glob (CHR ''?'' # p) n = (case n of [] \<Rightarrow> False | x # n' \<Rightarrow> x \<noteq> CHR ''/'' \<and> glob p n')"
  "glob (CHR 0x5C # d # p) n = (case n of [] \<Rightarrow> False | x # n' \<Rightarrow> x = d \<and> glob p n')"
  "glob [CHR 0x5C] n = False"
  "c \<noteq> CHR ''*'' \<Longrightarrow> c \<noteq> CHR ''?'' \<Longrightarrow> c \<noteq> CHR 0x5C \<Longrightarrow>
     glob (c # p) n = (case n of [] \<Rightarrow> False | x # n' \<Rightarrow> x = c \<and> glob p n')"
  by (subst glob.simps(2); simp)+

lemma ex_split_Cons: "(\<exists>x m. a # n = x @ m \<and> Q x m) \<longleftrightarrow> Q [] (a # n) \<or> (\<exists>x m. n = x @ m \<and> Q (a # x) m)"
  by (metis append_Cons append_Nil append_eq_Cons_conv)

lemma glob_star: "glob (CHR ''*'' # p) n \<longleftrightarrow> (\<exists>x m. n = x @ m \<and> CHR ''/'' \<notin> set x \<and> glob p m)"
proof (induction n)
  case Nil
  then show ?case by (simp add: glob_simps)
next
  case (Cons a n)
  show ?case
    unfolding ex_split_Cons by (subst glob_simps(1)) (auto simp: Cons)
qed

lemma glob_star_absorb:
  assumes "glob (CHR ''*'' # p) m" and "CHR ''/'' \<notin> set y"
  shows "glob (CHR ''*'' # p) (y @ m)"
proof -
  from assms(1) obtain x k where "m = x @ k" "CHR ''/'' \<notin> set x" "glob p k" by (auto simp: glob_star)
  with assms(2) show ?thesis unfolding glob_star by (intro exI [of _ "y @ x"] exI [of _ k]) simp
qed

lemma glob_star_star: "glob (CHR ''*'' # CHR ''*'' # p) n \<longleftrightarrow> glob (CHR ''*'' # p) n"
proof
  assume "glob (CHR ''*'' # CHR ''*'' # p) n"
  then obtain x m where "n = x @ m" "CHR ''/'' \<notin> set x" "glob (CHR ''*'' # p) m"
    using glob_star [of "CHR ''*'' # p" n] by blast
  then show "glob (CHR ''*'' # p) n" using glob_star_absorb by blast
next
  assume "glob (CHR ''*'' # p) n"
  then show "glob (CHR ''*'' # CHR ''*'' # p) n" by (subst glob_simps(1)) simp
qed

lemma glob_dropWhile:
  assumes "p \<noteq> []" and "hd p = CHR ''*''"
  shows "glob p n \<longleftrightarrow> (\<exists>x m. n = x @ m \<and> CHR ''/'' \<notin> set x \<and> glob (dropWhile (\<lambda>c. c = CHR ''*'') p) m)"
  using assms
proof (induction p)
  case (Cons a p)
  then have a: "a = CHR ''*''" by simp
  show ?case
  proof (cases "p \<noteq> [] \<and> hd p = CHR ''*''")
    case False
    then have "dropWhile (\<lambda>c. c = CHR ''*'') p = p" by (cases p) auto
    with a show ?thesis by (simp add: glob_star)
  next
    case True
    then obtain q where "p = CHR ''*'' # q" by (cases p) auto
    with a Cons.IH show ?thesis by (simp add: glob_star_star)
  qed
qed simp

lemma glob_scan:
  "plain p \<Longrightarrow> \<not> b \<Longrightarrow> ascii s \<Longrightarrow> glob p s \<longleftrightarrow>
     (\<exists>t. matchChunk (fst (scan_body b p)) s False = Some (Some t) \<and> glob (snd (scan_body b p)) t)"
proof (induction b p arbitrary: s rule: scan_body.induct)
  case (2 b c p)
  have pl: "plain (fst (scan_body b (c # p)))"
    using scan_body_append [of b "c # p"] 2(3) by (metis UnCI set_append)
  consider (esc) "c = CHR 0x5C" | (star) "c = CHR ''*''" | (other) "c \<noteq> CHR 0x5C" "c \<noteq> CHR ''*''" by blast
  then show ?case
  proof cases
    case esc
    show ?thesis
    proof (cases p)
      case Nil
      with esc 2(3,5) show ?thesis by (simp add: glob_simps matchChunk_match_Cons)
    next
      case (Cons d q)
      have IH: "glob q s' \<longleftrightarrow> (\<exists>t. matchChunk (fst (scan_body b q)) s' False = Some (Some t) \<and> glob (snd (scan_body b q)) t)"
        if "ascii s'" for s' using 2(1) [OF esc Cons, of s'] 2(3,4) Cons that by simp
      show ?thesis
        using pl esc Cons 2(5) by (cases s) (auto simp: glob_simps matchChunk_match_Cons case_prod_beta IH)
    qed
  next
    case star
    with 2(4) show ?thesis by simp
  next
    case other
    have b: "b = False" using 2(4) by simp
    have sb: "scan_body False (c # p) = (c # fst (scan_body False p), snd (scan_body False p))"
      using other 2(3) by (simp add: case_prod_beta)
    have IH: "glob p s' \<longleftrightarrow> (\<exists>t. matchChunk (fst (scan_body False p)) s' False = Some (Some t) \<and> glob (snd (scan_body False p)) t)"
      if "ascii s'" for s'
    proof -
      have e: "(if c = CHR ''['' then True else if c = CHR '']'' then False else b) = False"
        using b 2(3) by simp
      show ?thesis by (rule 2(2) [of s', unfolded e]) (use other 2(3) that in simp_all)
    qed
    have pc: "plain (c # fst (scan_body False p))" using pl unfolding b sb fst_conv .
    show ?thesis
      unfolding b sb fst_conv snd_conv matchChunk_match_Cons [OF pc 2(5)]
      using other 2(5) by (cases s; cases "c = CHR ''?''") (auto simp: glob_simps IH)
  qed
qed simp

section \<open>The greedy matcher finds every match\<close>

text \<open>
  A usable position for a chunk: it matches there and, if it is the last chunk, uses up the name.
\<close>

abbreviation chunk_fits :: "string \<Rightarrow> bool \<Rightarrow> string \<Rightarrow> string \<Rightarrow> bool" where
  "chunk_fits chunk final m t \<equiv> matchChunk chunk m False = Some (Some t) \<and> (final \<longrightarrow> t = [])"

lemma star_loop_found:
  "star_loop chunk final n = Some (Some t) \<Longrightarrow>
     \<exists>x m. n = x @ m \<and> CHR ''/'' \<notin> set x \<and> chunk_fits chunk final m t \<and>
       (\<forall>x' m' t'. n = x' @ m' \<longrightarrow> x' \<noteq> [] \<longrightarrow> chunk_fits chunk final m' t' \<longrightarrow> length x \<le> length x')"
proof (induction n)
  case (Cons c n)
  show ?case
  proof (cases "\<exists>t'. chunk_fits chunk final n t'")
    case True
    then have "chunk_fits chunk final n t" "c \<noteq> CHR ''/''"
      using Cons.prems by (auto split: if_splits)
    then show ?thesis
      by (intro exI [of _ "[c]"] exI [of _ n]) (auto simp: Suc_le_eq)
  next
    case False
    then have "star_loop chunk final n = Some (Some t)" "c \<noteq> CHR ''/''"
      using Cons.prems by (auto split: if_splits option.splits)
    from Cons.IH [OF this(1)] obtain x m where 1: "n = x @ m" "CHR ''/'' \<notin> set x" "chunk_fits chunk final m t"
      and least: "\<And>x' m' t'. n = x' @ m' \<Longrightarrow> x' \<noteq> [] \<Longrightarrow> chunk_fits chunk final m' t' \<Longrightarrow> length x \<le> length x'"
      by blast
    have "length (c # x) \<le> length x'" if "c # n = x' @ m'" "x' \<noteq> []" "chunk_fits chunk final m' t'" for x' m' t'
    proof -
      from that(1,2) obtain y where y: "x' = c # y" "n = y @ m'" by (cases x') auto
      with False that(3) have "y \<noteq> []" by auto
      with least y that(3) have "length x \<le> length y" by blast
      with y show ?thesis by simp
    qed
    with 1 \<open>c \<noteq> CHR ''/''\<close> show ?thesis
      by (intro exI [of _ "c # x"] exI [of _ m]) auto
  qed
qed simp

lemma star_loop_none:
  "star_loop chunk final n = Some None \<Longrightarrow> n = x @ m \<Longrightarrow> x \<noteq> [] \<Longrightarrow> CHR ''/'' \<notin> set x \<Longrightarrow> \<not> chunk_fits chunk final m t"
proof (induction n arbitrary: x)
  case (Cons c n)
  then obtain y where y: "x = c # y" "n = y @ m" by (cases x) auto
  with Cons.prems have c: "c \<noteq> CHR ''/''" by auto
  have n: "star_loop chunk final n = Some None \<and> \<not> chunk_fits chunk final n t"
    using Cons.prems(1) c by (auto split: option.splits if_splits)
  show ?case
  proof (cases "y = []")
    case True
    with n y show ?thesis by simp
  next
    case False
    with Cons.IH [of y] n y Cons.prems(4) show ?thesis by auto
  qed
qed simp

lemma star_loop_bad: "plain chunk \<Longrightarrow> ascii n \<Longrightarrow> star_loop chunk final n = None \<Longrightarrow> chunk_bad chunk"
  by (induction n) (auto simp: matchChunk_bad split: option.splits if_splits)

lemma check_rest_not_True: "check_rest p \<noteq> Some True"
  by (induction p rule: check_rest.induct) (subst check_rest.simps, auto split: prod.splits option.splits)

text \<open>
  One round of the loop of \<open>Match\<close>: under a star, the least usable position of the chunk is taken.
\<close>

lemma star_round:
  assumes "plain chunk" and "CHR ''/'' \<notin> set chunk" and "ascii n"
    and "rest = [] \<or> hd rest = CHR ''*''"
    and fit: "n = x @ m" "CHR ''/'' \<notin> set x" "matchChunk chunk m False = Some (Some t)" "glob rest t"
  shows "(\<exists>t0. chunk_fits chunk (rest = []) n t0 \<and> glob rest t0) \<or>
     (\<not> (\<exists>t0. chunk_fits chunk (rest = []) n t0) \<and> (\<exists>t0. star_loop chunk (rest = []) n = Some (Some t0) \<and> glob rest t0))"
proof -
  have tfit: "chunk_fits chunk (rest = []) m t" using fit by auto
  have better: "glob rest t0"
    if f0: "n = x0 @ m0" "length x0 \<le> length x" "chunk_fits chunk (rest = []) m0 t0" for x0 m0 t0
  proof (cases "rest = []")
    case True
    with f0(3) show ?thesis by simp
  next
    case False
    then obtain q where q: "rest = CHR ''*'' # q" using assms(4) by (cases rest) auto
    have "ascii m" "ascii m0" using assms(3) fit(1) f0(1) by (metis Un_iff set_append)+
    then obtain u u0 where u: "m = u @ t" "length u = chunk_len chunk" "CHR ''/'' \<notin> set u"
      and u0: "m0 = u0 @ t0" "length u0 = chunk_len chunk"
      using matchChunk_consumes [OF assms(1,2)] fit(3) f0(3) by metis
    define y where "y = drop (length (x0 @ u0)) (x @ u)"
    have eq: "(x0 @ u0) @ t0 = (x @ u) @ t" using fit(1) f0(1) u u0 by simp
    have len: "length (x0 @ u0) \<le> length (x @ u)" using f0(2) u(2) u0(2) by simp
    have "t0 = drop (length (x0 @ u0)) ((x0 @ u0) @ t0)" by simp
    also have "\<dots> = y @ t" unfolding eq y_def using len by (simp only: drop_append diff_is_0_eq' drop_0)
    finally have "t0 = y @ t" .
    moreover have "CHR ''/'' \<notin> set y" using fit(2) u(3) by (auto simp: y_def dest: in_set_dropD)
    ultimately show ?thesis using fit(4) glob_star_absorb q by blast
  qed
  show ?thesis
  proof (cases "\<exists>t0. chunk_fits chunk (rest = []) n t0")
    case True
    then show ?thesis using better [of "[]" n] by auto
  next
    case False
    with tfit fit(1) have "x \<noteq> []" by auto
    have "star_loop chunk (rest = []) n \<noteq> None"
      using star_loop_bad [OF assms(1,3)] matchChunk_bad [OF assms(1), of m False] fit(1,3) assms(3) by auto
    moreover have "star_loop chunk (rest = []) n \<noteq> Some None"
      using star_loop_none fit(1,2) \<open>x \<noteq> []\<close> tfit by blast
    ultimately obtain t0 where t0: "star_loop chunk (rest = []) n = Some (Some t0)" by fastforce
    then have "glob rest t0"
      using star_loop_found [OF t0] better fit(1) \<open>x \<noteq> []\<close> tfit by blast
    with t0 False show ?thesis by blast
  qed
qed

lemma scan_rest_star: "snd (scan_body b p) = [] \<or> hd (snd (scan_body b p)) = CHR ''*''"
proof (induction b p rule: scan_body.induct)
  case (2 b c p)
  then show ?case by (cases "c = CHR 0x5C"; cases p) (simp_all add: case_prod_beta)
qed simp

lemma scanChunk_props:
  assumes "scanChunk p = (star, chunk, rest)" and "p \<noteq> []"
  shows "dropWhile (\<lambda>c. c = CHR ''*'') p = chunk @ rest" "chunk = fst (scan_body False (chunk @ rest))"
    "rest = snd (scan_body False (chunk @ rest))" "rest = [] \<or> hd rest = CHR ''*''"
    "star \<longleftrightarrow> hd p = CHR ''*''" "\<not> star \<Longrightarrow> p = chunk @ rest" "set (chunk @ rest) \<subseteq> set p"
    "chunk = [] \<Longrightarrow> rest = []"
proof -
  let ?q = "dropWhile (\<lambda>c. c = CHR ''*'') p"
  have cr: "chunk = fst (scan_body False ?q)" "rest = snd (scan_body False ?q)" and st: "star \<longleftrightarrow> hd p = CHR ''*''"
    using assms by (auto simp: scanChunk_def Let_def)
  then show q: "?q = chunk @ rest" by (simp only: scan_body_append)
  show "chunk = fst (scan_body False (chunk @ rest))" "rest = snd (scan_body False (chunk @ rest))"
    unfolding q [symmetric] by (fact cr)+
  show r: "rest = [] \<or> hd rest = CHR ''*''" unfolding cr(2) by (rule scan_rest_star)
  show "star \<longleftrightarrow> hd p = CHR ''*''" by (fact st)
  show "p = chunk @ rest" if "\<not> star"
    using that st assms(2) q by (cases p) auto
  show "set (chunk @ rest) \<subseteq> set p" unfolding q [symmetric] by (meson set_dropWhileD subsetI)
  show "rest = []" if "chunk = []"
  proof (rule ccontr)
    assume "rest \<noteq> []"
    with r that q have "?q \<noteq> []" "hd ?q = CHR ''*''" by auto
    then show False using hd_dropWhile by blast
  qed
qed

text \<open>
  On a pattern without character classes and slashes and an ASCII name, the greedy loop answers
  exactly what the glob means.
\<close>

lemma Match_glob:
  "plain p \<Longrightarrow> CHR ''/'' \<notin> set p \<Longrightarrow> ascii n \<Longrightarrow> Match p n = Some True \<longleftrightarrow> glob p n"
proof (induction p arbitrary: n rule: length_induct)
  case (1 p)
  show ?case
  proof (cases "p = []")
    case True
    then show ?thesis by (simp add: Match.simps)
  next
    case p: False
    obtain star chunk rest where sc: "scanChunk p = (star, chunk, rest)" by (cases "scanChunk p") auto
    note props = scanChunk_props [OF sc p] and M = Match.simps [of p n]
    have pl: "plain chunk" "CHR ''/'' \<notin> set chunk" "plain (chunk @ rest)" "plain rest" "CHR ''/'' \<notin> set rest"
      using 1(2,3) props(7) by auto
    have scan: "glob (chunk @ rest) m \<longleftrightarrow> (\<exists>t. matchChunk chunk m False = Some (Some t) \<and> glob rest t)" if "ascii m" for m
      using glob_scan [OF pl(3), of False m] that unfolding props(2,3) [symmetric] by simp
    have IH: "Match rest t = Some True \<longleftrightarrow> glob rest t" if "ascii t" for t
      using 1(1) scanChunk_shorter [OF p sc] pl(4,5) that by blast
    have suffix: "ascii t" if "matchChunk chunk m False = Some (Some t)" "ascii m" for m t
      using matchChunk_consumes [OF pl(1,2) that(2,1)] that(2) by auto
    show ?thesis
    proof (cases "star \<and> chunk = []")
      case True
      with props(8) have "chunk @ rest = []" by simp
      with glob_dropWhile [OF p, of n] props(5) True have "glob p n \<longleftrightarrow> CHR ''/'' \<notin> set n"
        unfolding props(1) by simp
      with True p sc show ?thesis by (simp add: M)
    next
      case nb: False
      show ?thesis
      proof (cases star)
        case False
        with props(6) scan 1(4) have g: "glob p n \<longleftrightarrow> (\<exists>t. matchChunk chunk n False = Some (Some t) \<and> glob rest t)"
          by simp
        show ?thesis unfolding g M
          using p sc nb False IH suffix 1(4) check_rest_not_True
          by (auto split: option.splits)
      next
        case True
        have g: "glob p n \<longleftrightarrow> (\<exists>x m t. n = x @ m \<and> CHR ''/'' \<notin> set x \<and> matchChunk chunk m False = Some (Some t) \<and> glob rest t)"
        proof -
          have "glob p n \<longleftrightarrow> (\<exists>x m. n = x @ m \<and> CHR ''/'' \<notin> set x \<and> glob (chunk @ rest) m)"
            using glob_dropWhile [OF p, of n] True props(1,5) by simp
          moreover have "ascii m" if "n = x @ m" for x m using 1(4) that by auto
          ultimately show ?thesis using scan by metis
        qed
        show ?thesis
        proof
          assume "glob p n"
          with g star_round [OF pl(1,2) 1(4) props(4)]
          have "(\<exists>t0. chunk_fits chunk (rest = []) n t0 \<and> glob rest t0) \<or>
             (\<not> (\<exists>t0. chunk_fits chunk (rest = []) n t0) \<and> (\<exists>t0. star_loop chunk (rest = []) n = Some (Some t0) \<and> glob rest t0))"
            by blast
          then show "Match p n = Some True"
          proof (elim disjE exE conjE)
            fix t0 assume t0: "matchChunk chunk n False = Some (Some t0)" "rest = [] \<longrightarrow> t0 = []" "glob rest t0"
            then have "Match rest t0 = Some True" using IH suffix 1(4) by blast
            with t0 nb p sc show ?thesis by (auto simp: M)
          next
            fix t0 assume no: "\<nexists>t0. chunk_fits chunk (rest = []) n t0"
              and t0: "star_loop chunk (rest = []) n = Some (Some t0)" "glob rest t0"
            obtain x m where "n = x @ m" "matchChunk chunk m False = Some (Some t0)"
              using star_loop_found [OF t0(1)] by blast
            moreover from this have "ascii m" using 1(4) by auto
            ultimately have r: "Match rest t0 = Some True" and "\<not> chunk_bad chunk"
              using IH suffix t0(2) matchChunk_bad [OF pl(1), of m False] by auto
            then obtain r where "matchChunk chunk n False = Some r"
              using matchChunk_bad [OF pl(1) 1(4), of False] by auto
            with no t0 r nb p sc True show ?thesis by (cases r) (auto simp: M)
          qed
        next
          assume "Match p n = Some True"
          then consider t where "matchChunk chunk n False = Some (Some t)" "Match rest t = Some True"
            | t where "star_loop chunk (rest = []) n = Some (Some t)" "Match rest t = Some True"
            using p sc nb True check_rest_not_True
            by (auto simp: M split: option.splits if_splits)
          then obtain x m t where "n = x @ m" "CHR ''/'' \<notin> set x" "matchChunk chunk m False = Some (Some t)" "Match rest t = Some True"
            using star_loop_found by (metis append_Nil empty_iff list.set(1))
          moreover from this have "glob rest t" using IH suffix 1(4) by auto
          ultimately show "glob p n" unfolding g by blast
        qed
      qed
    qed
  qed
qed

end
