(* ===== verification/Policies.thy ===== *)
theory Policies
  imports Store_Access Path_Match
begin

text \<open>
  Authorization: \<open>src/backend/internal/rbac/rbac.go\<close> and \<open>src/backend/internal/policies/policies.go\<close>.
  The interface \<open>policy_engine\<close> states what the callers rely on; \<open>Evaluate\<close> provides it.
\<close>

section \<open>The code\<close>

definition rbac_Allowed :: "User \<Rightarrow> string \<Rightarrow> bool" where
  "rbac_Allowed user permission = list_ex (\<lambda>p. p = permission) (user_Permissions user)"

record Resource =
  res_Name :: string
  res_Labels :: "string \<rightharpoonup> string"
  res_System :: bool
  res_Protected :: bool

record Decision =
  Allowed :: bool
  Reason :: string

text \<open>A key that a Go map does not have reads as the empty string.\<close>

definition label_value :: "(string \<rightharpoonup> string) \<Rightarrow> string \<Rightarrow> string" where
  "label_value m k = (case m k of None \<Rightarrow> [] | Some v \<Rightarrow> v)"

definition rule_matches :: "PolicyRule \<Rightarrow> Resource \<Rightarrow> bool" where
  "rule_matches rule r =
     (if rule_MatchType rule = ''label'' then label_value (res_Labels r) (rule_MatchKey rule) = rule_MatchValue rule
      else if rule_MatchType rule = ''name'' then
        (if contains (rule_MatchValue rule) ''/'' then False
         else Match (rule_MatchValue rule) (res_Name r) = Some True)
      else False)"

definition rule_applies :: "User \<Rightarrow> string \<Rightarrow> Resource \<Rightarrow> PolicyRule \<Rightarrow> bool" where
  "rule_applies user action r rule \<longleftrightarrow>
     \<not> (rule_Action rule \<noteq> action \<or> rule_SubjectRoleID rule \<noteq> []
          \<and> rule_SubjectRoleID rule \<notin> set (user_Roles user) \<union> set (user_RoleIDs user))
     \<and> rule_matches rule r"

text \<open>The inner and the outer loop: a decision (the early return) or \<open>explicitAllow\<close> so far.\<close>

fun eval_rules :: "User \<Rightarrow> string \<Rightarrow> Resource \<Rightarrow> string \<Rightarrow> PolicyRule list \<Rightarrow> bool \<Rightarrow> Decision + bool" where
  "eval_rules user action r name [] explicitAllow = Inr explicitAllow"
| "eval_rules user action r name (rule # rest) explicitAllow =
     (if \<not> rule_applies user action r rule then eval_rules user action r name rest explicitAllow
      else if rule_Effect rule = ''deny'' then Inl \<lparr>Allowed = False, Reason = ''explicit policy deny: '' @ name\<rparr>
      else eval_rules user action r name rest (if rule_Effect rule = ''allow'' then True else explicitAllow))"

fun eval_policies :: "User \<Rightarrow> string \<Rightarrow> Resource \<Rightarrow> Policy list \<Rightarrow> bool \<Rightarrow> Decision + bool" where
  "eval_policies user action r [] explicitAllow = Inr explicitAllow"
| "eval_policies user action r (p # ps) explicitAllow =
     (if \<not> policy_Enabled p then eval_policies user action r ps explicitAllow
      else case eval_rules user action r (policy_Name p) (policy_Rules p) explicitAllow of
          Inl dec \<Rightarrow> Inl dec
        | Inr allow \<Rightarrow> eval_policies user action r ps allow)"

definition Evaluate :: "User \<Rightarrow> string \<Rightarrow> Resource \<Rightarrow> Policy list \<Rightarrow> Decision" where
  "Evaluate user action r all =
     (if res_System r \<and> (action = ''container.exec'' \<or> action = ''container.restart'')
      then \<lparr>Allowed = False, Reason = ''system containers are immutable''\<rparr>
      else if res_Protected r \<and> (action = ''container.exec'' \<or> action = ''container.restart'')
      then \<lparr>Allowed = False, Reason = ''protected containers cannot be accessed with exec or restarted''\<rparr>
      else case eval_policies user action r all False of
          Inl dec \<Rightarrow> dec
        | Inr explicitAllow \<Rightarrow>
            if \<not> rbac_Allowed user action then \<lparr>Allowed = False, Reason = ''missing permission''\<rparr>
            else if explicitAllow then \<lparr>Allowed = True, Reason = ''explicit policy allow''\<rparr>
            else \<lparr>Allowed = True, Reason = ''role permission''\<rparr>)"

section \<open>The interface of the engine\<close>

definition privileged_action :: "string \<Rightarrow> bool" where
  "privileged_action action \<longleftrightarrow> action = ''container.exec'' \<or> action = ''container.restart''"

definition immutable :: "string \<Rightarrow> Resource \<Rightarrow> bool" where
  "immutable action r \<longleftrightarrow> (res_System r \<or> res_Protected r) \<and> privileged_action action"

definition denied :: "User \<Rightarrow> string \<Rightarrow> Resource \<Rightarrow> Policy list \<Rightarrow> bool" where
  "denied user action r all \<longleftrightarrow> (\<exists>p\<in>set all. policy_Enabled p
     \<and> (\<exists>rule\<in>set (policy_Rules p). rule_applies user action r rule \<and> rule_Effect rule = ''deny''))"

locale policy_engine =
  fixes evaluate :: "User \<Rightarrow> string \<Rightarrow> Resource \<Rightarrow> Policy list \<Rightarrow> Decision"
  assumes immutable_refused: "immutable action r \<Longrightarrow> \<not> Allowed (evaluate user action r all)"
    and deny_refused: "denied user action r all \<Longrightarrow> \<not> Allowed (evaluate user action r all)"
    and permission_needed: "Allowed (evaluate user action r all) \<Longrightarrow> rbac_Allowed user action"
    and otherwise_allowed: "\<not> immutable action r \<Longrightarrow> \<not> denied user action r all \<Longrightarrow> rbac_Allowed user action \<Longrightarrow>
      Allowed (evaluate user action r all)"
begin

lemma allowed_iff:
  "Allowed (evaluate user action r all) \<longleftrightarrow>
    rbac_Allowed user action \<and> \<not> immutable action r \<and> \<not> denied user action r all"
  using immutable_refused deny_refused permission_needed otherwise_allowed by blast

lemma order_irrelevant:
  "set all = set all' \<Longrightarrow> Allowed (evaluate user action r all) \<longleftrightarrow> Allowed (evaluate user action r all')"
  by (simp add: allowed_iff denied_def)

lemma policies_restrict:
  "set all \<subseteq> set all' \<Longrightarrow> Allowed (evaluate user action r all') \<Longrightarrow> Allowed (evaluate user action r all)"
  by (auto simp: allowed_iff denied_def)

lemma no_policy: "Allowed (evaluate user action r []) \<longleftrightarrow> rbac_Allowed user action \<and> \<not> immutable action r"
  by (simp add: allowed_iff denied_def)

end

section \<open>The code provides the interface\<close>

lemma eval_rules_deny:
  "(\<exists>dec. eval_rules user action r name rules b = Inl dec) \<longleftrightarrow>
    (\<exists>rule\<in>set rules. rule_applies user action r rule \<and> rule_Effect rule = ''deny'')"
  by (induction user action r name rules b rule: eval_rules.induct) auto

lemma eval_rules_Inl: "eval_rules user action r name rules b = Inl dec \<Longrightarrow> \<not> Allowed dec"
  by (induction user action r name rules b rule: eval_rules.induct) (auto split: if_splits)

lemma eval_policies_deny: "(\<exists>dec. eval_policies user action r all b = Inl dec) \<longleftrightarrow> denied user action r all"
proof (induction user action r all b rule: eval_policies.induct)
  case (2 user action r p ps b)
  then show ?case
    using eval_rules_deny [of user action r "policy_Name p" "policy_Rules p" b]
    by (auto simp: denied_def split: sum.split)
qed (simp add: denied_def)

lemma eval_policies_Inl: "eval_policies user action r all b = Inl dec \<Longrightarrow> \<not> Allowed dec"
  by (induction user action r all b rule: eval_policies.induct)
    (auto split: if_splits sum.splits dest: eval_rules_Inl)

interpretation engine: policy_engine Evaluate
proof
  fix user action r all
  show "immutable action r \<Longrightarrow> \<not> Allowed (Evaluate user action r all)"
    by (auto simp: Evaluate_def immutable_def privileged_action_def)
  show "denied user action r all \<Longrightarrow> \<not> Allowed (Evaluate user action r all)"
    using eval_policies_deny [of user action r all False]
    by (auto simp: Evaluate_def dest: eval_policies_Inl)
  show "Allowed (Evaluate user action r all) \<Longrightarrow> rbac_Allowed user action"
    by (auto simp: Evaluate_def dest: eval_policies_Inl split: if_splits sum.splits)
  show "\<not> immutable action r \<Longrightarrow> \<not> denied user action r all \<Longrightarrow> rbac_Allowed user action \<Longrightarrow>
      Allowed (Evaluate user action r all)"
    using eval_policies_deny [of user action r all False]
    by (auto simp: Evaluate_def immutable_def privileged_action_def split: sum.split)
qed

text \<open>
  C5: a user may act on a container exactly if one of the user's roles has the permission, the action is
  not a terminal or a restart on a system or protected container, and no rule of an enabled policy
  that applies to the user, the action and the container denies it.
\<close>

theorem evaluate_spec:
  "Allowed (Evaluate user action r all) \<longleftrightarrow>
     action \<in> set (user_Permissions user)
     \<and> \<not> ((res_System r \<or> res_Protected r) \<and> (action = ''container.exec'' \<or> action = ''container.restart''))
     \<and> (\<forall>p\<in>set all. policy_Enabled p \<longrightarrow>
          (\<forall>rule\<in>set (policy_Rules p). rule_applies user action r rule \<longrightarrow> rule_Effect rule \<noteq> ''deny''))"
  unfolding engine.allowed_iff by (auto simp: denied_def immutable_def privileged_action_def rbac_Allowed_def list_ex_iff)

text \<open>A user who may look at containers, a policy that hides those labelled \<open>tier=db\<close>, and two containers.\<close>

definition viewer :: User where
  "viewer = \<lparr>user_ID = ''u2'', user_Username = ''eve'', user_Enabled = True, user_CreatedAt = [], user_LastLoginAt = None,
     user_LastActivityAt = None, user_Roles = [''Viewer''], user_RoleIDs = [''role-viewer''], user_Permissions = [''container.view'']\<rparr>"

definition hide_rule :: "string \<Rightarrow> string \<Rightarrow> PolicyRule" where
  "hide_rule type value = \<lparr>rule_ID = ''r1'', rule_PolicyID = ''p1'', rule_Effect = ''deny'', rule_Action = ''container.view'',
     rule_SubjectRoleID = ''Viewer'', rule_MatchType = type, rule_MatchKey = ''tier'', rule_MatchValue = value, rule_Priority = 0\<rparr>"

definition hide_db :: Policy where
  "hide_db = \<lparr>policy_ID = ''p1'', policy_Name = ''hide'', policy_Description = [], policy_Enabled = True,
     policy_Rules = [hide_rule ''label'' ''db'']\<rparr>"

definition web :: Resource where
  "web = \<lparr>res_Name = ''web'', res_Labels = [''tier'' \<mapsto> ''front''], res_System = False, res_Protected = False\<rparr>"

lemma rule_applies_hide: "rule_applies viewer ''container.view'' r (hide_rule ''label'' v) \<longleftrightarrow> label_value (res_Labels r) ''tier'' = v"
  by (simp add: rule_applies_def rule_matches_def viewer_def hide_rule_def)

theorem evaluate_spec_witness:
  "Allowed (Evaluate viewer ''container.view'' web [hide_db])
    \<and> \<not> Allowed (Evaluate viewer ''container.view'' (web\<lparr>res_Labels := [''tier'' \<mapsto> ''db'']\<rparr>) [hide_db])"
  unfolding evaluate_spec
  by (simp add: hide_db_def rule_applies_hide) (simp add: web_def label_value_def viewer_def hide_rule_def)

text \<open>
  A policy can only take away: what is allowed under a set of policies is allowed under every
  subset of them, whatever their order, so an allow rule never grants what the roles do not.
\<close>

lemma policies_only_restrict:
  assumes "set all \<subseteq> set all'" and "Allowed (Evaluate user action r all')"
  shows "Allowed (Evaluate user action r all) \<and> Allowed (Evaluate user action r [])"
  using engine.policies_restrict [OF assms] engine.policies_restrict [of "[]" all'] assms(2) by simp

section \<open>Rules by name\<close>

text \<open>
  C25: a name rule as it can be saved (no \<open>[\<close>) matches a container with an ASCII name exactly if its
  pattern has no slash and the wildcard reference semantics matches: \<open>*\<close> is any text without a
  slash, \<open>?\<close> one character other than a slash and a backslash makes the next character literal.  A pattern
  with a slash can be saved, contrary to the documentation, and then matches nothing, not even the name
  that is equal to it, contrary to the comment on \<open>Evaluate\<close>.
\<close>

theorem name_rule_is_glob:
  assumes "rule_MatchType rule = ''name''" and "CHR ''['' \<notin> set (rule_MatchValue rule)" and "ascii (res_Name r)"
  shows "rule_matches rule r \<longleftrightarrow> CHR ''/'' \<notin> set (rule_MatchValue rule) \<and> glob (rule_MatchValue rule) (res_Name r)"
proof -
  have "plain (rule_MatchValue rule)" using assms(2) by auto
  with assms(1,3) Match_glob [of "rule_MatchValue rule" "res_Name r"] show ?thesis
    by (simp add: rule_matches_def contains_singleton)
qed

theorem name_rule_is_glob_witness:
  "rule_matches (hide_rule ''name'' ''w*'') web \<longleftrightarrow> glob ''w*'' ''web''"
  using name_rule_is_glob [of "hide_rule ''name'' ''w*''" web] by (simp add: hide_rule_def web_def)

end
