(* ===== verification/Rate_Limit.thy ===== *)
theory Rate_Limit
  imports Prelude "HOL-Library.AList"
begin

text \<open>
  The request limiter and the login throttle (\<open>src/backend/internal/api/ratelimit.go\<close>).

  A \<open>time.Time\<close> is the number of nanoseconds since Go's zero time, so \<open>0\<close> is the zero value and
  \<open>IsZero\<close>, \<open>After\<close> and \<open>Add\<close> are \<open>= 0\<close>, \<open>>\<close> and \<open>+\<close>.  A Go map is an association list with
  distinct keys.  Every method holds the mutex from its first to its last statement, so a method is
  one atomic step and a concurrent run is a sequence of such steps.
\<close>

section \<open>The code\<close>

record bucket =
  bk_count :: nat
  bk_reset :: nat

record limiter =
  lm_data :: "(string \<times> bucket) list"
  lm_max :: int
  lm_window :: nat

record loginAttempt =
  la_failures :: nat
  la_blockedUntil :: nat
  la_lastSeen :: nat

record loginThrottle =
  lt_data :: "(string \<times> loginAttempt) list"
  lt_max :: int
  lt_cooldown :: nat

definition newLimiter :: "int \<Rightarrow> nat \<Rightarrow> limiter" where
  "newLimiter mx window = \<lparr>lm_data = [], lm_max = mx, lm_window = window\<rparr>"

definition newLoginThrottle :: "int \<Rightarrow> nat \<Rightarrow> loginThrottle" where
  "newLoginThrottle mx cooldown = \<lparr>lt_data = [], lt_max = mx, lt_cooldown = cooldown\<rparr>"

text \<open>\<open>t.Sub(u)\<close> saturates at the bounds of \<open>time.Duration\<close>.\<close>

definition time_sub :: "nat \<Rightarrow> nat \<Rightarrow> int" where
  "time_sub t u = max minInt (min maxInt (int t - int u))"

definition maxEntries :: nat where "maxEntries = 10000"

definition tenMinutes :: int where "tenMinutes = 600000000000"

definition throttle_blocked :: "loginThrottle \<Rightarrow> nat \<Rightarrow> string \<Rightarrow> int \<times> loginThrottle" where
  "throttle_blocked l now key = (case map_of (lt_data l) key of
       None \<Rightarrow> (0, l)
     | Some attempt \<Rightarrow>
         if la_blockedUntil attempt > now then (time_sub (la_blockedUntil attempt) now, l)
         else if la_blockedUntil attempt \<noteq> 0 then (0, l\<lparr>lt_data := AList.delete key (lt_data l)\<rparr>)
         else (0, l))"

definition prune :: "nat \<Rightarrow> (string \<times> loginAttempt) list \<Rightarrow> (string \<times> loginAttempt) list" where
  "prune now data = (if length data \<le> maxEntries then data
     else filter (\<lambda>(k, attempt). \<not> (\<not> la_blockedUntil attempt > now \<and> time_sub now (la_lastSeen attempt) > tenMinutes)) data)"

definition noAttempt :: loginAttempt where
  "noAttempt = \<lparr>la_failures = 0, la_blockedUntil = 0, la_lastSeen = 0\<rparr>"

definition throttle_failed :: "loginThrottle \<Rightarrow> nat \<Rightarrow> string \<Rightarrow> int \<times> loginThrottle" where
  "throttle_failed l now key =
     (let attempt = (case map_of (lt_data l) key of None \<Rightarrow> noAttempt | Some a \<Rightarrow> a)
      in if la_blockedUntil attempt > now then (time_sub (la_blockedUntil attempt) now, l)
         else
           let attempt = (if la_blockedUntil attempt \<noteq> 0 then noAttempt else attempt);
               attempt = attempt\<lparr>la_failures := la_failures attempt + 1, la_lastSeen := now\<rparr>;
               attempt = (if int (la_failures attempt) \<ge> lt_max l
                          then attempt\<lparr>la_failures := 0, la_blockedUntil := now + lt_cooldown l\<rparr> else attempt);
               l' = l\<lparr>lt_data := prune now (AList.update key attempt (lt_data l))\<rparr>
           in (if la_blockedUntil attempt > now then time_sub (la_blockedUntil attempt) now else 0, l'))"

definition throttle_clear :: "loginThrottle \<Rightarrow> string \<Rightarrow> loginThrottle" where
  "throttle_clear l key = l\<lparr>lt_data := AList.delete key (lt_data l)\<rparr>"

definition limiter_allow :: "limiter \<Rightarrow> nat \<Rightarrow> string \<Rightarrow> bool \<times> limiter" where
  "limiter_allow l n key =
     (let b = (case map_of (lm_data l) key of None \<Rightarrow> \<lparr>bk_count = 0, bk_reset = 0\<rparr> | Some b \<Rightarrow> b);
          b = (if n > bk_reset b then \<lparr>bk_count = 0, bk_reset = n + lm_window l\<rparr> else b);
          b = b\<lparr>bk_count := bk_count b + 1\<rparr>;
          data = AList.update key b (lm_data l);
          data = (if length data > maxEntries then filter (\<lambda>(k, v). \<not> n > bk_reset v) data else data)
      in (int (bk_count b) \<le> lm_max l, l\<lparr>lm_data := data\<rparr>))"

section \<open>The maps stay maps\<close>

definition wf_limiter :: "limiter \<Rightarrow> bool" where
  "wf_limiter l \<longleftrightarrow> distinct (map fst (lm_data l))"

definition wf_throttle :: "loginThrottle \<Rightarrow> bool" where
  "wf_throttle l \<longleftrightarrow> distinct (map fst (lt_data l))"

lemma distinct_fst_filter: "distinct (map fst xs) \<Longrightarrow> distinct (map fst (filter p xs))"
  by (induction xs) auto

lemma map_of_filter_fst:
  "distinct (map fst xs) \<Longrightarrow> map_of (filter p xs) k = (case map_of xs k of None \<Rightarrow> None | Some v \<Rightarrow> if p (k, v) then Some v else None)"
proof (induction xs)
  case (Cons x xs)
  have "map_of xs k = None" if "fst x = k"
    using Cons.prems that by (simp add: map_of_eq_None_iff)
  with Cons show ?case by (cases x) (auto split: option.splits)
qed simp

lemma wf_throttle_ops:
  assumes "wf_throttle l"
  shows "wf_throttle (snd (throttle_blocked l now key))" "wf_throttle (snd (throttle_failed l now key))"
    "wf_throttle (throttle_clear l key)"
  using assms
  by (auto simp: wf_throttle_def throttle_blocked_def throttle_failed_def throttle_clear_def Let_def prune_def
      distinct_fst_filter distinct_update distinct_delete split: option.split)

lemma wf_limiter_allow: "wf_limiter l \<Longrightarrow> wf_limiter (snd (limiter_allow l n key))"
  by (simp add: wf_limiter_def limiter_allow_def Let_def distinct_fst_filter distinct_update)

section \<open>The limiter\<close>

text \<open>A run of calls, with the answers given to one key.\<close>

fun limiter_run :: "limiter \<Rightarrow> (nat \<times> string) list \<Rightarrow> limiter" where
  "limiter_run l [] = l"
| "limiter_run l ((n, k) # calls) = limiter_run (snd (limiter_allow l n k)) calls"

fun allowed_calls :: "string \<Rightarrow> limiter \<Rightarrow> (nat \<times> string) list \<Rightarrow> nat" where
  "allowed_calls key l [] = 0"
| "allowed_calls key l ((n, k) # calls) =
     (if k = key \<and> fst (limiter_allow l n k) then 1 else 0) + allowed_calls key (snd (limiter_allow l n k)) calls"

lemma lm_fields [simp]: "lm_max (snd (limiter_allow l n k)) = lm_max l" "lm_window (snd (limiter_allow l n k)) = lm_window l"
  by (simp_all add: limiter_allow_def Let_def)

text \<open>The bucket a call of the key counts in.\<close>

definition bucket_at :: "limiter \<Rightarrow> nat \<Rightarrow> string \<Rightarrow> bucket" where
  "bucket_at l n key = (case map_of (lm_data l) key of
       Some b \<Rightarrow> if n > bk_reset b then \<lparr>bk_count = 0, bk_reset = n + lm_window l\<rparr> else b
     | None \<Rightarrow> \<lparr>bk_count = 0, bk_reset = n + lm_window l\<rparr>)"

lemma bucket_at_reset: "n \<le> bk_reset (bucket_at l n key)"
  by (auto simp: bucket_at_def split: option.split)

lemma limiter_allow_fst: "0 < n \<Longrightarrow> fst (limiter_allow l n key) \<longleftrightarrow> int (bk_count (bucket_at l n key)) < lm_max l"
  by (auto simp: limiter_allow_def bucket_at_def Let_def split: option.split)

lemma limiter_allow_own:
  assumes "0 < n" and "wf_limiter l"
  shows "map_of (lm_data (snd (limiter_allow l n key))) key =
    Some ((bucket_at l n key)\<lparr>bk_count := bk_count (bucket_at l n key) + 1\<rparr>)"
  using assms bucket_at_reset [of n l key]
  by (auto simp: limiter_allow_def bucket_at_def Let_def wf_limiter_def map_of_filter_fst distinct_update update_conv'
      split: option.split)

lemma limiter_allow_other:
  assumes "wf_limiter l" and "k \<noteq> key" and "map_of (lm_data l) key = Some b" and "n \<le> bk_reset b"
  shows "map_of (lm_data (snd (limiter_allow l n k))) key = Some b"
  using assms by (auto simp: limiter_allow_def Let_def wf_limiter_def map_of_filter_fst distinct_update update_conv')

lemma limiter_allow_pruned:
  assumes "wf_limiter l" and "k \<noteq> key"
  shows "map_of (lm_data (snd (limiter_allow l n k))) key \<in> {None, map_of (lm_data l) key}"
  using assms by (simp add: limiter_allow_def Let_def wf_limiter_def map_of_filter_fst distinct_update update_conv'
      split: option.split)

text \<open>Within the life of a bucket at most the calls that are left of the maximum pass.\<close>

lemma allowed_in_bucket:
  assumes "wf_limiter l" and "map_of (lm_data l) key = Some b" and "\<forall>c\<in>set calls. 0 < fst c \<and> fst c \<le> bk_reset b"
  shows "int (allowed_calls key l calls) \<le> max 0 (lm_max l - int (bk_count b))"
  using assms
proof (induction calls arbitrary: l b)
  case (Cons c calls)
  obtain n k where c: "c = (n, k)" by (cases c)
  let ?l = "snd (limiter_allow l n k)"
  have wf: "wf_limiter ?l" using Cons.prems(1) by (rule wf_limiter_allow)
  show ?case
  proof (cases "k = key")
    case True
    have b: "bucket_at l n key = b" using Cons.prems c by (simp add: bucket_at_def)
    with True Cons.prems c have "map_of (lm_data ?l) key = Some (b\<lparr>bk_count := bk_count b + 1\<rparr>)"
      by (simp add: limiter_allow_own)
    from Cons.IH [OF wf this] Cons.prems c True b show ?thesis by (auto simp: limiter_allow_fst)
  next
    case False
    with Cons.prems c have "map_of (lm_data ?l) key = Some b" by (simp add: limiter_allow_other)
    from Cons.IH [OF wf this] Cons.prems c False show ?thesis by simp
  qed
qed simp

lemma bucket_at_fresh:
  assumes "case map_of (lm_data l) key of None \<Rightarrow> True | Some b \<Rightarrow> n > bk_reset b"
  shows "bucket_at l n key = \<lparr>bk_count = 0, bk_reset = n + lm_window l\<rparr>"
  using assms by (auto simp: bucket_at_def split: option.splits)

text \<open>A window that opens with the next call of the key.\<close>

lemma allowed_fresh:
  assumes "wf_limiter l" and "\<forall>c\<in>set calls. 0 < fst c \<and> t \<le> fst c \<and> fst c \<le> t + lm_window l"
    and "case map_of (lm_data l) key of None \<Rightarrow> True | Some b \<Rightarrow> t > bk_reset b" and "0 \<le> lm_max l"
  shows "int (allowed_calls key l calls) \<le> lm_max l"
  using assms
proof (induction calls arbitrary: l)
  case (Cons c calls)
  obtain n k where c: "c = (n, k)" by (cases c)
  let ?l = "snd (limiter_allow l n k)"
  have wf: "wf_limiter ?l" using Cons.prems(1) by (rule wf_limiter_allow)
  show ?case
  proof (cases "k = key")
    case True
    have b: "bucket_at l n key = \<lparr>bk_count = 0, bk_reset = n + lm_window l\<rparr>"
      using Cons.prems c by (intro bucket_at_fresh) (auto split: option.splits)
    with True Cons.prems c have "map_of (lm_data ?l) key = Some \<lparr>bk_count = 1, bk_reset = n + lm_window l\<rparr>"
      by (simp add: limiter_allow_own)
    from allowed_in_bucket [OF wf this, of calls] Cons.prems c True b show ?thesis
      by (fastforce simp: limiter_allow_fst)
  next
    case False
    have "case map_of (lm_data ?l) key of None \<Rightarrow> True | Some b \<Rightarrow> t > bk_reset b"
      using limiter_allow_pruned [OF Cons.prems(1) False, of n] Cons.prems(3) by auto
    with Cons.IH [OF wf] Cons.prems c False show ?thesis by simp
  qed
qed simp

text \<open>Any stretch of time as long as a window meets at most two buckets.\<close>

lemma allowed_two_buckets:
  assumes "wf_limiter l" and "map_of (lm_data l) key = Some b" and "sorted (map fst calls)"
    and "\<forall>c\<in>set calls. 0 < fst c \<and> t \<le> fst c \<and> fst c \<le> t + lm_window l" and "0 \<le> lm_max l"
  shows "int (allowed_calls key l calls) \<le> max 0 (lm_max l - int (bk_count b)) + lm_max l"
  using assms
proof (induction calls arbitrary: l b)
  case (Cons c calls)
  obtain n k where c: "c = (n, k)" by (cases c)
  let ?l = "snd (limiter_allow l n k)"
  have wf: "wf_limiter ?l" using Cons.prems(1) by (rule wf_limiter_allow)
  show ?case
  proof (cases "n > bk_reset b")
    case True
    have "\<forall>c'\<in>set (c # calls). 0 < fst c' \<and> n \<le> fst c' \<and> fst c' \<le> n + lm_window l"
      using Cons.prems(3,4) c by fastforce
    with allowed_fresh [OF Cons.prems(1), of "c # calls" n key] True Cons.prems(2,5) show ?thesis by simp
  next
    case live: False
    show ?thesis
    proof (cases "k = key")
      case True
      have b: "bucket_at l n key = b" using Cons.prems(2) live by (simp add: bucket_at_def)
      with True Cons.prems c have "map_of (lm_data ?l) key = Some (b\<lparr>bk_count := bk_count b + 1\<rparr>)"
        by (simp add: limiter_allow_own)
      from Cons.IH [OF wf this] Cons.prems c True b show ?thesis by (auto simp: limiter_allow_fst)
    next
      case False
      with Cons.prems live have "map_of (lm_data ?l) key = Some b" by (simp add: limiter_allow_other)
      from Cons.IH [OF wf this] Cons.prems c False show ?thesis by simp
    qed
  qed
qed simp

text \<open>
  C24: whatever the state and whoever else calls, one key gets at most twice the maximum of calls through
  in any stretch of time as long as the window, and at most the maximum if it has no bucket at the
  start.
\<close>

theorem limiter_bound:
  assumes "wf_limiter l" and "sorted (map fst calls)" and "0 \<le> lm_max l"
    and "\<forall>c\<in>set calls. 0 < fst c \<and> t \<le> fst c \<and> fst c \<le> t + lm_window l"
  shows "int (allowed_calls key l calls) \<le> 2 * lm_max l
    \<and> (map_of (lm_data l) key = None \<longrightarrow> int (allowed_calls key l calls) \<le> lm_max l)"
proof (cases "map_of (lm_data l) key")
  case None
  with allowed_fresh [OF assms(1,4), of key] assms(3) show ?thesis by simp
next
  case (Some b)
  with allowed_two_buckets [OF assms(1) Some assms(2,4,3)] assms(3) show ?thesis by simp
qed

theorem limiter_bound_witness:
  "int (allowed_calls ''a'' (newLimiter 1 60) [(5, ''a''), (6, ''b''), (7, ''a'')]) \<le> 1"
  using limiter_bound [of "newLimiter 1 60" "[(5, ''a''), (6, ''b''), (7, ''a'')]" 5 "''a''"]
  by (simp add: wf_limiter_def newLimiter_def)

section \<open>The throttle\<close>

datatype throttle_op = Blocked string | Failed string | Clear string

fun throttle_step :: "loginThrottle \<Rightarrow> nat \<times> throttle_op \<Rightarrow> loginThrottle" where
  "throttle_step l (now, Blocked k) = snd (throttle_blocked l now k)"
| "throttle_step l (now, Failed k) = snd (throttle_failed l now k)"
| "throttle_step l (now, Clear k) = throttle_clear l k"

definition throttle_run :: "loginThrottle \<Rightarrow> (nat \<times> throttle_op) list \<Rightarrow> loginThrottle" where
  "throttle_run l ops = foldl throttle_step l ops"

lemma throttle_run_simps [simp]:
  "throttle_run l [] = l" "throttle_run l (x # ops) = throttle_run (throttle_step l x) ops"
  by (simp_all add: throttle_run_def)

lemma wf_throttle_step: "wf_throttle l \<Longrightarrow> wf_throttle (throttle_step l x)"
  by (cases "(l, x)" rule: throttle_step.cases) (simp_all add: wf_throttle_ops)

lemma wf_throttle_run: "wf_throttle l \<Longrightarrow> wf_throttle (throttle_run l ops)"
  by (induction ops arbitrary: l) (simp_all add: wf_throttle_step)

lemma lt_fields_step [simp]:
  "lt_max (throttle_step l x) = lt_max l" "lt_cooldown (throttle_step l x) = lt_cooldown l"
  by (cases "(l, x)" rule: throttle_step.cases;
      simp add: throttle_blocked_def throttle_failed_def throttle_clear_def Let_def split: option.split)+

lemmas lt_fields_failed [simp] = lt_fields_step [of l "(now, Failed k)" for l now k, unfolded throttle_step.simps]

lemma lt_fields_run [simp]:
  "lt_max (throttle_run l ops) = lt_max l" "lt_cooldown (throttle_run l ops) = lt_cooldown l"
  by (induction ops arbitrary: l) simp_all

text \<open>Pruning keeps an entry that blocks or was seen within the last ten minutes.\<close>

lemma map_of_prune:
  assumes "distinct (map fst data)" and "map_of data key = Some a"
    and "la_blockedUntil a > now \<or> int now - int (la_lastSeen a) \<le> tenMinutes"
  shows "map_of (prune now data) key = Some a"
  using assms by (auto simp: prune_def map_of_filter_fst time_sub_def tenMinutes_def minInt_def maxInt_def)

text \<open>An operation that neither counts a failure of the key nor clears it leaves such an entry alone.\<close>

lemma throttle_step_other:
  assumes "wf_throttle l" and "map_of (lt_data l) key = Some a" and "op \<noteq> Failed key" and "op \<noteq> Clear key"
    and "la_blockedUntil a > now \<or> la_blockedUntil a = 0 \<and> int now - int (la_lastSeen a) \<le> tenMinutes"
  shows "map_of (lt_data (throttle_step l (now, op))) key = Some a"
proof (cases op)
  case (Blocked k)
  with assms show ?thesis by (auto simp: throttle_blocked_def delete_conv' split: option.split)
next
  case (Failed k)
  have "map_of (prune now (AList.update k v (lt_data l))) key = Some a" for v
    using assms Failed by (intro map_of_prune) (auto simp: wf_throttle_def distinct_update update_conv')
  with assms(2) Failed show ?thesis by (auto simp: throttle_failed_def Let_def)
next
  case (Clear k)
  with assms show ?thesis by (simp add: throttle_clear_def delete_conv')
qed

text \<open>A failure of a blocked key changes nothing.\<close>

lemma throttle_failed_blocked:
  "map_of (lt_data l) key = Some a \<Longrightarrow> la_blockedUntil a > now \<Longrightarrow> throttle_failed l now key = (time_sub (la_blockedUntil a) now, l)"
  by (simp add: throttle_failed_def)

text \<open>A block lasts to its end unless it is cleared.\<close>

lemma block_lasts:
  assumes "wf_throttle l" and "map_of (lt_data l) key = Some a"
    and "\<forall>x\<in>set ops. fst x < la_blockedUntil a \<and> snd x \<noteq> Clear key"
  shows "map_of (lt_data (throttle_run l ops)) key = Some a"
  using assms
proof (induction ops arbitrary: l)
  case (Cons x ops)
  obtain now op where x: "x = (now, op)" by (cases x)
  have "map_of (lt_data (throttle_step l x)) key = Some a"
  proof (cases "op = Failed key")
    case True
    with Cons.prems x show ?thesis by (simp add: throttle_failed_blocked)
  next
    case False
    with Cons.prems x show ?thesis by (simp add: throttle_step_other)
  qed
  with Cons show ?case by (simp add: wf_throttle_step)
qed simp

definition failures_of :: "string \<Rightarrow> (nat \<times> throttle_op) list \<Rightarrow> nat" where
  "failures_of key ops = length (filter (\<lambda>x. snd x = Failed key) ops)"

text \<open>The failures counted for a key that is not blocked.\<close>

definition counted :: "loginThrottle \<Rightarrow> string \<Rightarrow> nat \<Rightarrow> nat \<Rightarrow> bool" where
  "counted l key n t \<longleftrightarrow> (case map_of (lt_data l) key of None \<Rightarrow> n = 0
     | Some a \<Rightarrow> la_failures a = n \<and> la_blockedUntil a = 0 \<and> t \<le> la_lastSeen a)"

lemma throttle_failed_counted:
  assumes "counted l key n t"
  shows "throttle_failed l now key =
    (let a = \<lparr>la_failures = n + 1, la_blockedUntil = 0, la_lastSeen = now\<rparr>;
         a = (if int (n + 1) \<ge> lt_max l then a\<lparr>la_failures := 0, la_blockedUntil := now + lt_cooldown l\<rparr> else a)
     in (if la_blockedUntil a > now then time_sub (la_blockedUntil a) now else 0,
         l\<lparr>lt_data := prune now (AList.update key a (lt_data l))\<rparr>))"
proof (cases "map_of (lt_data l) key")
  case None
  with assms show ?thesis by (simp add: counted_def throttle_failed_def noAttempt_def)
next
  case (Some a)
  with assms show ?thesis by (cases a) (simp add: counted_def throttle_failed_def)
qed

lemma throttle_failed_entry:
  assumes "wf_throttle l" and "la_lastSeen a = now"
  shows "map_of (prune now (AList.update key a (lt_data l))) key = Some a"
  using assms by (intro map_of_prune) (auto simp: wf_throttle_def distinct_update update_conv' tenMinutes_def)

lemma failed_counts:
  assumes "wf_throttle l" and "counted l key n t" and "int n + 1 < lt_max l" and "t \<le> now"
  shows "counted (snd (throttle_failed l now key)) key (n + 1) t"
  using assms by (simp add: throttle_failed_counted [OF assms(2)] counted_def throttle_failed_entry)

lemma failed_blocks:
  assumes "wf_throttle l" and "counted l key n t" and "int n + 1 = lt_max l" and "0 < lt_cooldown l"
  shows "fst (throttle_failed l now key) = time_sub (now + lt_cooldown l) now
    \<and> (\<exists>a. map_of (lt_data (snd (throttle_failed l now key))) key = Some a \<and> la_blockedUntil a = now + lt_cooldown l)"
  using assms by (simp add: throttle_failed_counted [OF assms(2)] throttle_failed_entry)

text \<open>Other traffic within ten minutes does not disturb the count.\<close>

lemma run_counts:
  assumes "wf_throttle l" and "counted l key n t" and "int n + int (failures_of key ops) < lt_max l"
    and "\<forall>x\<in>set ops. t \<le> fst x \<and> int (fst x) \<le> int t + tenMinutes \<and> snd x \<noteq> Clear key"
  shows "counted (throttle_run l ops) key (n + failures_of key ops) t"
  using assms
proof (induction ops arbitrary: l n)
  case (Cons x ops)
  obtain now op where x: "x = (now, op)" by (cases x)
  show ?case
  proof (cases "op = Failed key")
    case True
    with Cons.prems x failed_counts [of l key n t now] have "counted (throttle_step l x) key (n + 1) t"
      by (simp add: failures_of_def)
    with Cons.IH [OF wf_throttle_step [OF Cons.prems(1)] this] Cons.prems x True show ?thesis
      by (simp add: failures_of_def)
  next
    case False
    have "counted (throttle_step l x) key n t"
    proof (cases "map_of (lt_data l) key")
      case None
      with Cons.prems x False show ?thesis
        by (cases op) (auto simp: counted_def throttle_blocked_def throttle_failed_def throttle_clear_def Let_def
            prune_def map_of_filter_fst distinct_update wf_throttle_def delete_conv' update_conv' split: option.splits)
    next
      case (Some a)
      with Cons.prems(2) have "la_blockedUntil a = 0" "t \<le> la_lastSeen a" by (simp_all add: counted_def)
      with Cons.prems x False Some throttle_step_other [OF Cons.prems(1) Some, of op now] show ?thesis
        by (simp add: counted_def)
    qed
    with Cons.IH [OF wf_throttle_step [OF Cons.prems(1)] this] Cons.prems x False show ?thesis
      by (simp add: failures_of_def)
  qed
qed (simp add: failures_of_def)

text \<open>
  C23: if a key with no record (never seen, forgotten or cleared by a successful login) fails as often as the
  maximum within ten minutes and is not cleared meanwhile, whatever other keys do, the last failure reports
  the cooldown, and from then on every login of the key before the cooldown has passed is answered with a
  positive delay, whatever happens in between short of clearing the key.  Clearing the key ends both the
  count and the block, after any history.
\<close>

theorem throttle_locks:
  assumes "wf_throttle l" and "map_of (lt_data l) key = None" and "0 < lt_cooldown l"
    and "int (failures_of key before) + 1 = lt_max l"
    and "\<forall>x\<in>set before. t \<le> fst x \<and> int (fst x) \<le> int t + tenMinutes \<and> snd x \<noteq> Clear key"
    and "\<forall>x\<in>set after. fst x < now + lt_cooldown l \<and> snd x \<noteq> Clear key"
    and "later < now + lt_cooldown l"
  shows "fst (throttle_failed (throttle_run l before) now key) = time_sub (now + lt_cooldown l) now
    \<and> fst (throttle_blocked (throttle_run l (before @ (now, Failed key) # after)) later key) > 0
    \<and> (\<forall>history t. map_of (lt_data (throttle_run l (history @ [(t, Clear key)]))) key = None
        \<and> fst (throttle_blocked (throttle_run l (history @ [(t, Clear key)])) later key) = 0)"
proof -
  let ?l = "throttle_run l before"
  let ?m = "snd (throttle_failed ?l now key)"
  have wf: "wf_throttle ?l" "wf_throttle ?m" using assms(1) by (simp_all add: wf_throttle_run wf_throttle_ops)
  have "counted ?l key (failures_of key before) t"
    using run_counts [OF assms(1), of key 0 t before] assms(2,4,5) by (simp add: counted_def)
  with failed_blocks [OF wf(1) this] assms(3,4)
  obtain a where f: "fst (throttle_failed ?l now key) = time_sub (now + lt_cooldown l) now"
    and a: "map_of (lt_data ?m) key = Some a" "la_blockedUntil a = now + lt_cooldown l" by auto
  have run: "throttle_run l (before @ (now, Failed key) # after) = throttle_run ?m after"
    by (simp add: throttle_run_def)
  have "map_of (lt_data (throttle_run ?m after)) key = Some a"
    using block_lasts [OF wf(2) a(1)] assms(6) a(2) by simp
  then have "fst (throttle_blocked (throttle_run ?m after) later key) = time_sub (now + lt_cooldown l) later"
    using assms(7) a(2) by (simp add: throttle_blocked_def)
  moreover have cleared: "map_of (lt_data (throttle_run l (history @ [(t, Clear key)]))) key = None" for history t
    by (simp add: throttle_run_def throttle_clear_def delete_conv')
  then have "fst (throttle_blocked (throttle_run l (history @ [(t, Clear key)])) later key) = 0" for history t
    by (simp add: throttle_blocked_def)
  ultimately show ?thesis using f run cleared assms(7) by (simp add: time_sub_def maxInt_def minInt_def)
qed

theorem throttle_locks_witness:
  "fst (throttle_blocked (throttle_run (newLoginThrottle 2 60000000000)
     ([(1000, Failed ''a''), (2000, Clear ''b'')] @ (3000, Failed ''a'') # [(4000, Failed ''a'')])) 5000 ''a'') > 0"
  using throttle_locks [of "newLoginThrottle 2 60000000000" "''a''" "[(1000, Failed ''a''), (2000, Clear ''b'')]" 1000
      "[(4000, Failed ''a'')]" 3000 5000]
  by (simp add: newLoginThrottle_def wf_throttle_def failures_of_def tenMinutes_def)

end
