(* ===== verification/Docker_Risk.thy ===== *)
theory Docker_Risk
  imports Prelude
begin

text \<open>
  Package \<open>internal/docker\<close> (\<open>src/backend/internal/docker/risk.go\<close>): the runtime configuration
  risk assessment.  Field names carry the prefix of their Go struct where records would clash.
\<close>

record Mount =
  m_Type :: string
  m_Source :: string
  m_Destination :: string
  m_Mode :: string

record RiskInput =
  in_Privileged :: bool
  in_PidMode :: string
  in_NetworkMode :: string
  in_IpcMode :: string
  in_Mounts :: "Mount list"
  in_Devices :: "string list"
  in_System :: bool

record RiskAssessment =
  Level :: string
  Findings :: "string list"
  Score :: int

definition add_finding :: "int \<Rightarrow> string \<Rightarrow> RiskAssessment \<Rightarrow> RiskAssessment" where
  "add_finding score msg r = r\<lparr>Score := Score r + score, Findings := Findings r @ [msg]\<rparr>"

text \<open>The recurring form \<open>if cond { add(score, msg) }\<close>.\<close>

definition add_when :: "bool \<Rightarrow> int \<Rightarrow> string \<Rightarrow> RiskAssessment \<Rightarrow> RiskAssessment" where
  "add_when cond score msg r = (if cond then add_finding score msg r else r)"

definition sensitive_source :: "string \<Rightarrow> bool" where
  "sensitive_source s \<longleftrightarrow> s = ''/'' \<or> hasPrefix s ''/etc'' \<or> hasPrefix s ''/proc''
     \<or> hasPrefix s ''/sys'' \<or> hasPrefix s ''/var/run''"

definition assess_mount :: "Mount \<Rightarrow> RiskAssessment \<Rightarrow> RiskAssessment" where
  "assess_mount m r =
     (let s = toLower (m_Source m); d = toLower (m_Destination m) in
      if contains s ''docker.sock'' \<or> contains d ''docker.sock''
      then add_finding 100 ''Docker socket mounted'' r
      else if m_Type m = ''bind'' \<and> sensitive_source s
      then add_finding 70 (''Sensitive host filesystem mounted: '' @ m_Source m) r
      else r)"

definition risk_level :: "int \<Rightarrow> string" where
  "risk_level score = (if score \<ge> 100 then ''Critical'' else if score \<ge> 60 then ''High''
     else if score \<ge> 25 then ''Medium'' else ''Low'')"

definition AssessRisk :: "RiskInput \<Rightarrow> RiskAssessment" where
  "AssessRisk inp =
     (let r0 = \<lparr>Level = ''Low'', Findings = [], Score = 0\<rparr>;
          r1 = add_when (in_Privileged inp) 100 ''Privileged container'' r0;
          r2 = add_when (in_System inp) 80 ''DockerView system container'' r1;
          r3 = add_when (in_PidMode inp = ''host'') 60 ''Host PID namespace'' r2;
          r4 = add_when (in_NetworkMode inp = ''host'') 35 ''Host network namespace'' r3;
          r5 = add_when (in_IpcMode inp = ''host'') 35 ''Host IPC namespace'' r4;
          r6 = fold assess_mount (in_Mounts inp) r5;
          r7 = add_when (length (in_Devices inp) > 0) 60 ''Host devices exposed'' r6;
          r8 = r7\<lparr>Level := risk_level (Score r7)\<rparr>
      in if length (Findings r8) = 0
         then r8\<lparr>Findings := [''No elevated runtime configuration detected'']\<rparr> else r8)"

section \<open>The score as a sum of weights\<close>

definition exposes_socket :: "Mount \<Rightarrow> bool" where
  "exposes_socket m \<longleftrightarrow> contains (toLower (m_Source m)) ''docker.sock''
     \<or> contains (toLower (m_Destination m)) ''docker.sock''"

definition mount_weight :: "Mount \<Rightarrow> int" where
  "mount_weight m = (if exposes_socket m then 100
     else if m_Type m = ''bind'' \<and> sensitive_source (toLower (m_Source m)) then 70 else 0)"

definition risk_weight :: "RiskInput \<Rightarrow> int" where
  "risk_weight inp =
     (if in_Privileged inp then 100 else 0) + (if in_System inp then 80 else 0)
     + (if in_PidMode inp = ''host'' then 60 else 0) + (if in_NetworkMode inp = ''host'' then 35 else 0)
     + (if in_IpcMode inp = ''host'' then 35 else 0) + sum_list (map mount_weight (in_Mounts inp))
     + (if in_Devices inp \<noteq> [] then 60 else 0)"

lemma add_finding_simps [simp]:
  "Score (add_finding n m r) = Score r + n"
  "Findings (add_finding n m r) = Findings r @ [m]"
  by (simp_all add: add_finding_def)

lemma add_when_simps [simp]:
  "Score (add_when b n m r) = Score r + (if b then n else 0)"
  "Findings (add_when b n m r) = Findings r @ (if b then [m] else [])"
  by (simp_all add: add_when_def)

lemma mount_weight_cases: "mount_weight m = 0 \<or> mount_weight m \<ge> 70"
  by (simp add: mount_weight_def)

lemma mount_weights_nonneg: "0 \<le> sum_list (map mount_weight ms)"
  by (induction ms) (auto simp: mount_weight_def)

lemma Score_assess_mount: "Score (assess_mount m r) = Score r + mount_weight m"
  by (simp add: assess_mount_def mount_weight_def exposes_socket_def Let_def)

lemma Findings_assess_mount: "Findings (assess_mount m r) = [] \<longleftrightarrow> Findings r = [] \<and> mount_weight m = 0"
  by (simp add: assess_mount_def mount_weight_def exposes_socket_def Let_def)

lemma Score_mounts: "Score (fold assess_mount ms r) = Score r + sum_list (map mount_weight ms)"
  by (induction ms arbitrary: r) (simp_all add: Score_assess_mount)

lemma mount_weights_zero: "sum_list (map mount_weight ms) = 0 \<longleftrightarrow> (\<forall>m \<in> set ms. mount_weight m = 0)"
proof (induction ms)
  case (Cons m ms)
  then show ?case using mount_weights_nonneg [of ms] mount_weight_cases [of m] by auto
qed simp

lemma Findings_mounts:
  "Findings (fold assess_mount ms r) = [] \<longleftrightarrow> Findings r = [] \<and> sum_list (map mount_weight ms) = 0"
proof (induction ms arbitrary: r)
  case (Cons m ms)
  then show ?case using mount_weights_nonneg [of ms] mount_weight_cases [of m]
    by (auto simp: Findings_assess_mount)
qed simp

text \<open>The assessment before the level and the placeholder finding are filled in.\<close>

definition assess_base :: "RiskInput \<Rightarrow> RiskAssessment" where
  "assess_base inp =
     add_when (in_IpcMode inp = ''host'') 35 ''Host IPC namespace''
    (add_when (in_NetworkMode inp = ''host'') 35 ''Host network namespace''
    (add_when (in_PidMode inp = ''host'') 60 ''Host PID namespace''
    (add_when (in_System inp) 80 ''DockerView system container''
    (add_when (in_Privileged inp) 100 ''Privileged container'' \<lparr>Level = ''Low'', Findings = [], Score = 0\<rparr>))))"

definition assess_raw :: "RiskInput \<Rightarrow> RiskAssessment" where
  "assess_raw inp =
     add_when (in_Devices inp \<noteq> []) 60 ''Host devices exposed'' (fold assess_mount (in_Mounts inp) (assess_base inp))"

lemma AssessRisk_raw:
  "AssessRisk inp = (assess_raw inp)\<lparr>Level := risk_level (Score (assess_raw inp)),
     Findings := (if Findings (assess_raw inp) = [] then [''No elevated runtime configuration detected'']
                  else Findings (assess_raw inp))\<rparr>"
  by (cases "Findings (assess_raw inp) = []")
    (simp_all add: AssessRisk_def Let_def assess_raw_def assess_base_def del: add_when_simps)

lemma Score_raw: "Score (assess_raw inp) = risk_weight inp"
  unfolding assess_raw_def assess_base_def risk_weight_def add_when_simps Score_mounts by simp

lemma Score_AssessRisk: "Score (AssessRisk inp) = risk_weight inp"
  by (simp add: AssessRisk_raw Score_raw)

lemma Level_AssessRisk: "Level (AssessRisk inp) = risk_level (risk_weight inp)"
  by (simp add: AssessRisk_raw Score_raw)

lemma mount_weights_cases: "sum_list (map mount_weight ms) = 0 \<or> sum_list (map mount_weight ms) \<ge> 70"
proof (induction ms)
  case (Cons m ms)
  then show ?case using mount_weight_cases [of m] mount_weights_nonneg [of ms] by auto
qed simp

lemma coarse_add: "x = 0 \<or> 35 \<le> x \<Longrightarrow> y = 0 \<or> 35 \<le> y \<Longrightarrow> x + y = 0 \<or> 35 \<le> x + (y :: int)"
  by auto

lemma risk_weight_zero_or_35: "risk_weight inp = 0 \<or> 35 \<le> risk_weight inp"
  using mount_weights_cases [of "in_Mounts inp"] unfolding risk_weight_def
  by (intro coarse_add) auto

lemma Findings_mount_prefix: "\<exists>fs. Findings (assess_mount m r) = Findings r @ fs \<and>
    ''No elevated runtime configuration detected'' \<notin> set fs"
  by (simp add: assess_mount_def Let_def)

lemma Findings_mounts_prefix: "\<exists>fs. Findings (fold assess_mount ms r) = Findings r @ fs \<and>
    ''No elevated runtime configuration detected'' \<notin> set fs"
proof (induction ms arbitrary: r)
  case (Cons m ms)
  obtain fs where "Findings (fold assess_mount ms (assess_mount m r)) = Findings (assess_mount m r) @ fs"
    and "''No elevated runtime configuration detected'' \<notin> set fs"
    using Cons by blast
  with Findings_mount_prefix [of m r] show ?case by fastforce
qed simp

lemma Findings_raw_real: "''No elevated runtime configuration detected'' \<notin> set (Findings (assess_raw inp))"
proof -
  obtain fs where "Findings (fold assess_mount (in_Mounts inp) (assess_base inp)) = Findings (assess_base inp) @ fs"
    and "''No elevated runtime configuration detected'' \<notin> set fs"
    using Findings_mounts_prefix by blast
  moreover have "''No elevated runtime configuration detected'' \<notin> set (Findings (assess_base inp))"
    by (simp add: assess_base_def)
  ultimately show ?thesis by (simp add: assess_raw_def)
qed

lemma Findings_raw_empty: "Findings (assess_raw inp) = [] \<longleftrightarrow> risk_weight inp = 0"
proof -
  have "Findings (assess_base inp) = [] \<longleftrightarrow> Score (assess_base inp) = 0" and "Score (assess_base inp) \<ge> 0"
    by (simp_all add: assess_base_def)
  moreover have "risk_weight inp = Score (assess_base inp) + sum_list (map mount_weight (in_Mounts inp))
      + (if in_Devices inp \<noteq> [] then 60 else 0)"
    unfolding Score_raw [symmetric] assess_raw_def add_when_simps Score_mounts by simp
  ultimately show ?thesis
    using mount_weights_nonneg [of "in_Mounts inp"] by (auto simp: assess_raw_def Findings_mounts)
qed

lemma Findings_AssessRisk:
  "Findings (AssessRisk inp) = [''No elevated runtime configuration detected''] \<longleftrightarrow> risk_weight inp = 0"
  using Findings_raw_real [of inp] by (auto simp: AssessRisk_raw Findings_raw_empty [symmetric])

lemma AssessRisk_devices:
  "length ds = length (in_Devices inp) \<Longrightarrow> AssessRisk (inp\<lparr>in_Devices := ds\<rparr>) = AssessRisk inp"
  unfolding AssessRisk_def by simp

text \<open>
  C26: the assessment is the sum of fixed weights: its score is the weighted count of the risky settings, its
  level follows from the score alone, \<open>Low\<close> is given exactly to a container with none of them, and
  exactly then the only finding is that nothing was detected.
\<close>

theorem assess_risk_spec:
  "Score (AssessRisk inp) = risk_weight inp \<and> Level (AssessRisk inp) = risk_level (risk_weight inp)
   \<and> (Level (AssessRisk inp) = ''Low'' \<longleftrightarrow> risk_weight inp = 0)
   \<and> (Findings (AssessRisk inp) = [''No elevated runtime configuration detected''] \<longleftrightarrow> risk_weight inp = 0)
   \<and> Findings (AssessRisk inp) \<noteq> []"
proof -
  have "Findings (AssessRisk inp) \<noteq> []" by (simp add: AssessRisk_raw)
  moreover have "risk_level (risk_weight inp) = ''Low'' \<longleftrightarrow> risk_weight inp = 0"
    using risk_weight_zero_or_35 [of inp] by (auto simp: risk_level_def)
  ultimately show ?thesis by (simp add: Score_AssessRisk Level_AssessRisk Findings_AssessRisk)
qed

lemma mount_weight_le: "m \<in> set ms \<Longrightarrow> mount_weight m \<le> sum_list (map mount_weight ms)"
proof (induction ms)
  case (Cons x ms)
  then show ?case using mount_weights_nonneg [of ms] mount_weight_cases [of x] by auto
qed simp

lemma risk_weight_privileged: "in_Privileged inp \<Longrightarrow> 100 \<le> risk_weight inp"
  using mount_weights_nonneg [of "in_Mounts inp"] unfolding risk_weight_def by simp

lemma risk_weight_mount: "m \<in> set (in_Mounts inp) \<Longrightarrow> mount_weight m \<le> risk_weight inp"
  using mount_weight_le [of m "in_Mounts inp"] unfolding risk_weight_def by simp

text \<open>
  A container that is privileged or has the Docker socket mounted is rated \<open>Critical\<close>, whatever else its
  configuration says, and one with a sensitive host directory is rated at least \<open>High\<close>.
\<close>

lemma host_access_is_critical:
  "(in_Privileged inp \<or> list_ex exposes_socket (in_Mounts inp) \<longrightarrow> Level (AssessRisk inp) = ''Critical'')
   \<and> (list_ex (\<lambda>m. m_Type m = ''bind'' \<and> sensitive_source (toLower (m_Source m))) (in_Mounts inp)
        \<longrightarrow> Level (AssessRisk inp) = ''High'' \<or> Level (AssessRisk inp) = ''Critical'')"
proof (intro conjI impI)
  assume "in_Privileged inp \<or> list_ex exposes_socket (in_Mounts inp)"
  then have "100 \<le> risk_weight inp"
    using risk_weight_privileged [of inp] risk_weight_mount [of _ inp] by (fastforce simp: list_ex_iff mount_weight_def)
  then show "Level (AssessRisk inp) = ''Critical''" by (simp add: Level_AssessRisk risk_level_def)
next
  assume "list_ex (\<lambda>m. m_Type m = ''bind'' \<and> sensitive_source (toLower (m_Source m))) (in_Mounts inp)"
  then obtain m where "m \<in> set (in_Mounts inp)" "70 \<le> mount_weight m"
    by (auto simp: list_ex_iff mount_weight_def)
  then have "70 \<le> risk_weight inp" using risk_weight_mount [of m inp] by simp
  then show "Level (AssessRisk inp) = ''High'' \<or> Level (AssessRisk inp) = ''Critical''"
    by (simp add: Level_AssessRisk risk_level_def)
qed

end
