(* ===== verification/Inspect_Json.thy ===== *)
theory Inspect_Json
  imports Security Docker_Risk
begin

text \<open>
  The inspection document of a container as the Server sees it: a decoded JSON value, the recursive
  masking \<open>maskInspect\<close>, the extraction \<open>riskFromInspect\<close> of the risk input and of the policy
  resource (\<open>src/backend/internal/api/server.go\<close>).

  A \<open>map[string]interface{}\<close> is an association list with one entry per key (\<open>json.Unmarshal\<close> keeps
  one value per key); Go's iteration order is not observable in what these functions compute.
  Numbers keep their text.  \<open>maskInspect\<close> assigns into the maps and slices it walks over; the
  document is a tree without sharing, so the model returns the changed tree.
\<close>

datatype json =
    JNull
  | JBool bool
  | JNum string
  | JStr string
  | JArr "json list"
  | JObj "(string \<times> json) list"

definition boolValue :: "json option \<Rightarrow> bool" where
  "boolValue v = (case v of Some (JBool x) \<Rightarrow> x | _ \<Rightarrow> False)"

definition stringValue :: "json option \<Rightarrow> string" where
  "stringValue v = (case v of Some (JStr x) \<Rightarrow> x | _ \<Rightarrow> [])"

text \<open>The type assertions \<open>v.(map[string]interface{})\<close> and \<open>v.([]interface{})\<close>.\<close>

definition as_obj :: "json option \<Rightarrow> (string \<times> json) list option" where
  "as_obj v = (case v of Some (JObj o') \<Rightarrow> Some o' | _ \<Rightarrow> None)"

definition as_arr :: "json option \<Rightarrow> json list option" where
  "as_arr v = (case v of Some (JArr a) \<Rightarrow> Some a | _ \<Rightarrow> None)"

section \<open>Masking\<close>

definition mask_env_entry :: "json \<Rightarrow> json" where
  "mask_env_entry item = (case item of
       JStr txt \<Rightarrow> JStr (hd (MaskEnv [txt] False))
     | _ \<Rightarrow> item)"

definition mask_env :: "json \<Rightarrow> json" where
  "mask_env val = (case val of JArr arr \<Rightarrow> JArr (map mask_env_entry arr) | _ \<Rightarrow> val)"

fun maskInspect :: "json \<Rightarrow> json" where
  "maskInspect (JObj x) =
     JObj (map (\<lambda>(k, val).
       (k, if SensitiveKey k then JStr ''********''
           else if k = ''Env'' then mask_env val
           else maskInspect val)) x)"
| "maskInspect (JArr x) = JArr (map maskInspect x)"
| "maskInspect v = v"

section \<open>Risk input\<close>

text \<open>\<open>sprint\<close> stands for \<open>fmt.Sprint\<close> on a decoded JSON value.\<close>

definition mount_of :: "json \<Rightarrow> Mount option" where
  "mount_of raw = map_option (\<lambda>m.
     \<lparr>m_Type = stringValue (map_of m ''Type''), m_Source = stringValue (map_of m ''Source''),
      m_Destination = stringValue (map_of m ''Destination''), m_Mode = stringValue (map_of m ''Mode'')\<rparr>)
     (as_obj (Some raw))"

definition risk_input :: "(json \<Rightarrow> string) \<Rightarrow> (string \<times> json) list \<Rightarrow> bool \<Rightarrow> RiskInput" where
  "risk_input sprint v system =
     (let base = \<lparr>in_Privileged = False, in_PidMode = [], in_NetworkMode = [], in_IpcMode = [],
                  in_Mounts = [], in_Devices = [], in_System = system\<rparr>;
          i1 = (case as_obj (map_of v ''HostConfig'') of
                 None \<Rightarrow> base
               | Some h \<Rightarrow> base\<lparr>in_Privileged := boolValue (map_of h ''Privileged''),
                     in_PidMode := stringValue (map_of h ''PidMode''),
                     in_NetworkMode := stringValue (map_of h ''NetworkMode''),
                     in_IpcMode := stringValue (map_of h ''IpcMode''),
                     in_Devices := (case as_arr (map_of h ''Devices'') of
                         None \<Rightarrow> [] | Some ds \<Rightarrow> map sprint ds)\<rparr>)
      in case as_arr (map_of v ''Mounts'') of
           None \<Rightarrow> i1
         | Some ms \<Rightarrow> i1\<lparr>in_Mounts := List.map_filter mount_of ms\<rparr>)"

definition riskFromInspect :: "(json \<Rightarrow> string) \<Rightarrow> (string \<times> json) list \<Rightarrow> bool \<Rightarrow> RiskAssessment" where
  "riskFromInspect sprint v system = AssessRisk (risk_input sprint v system)"

section \<open>What masking guarantees\<close>

abbreviation stars :: json where
  "stars \<equiv> JStr ''********''"

text \<open>
  A masked environment: no entry \<open>KEY=value\<close> with a sensitive key carries anything but the stars.
  A masked document: every member with a sensitive key is the stars, the environment is masked, and
  everything below is masked again.
\<close>

definition env_entry_masked :: "json \<Rightarrow> bool" where
  "env_entry_masked item = (case item of
       JStr txt \<Rightarrow> (case cut txt (CHR ''='') of (key, value, ok) \<Rightarrow>
          ok \<and> SensitiveKey key \<longrightarrow> value = ''********'')
     | _ \<Rightarrow> True)"

definition env_masked :: "json \<Rightarrow> bool" where
  "env_masked val = (case val of JArr arr \<Rightarrow> list_all env_entry_masked arr | _ \<Rightarrow> True)"

fun masked :: "json \<Rightarrow> bool" where
  "masked (JObj x) = list_all (\<lambda>(k, val).
     if SensitiveKey k then val = stars else if k = ''Env'' then env_masked val else masked val) x"
| "masked (JArr x) = list_all masked x"
| "masked v = True"

lemma mask_item_cut:
  "cut (mask_item False txt) (CHR ''='') = (key, value, True) \<Longrightarrow> SensitiveKey key \<Longrightarrow> value = ''********''"
proof -
  assume c: "cut (mask_item False txt) (CHR ''='') = (key, value, True)" and s: "SensitiveKey key"
  obtain k v ok where t: "cut txt (CHR ''='') = (k, v, ok)" by (cases "cut txt (CHR ''='')") auto
  show "value = ''********''"
  proof (cases "ok \<and> SensitiveKey k")
    case True
    then have "txt = k @ CHR ''='' # v" and eq: "CHR ''='' \<notin> set k"
      using t by (simp_all add: cut_found)
    have "mask_item False txt = k @ CHR ''='' # ''********''" using True t by (simp add: mask_item_def)
    with eq c show ?thesis by (metis cut_key_value prod.inject)
  next
    case False
    then have "mask_item False txt = txt" using t by (auto simp: mask_item_def)
    with c t s False show ?thesis by simp
  qed
qed

lemma mask_item_masked: "mask_item False txt = txt \<longleftrightarrow> env_entry_masked (JStr txt)"
proof -
  obtain k v ok where t: "cut txt (CHR ''='') = (k, v, ok)" by (cases "cut txt (CHR ''='')") auto
  show ?thesis
  proof (cases ok)
    case True
    with t have "txt = k @ CHR ''='' # v" by (simp add: cut_found)
    with t True show ?thesis by (auto simp: mask_item_def env_entry_masked_def)
  next
    case False
    with t show ?thesis by (simp add: mask_item_def env_entry_masked_def)
  qed
qed

lemma mask_env_entry_JStr [simp]: "mask_env_entry (JStr txt) = JStr (mask_item False txt)"
  by (simp add: mask_env_entry_def MaskEnv_def)

lemma mask_env_entry_masked: "env_entry_masked (mask_env_entry item)"
  by (cases item)
    (auto simp: env_entry_masked_def mask_env_entry_def MaskEnv_def split: prod.splits dest: mask_item_cut)

lemma mask_env_entry_id: "env_entry_masked item \<Longrightarrow> mask_env_entry item = item"
  by (cases item) (simp_all add: mask_env_entry_def MaskEnv_def mask_item_masked)

lemma mask_env_masked: "env_masked (mask_env val)"
  by (cases val) (auto simp: env_masked_def mask_env_def list_all_iff mask_env_entry_masked)

lemma mask_env_id: "env_masked val \<Longrightarrow> mask_env val = val"
  by (cases val) (auto simp: env_masked_def mask_env_def list_all_iff mask_env_entry_id intro: map_idI)

lemma masked_maskInspect: "masked (maskInspect v)"
  by (induction v rule: maskInspect.induct) (auto simp: list_all_iff mask_env_masked)

lemma maskInspect_id: "masked v \<Longrightarrow> maskInspect v = v"
proof (induction v rule: maskInspect.induct)
  case (1 x)
  then show ?case by (auto simp: list_all_iff mask_env_id intro!: map_idI split: if_splits)
next
  case (2 x)
  then show ?case by (auto simp: list_all_iff intro!: map_idI)
qed simp_all

text \<open>
  Two documents that differ only in what masking is meant to hide: the values of sensitive members
  and the values of sensitive environment entries.
\<close>

definition env_entry_eq :: "json \<Rightarrow> json \<Rightarrow> bool" where
  "env_entry_eq a b \<longleftrightarrow> a = b \<or> (\<exists>key u w. CHR ''='' \<notin> set key \<and> SensitiveKey key
     \<and> a = JStr (key @ CHR ''='' # u) \<and> b = JStr (key @ CHR ''='' # w))"

inductive same_public :: "json \<Rightarrow> json \<Rightarrow> bool" where
  same: "same_public v v"
| arr: "length x = length y \<Longrightarrow> (\<And>i. i < length x \<Longrightarrow> same_public (x ! i) (y ! i))
    \<Longrightarrow> same_public (JArr x) (JArr y)"
| obj: "map fst x = map fst y \<Longrightarrow>
    (\<And>i. i < length x \<Longrightarrow> SensitiveKey (fst (x ! i))
       \<or> (fst (x ! i) = ''Env'' \<and> (snd (x ! i) = snd (y ! i) \<or>
            (\<exists>a b. snd (x ! i) = JArr a \<and> snd (y ! i) = JArr b \<and> list_all2 env_entry_eq a b)))
       \<or> (fst (x ! i) \<noteq> ''Env'' \<and> same_public (snd (x ! i)) (snd (y ! i))))
    \<Longrightarrow> same_public (JObj x) (JObj y)"

lemma mask_env_entry_eq: "env_entry_eq a b \<Longrightarrow> mask_env_entry a = mask_env_entry b"
  by (auto simp: env_entry_eq_def mask_item_def)

lemma mask_env_eq: "list_all2 env_entry_eq a b \<Longrightarrow> mask_env (JArr a) = mask_env (JArr b)"
  by (induction rule: list_all2_induct) (auto simp: mask_env_def mask_env_entry_eq)

lemma maskInspect_same_public: "same_public v w \<Longrightarrow> maskInspect v = maskInspect w"
proof (induction rule: same_public.induct)
  case (same v)
  then show ?case by simp
next
  case (arr x y)
  then show ?case by (auto intro: nth_equalityI)
next
  case (obj x y)
  have len: "length x = length y" using obj(1) map_eq_imp_length_eq by blast
  let ?f = "\<lambda>(k, val). (k, if SensitiveKey k then stars else if k = ''Env'' then mask_env val else maskInspect val)"
  have "?f (x ! i) = ?f (y ! i)" if i: "i < length x" for i
  proof -
    have "fst (x ! i) = fst (y ! i)"
      using obj(1) i len by (metis nth_map)
    with obj(2) [OF i] show ?thesis
      by (cases "x ! i"; cases "y ! i") (auto dest: mask_env_eq)
  qed
  with len have "map ?f x = map ?f y" by (auto intro: nth_equalityI)
  then show ?case by simp
qed

section \<open>Masking does not hide risk\<close>

definition mask_fields :: "(string \<times> json) list \<Rightarrow> (string \<times> json) list" where
  "mask_fields x = map (\<lambda>(k, val).
       (k, if SensitiveKey k then stars else if k = ''Env'' then mask_env val else maskInspect val)) x"

lemma maskInspect_JObj: "maskInspect (JObj x) = JObj (mask_fields x)"
  by (simp add: mask_fields_def)

lemma map_of_mask_fields:
  "\<not> SensitiveKey k \<Longrightarrow> k \<noteq> ''Env'' \<Longrightarrow> map_of (mask_fields x) k = map_option maskInspect (map_of x k)"
  by (induction x) (auto simp: mask_fields_def)

lemma stringValue_mask [simp]: "stringValue (map_option maskInspect v) = stringValue v"
  by (cases "the v"; cases v) (auto simp: stringValue_def)

lemma boolValue_mask [simp]: "boolValue (map_option maskInspect v) = boolValue v"
  by (cases "the v"; cases v) (auto simp: boolValue_def)

lemma as_arr_mask: "as_arr (map_option maskInspect v) = map_option (map maskInspect) (as_arr v)"
  by (cases "the v"; cases v) (auto simp: as_arr_def)

lemma as_obj_mask: "as_obj (map_option maskInspect v) = map_option mask_fields (as_obj v)"
  by (cases "the v"; cases v) (auto simp: as_obj_def mask_fields_def)

lemma inspect_keys_public:
  "list_all (\<lambda>k. \<not> SensitiveKey k \<and> k \<noteq> ''Env'') [''HostConfig'', ''Mounts'', ''Privileged'', ''PidMode'', ''NetworkMode'',
     ''IpcMode'', ''Devices'', ''Type'', ''Source'', ''Destination'', ''Mode'', ''Name'', ''Config'', ''Labels'']"
  by (simp add: SensitiveKey_def sensitiveFragments_def)

lemma map_of_mask_public:
  assumes "k \<in> set [''HostConfig'', ''Mounts'', ''Privileged'', ''PidMode'', ''NetworkMode'',
     ''IpcMode'', ''Devices'', ''Type'', ''Source'', ''Destination'', ''Mode'', ''Name'', ''Config'', ''Labels'']"
  shows "map_of (mask_fields x) k = map_option maskInspect (map_of x k)"
  using inspect_keys_public assms unfolding list_all_iff by (intro map_of_mask_fields) blast+

lemma mount_of_mask: "mount_of (maskInspect raw) = mount_of raw"
  using as_obj_mask [of "Some raw"]
  by (simp add: mount_of_def option.map_comp o_def map_of_mask_public)

lemma mounts_mask: "List.map_filter mount_of (map maskInspect ms) = List.map_filter mount_of ms"
  by (simp add: map_filter_def filter_map o_def mount_of_mask)

text \<open>The assessment of the masked document is the assessment of the document itself.\<close>

lemma riskFromInspect_mask:
  "riskFromInspect sprint (mask_fields v) system = riskFromInspect sprint v system"
proof -
  have "risk_input sprint (mask_fields v) system = (risk_input sprint v system)\<lparr>in_Devices :=
      in_Devices (risk_input sprint (mask_fields v) system)\<rparr>"
    by (simp add: risk_input_def Let_def map_of_mask_public as_obj_mask as_arr_mask mounts_mask split: option.splits)
  moreover have "length (in_Devices (risk_input sprint (mask_fields v) system)) = length (in_Devices (risk_input sprint v system))"
    by (simp add: risk_input_def Let_def map_of_mask_public as_obj_mask as_arr_mask split: option.splits)
  ultimately show ?thesis by (metis riskFromInspect_def AssessRisk_devices)
qed

section \<open>Properties\<close>

text \<open>
  C18: masking an inspection document leaves no secret.  Two documents that differ only in the values of sensitive
  members, at any depth, or in the values of sensitive entries of an environment list are masked to
  the same document, so the masked document does not depend on these values.
\<close>

theorem masking_hides_secrets:
  assumes "same_public v w"
  shows "maskInspect v = maskInspect w"
  using assms by (rule maskInspect_same_public)

theorem masking_hides_secrets_witness:
  "maskInspect (JObj [(''Config'', JObj [(''Env'', JArr [JStr ''DB_PASSWORD=a''])])])
     = maskInspect (JObj [(''Config'', JObj [(''Env'', JArr [JStr ''DB_PASSWORD=b''])])])"
proof (rule masking_hides_secrets)
  have "env_entry_eq (JStr ''DB_PASSWORD=a'') (JStr ''DB_PASSWORD=b'')"
    unfolding env_entry_eq_def
    by (intro disjI2 exI [of _ "''DB_PASSWORD''"] exI [of _ "''a''"] exI [of _ "''b''"])
      (simp add: SensitiveKey_def sensitiveFragments_def)
  then have "same_public (JObj [(''Env'', JArr [JStr ''DB_PASSWORD=a''])]) (JObj [(''Env'', JArr [JStr ''DB_PASSWORD=b''])])"
    by (intro same_public.obj) simp_all
  then show "same_public (JObj [(''Config'', JObj [(''Env'', JArr [JStr ''DB_PASSWORD=a''])])])
     (JObj [(''Config'', JObj [(''Env'', JArr [JStr ''DB_PASSWORD=b''])])])"
    by (intro same_public.obj) simp_all
qed

text \<open>
  C19: masking does exactly that and nothing else: the result has no unmasked secret left, a document without one
  is returned unchanged, masking twice is masking once, and the risk assessment of a container is the
  same before and after masking.
\<close>

theorem masking_exact:
  "masked (maskInspect v) \<and> (masked v \<longleftrightarrow> maskInspect v = v) \<and> maskInspect (maskInspect v) = maskInspect v
   \<and> maskInspect (JObj doc) = JObj (mask_fields doc)
   \<and> riskFromInspect sprint (mask_fields doc) system = riskFromInspect sprint doc system"
  using masked_maskInspect [of v] maskInspect_id [of v] maskInspect_id [OF masked_maskInspect [of v]]
    maskInspect_JObj riskFromInspect_mask by metis

end
