(* ===== verification/Go_Lib.thy ===== *)
theory Go_Lib
  imports Inspect_Json Path_Match
begin

text \<open>
  The parts of \<open>encoding/json\<close>, \<open>net\<close>, \<open>net/url\<close> and \<open>time\<close> that the server, the gateway and the
  configuration use: the encoder, the decoder of Go values from a parsed document,
  \<open>net.SplitHostPort\<close>, \<open>url.PathEscape\<close> and \<open>time.ParseDuration\<close>.
\<close>

section \<open>Encoding JSON\<close>

definition hex_of :: "nat \<Rightarrow> char" where
  "hex_of n = ''0123456789abcdef'' ! (n mod 16)"

text \<open>The encoder escapes quotes, control characters and the characters that matter in HTML.\<close>

definition json_escape_ascii :: "char \<Rightarrow> string" where
  "json_escape_ascii c =
     (let n = of_char c :: nat in
      if n = 0x22 \<or> n = 0x5C then [CHR 0x5C, c]
      else if n = 8 then [CHR 0x5C, CHR ''b''] else if n = 12 then [CHR 0x5C, CHR ''f'']
      else if n = 10 then [CHR 0x5C, CHR ''n''] else if n = 13 then [CHR 0x5C, CHR ''r'']
      else if n = 9 then [CHR 0x5C, CHR ''t'']
      else if n < 32 \<or> c = CHR ''<'' \<or> c = CHR ''>'' \<or> c = CHR ''&''
      then CHR 0x5C # ''u00'' @ [hex_of (n div 16), hex_of n]
      else [c])"

function json_escape :: "string \<Rightarrow> string" where
  "json_escape [] = []"
| "json_escape (c # s) =
     (if (of_char c :: nat) < 128 then json_escape_ascii c @ json_escape s
      else case decodeRune (c # s) of (r, n) \<Rightarrow>
        if r = 0xFFFD \<and> n = 1 then CHR 0x5C # ''ufffd'' @ json_escape s
        else if r = 0x2028 \<or> r = 0x2029 then CHR 0x5C # ''u202'' @ hex_of r # json_escape (drop (n - 1) s)
        else take n (c # s) @ json_escape (drop (n - 1) s))"
  by pat_completeness auto
termination by (relation "measure length") (auto intro: le_imp_less_Suc)

definition json_text :: "string \<Rightarrow> string" where
  "json_text s = CHR 0x22 # json_escape s @ [CHR 0x22]"

fun join_with :: "string \<Rightarrow> string list \<Rightarrow> string" where
  "join_with sep [] = []"
| "join_with sep [x] = x"
| "join_with sep (x # y # xs) = x @ sep @ join_with sep (y # xs)"

text \<open>\<open>json.Marshal\<close>; the members of an object are given in the order of their keys.\<close>

fun marshal :: "json \<Rightarrow> string" where
  "marshal JNull = ''null''"
| "marshal (JBool b) = formatBool b"
| "marshal (JNum t) = t"
| "marshal (JStr s) = json_text s"
| "marshal (JArr xs) = ''['' @ join_with '','' (map marshal xs) @ '']''"
| "marshal (JObj xs) = ''{'' @ join_with '','' (map (\<lambda>(k, v). json_text k @ '':'' @ marshal v) xs) @ ''}''"

section \<open>Decoding Go values\<close>

text \<open>
  \<open>Decode\<close> assigns a parsed value to a Go variable: \<open>null\<close> leaves a string, number, bool or struct as it
  is and makes a slice, map or pointer nil; a value of another type is an error (\<^const>\<open>None\<close>).
  \<open>fold_name\<close>: the names of struct fields are matched without regard to case; next to the ASCII
  letters the long s (U+017F) and the Kelvin sign (U+212A) fold to \<open>s\<close> and \<open>k\<close>.
\<close>

fun fold_name :: "string \<Rightarrow> string" where
  "fold_name [] = []"
| "fold_name (c # s) =
     (if c = CHR 0xC5 \<and> hasPrefix s [CHR 0xBF] then CHR ''s'' # fold_name (drop 1 s)
      else if c = CHR 0xE2 \<and> hasPrefix s [CHR 0x84, CHR 0xAA] then CHR ''k'' # fold_name (drop 2 s)
      else ascii_lower c # fold_name s)"

type_synonym 'a decoder = "json \<Rightarrow> 'a \<Rightarrow> 'a option"

definition dec_string :: "string decoder" where
  "dec_string v old = (case v of JNull \<Rightarrow> Some old | JStr s \<Rightarrow> Some s | _ \<Rightarrow> None)"

definition dec_bool :: "bool decoder" where
  "dec_bool v old = (case v of JNull \<Rightarrow> Some old | JBool b \<Rightarrow> Some b | _ \<Rightarrow> None)"

definition dec_int :: "int decoder" where
  "dec_int v old = (case v of JNull \<Rightarrow> Some old | JNum t \<Rightarrow> atoi t | _ \<Rightarrow> None)"

text \<open>A pointer: \<open>null\<close> makes it nil, another value is decoded into what it points to.\<close>

definition dec_ptr :: "'a \<Rightarrow> 'a decoder \<Rightarrow> 'a option decoder" where
  "dec_ptr zero dec v old = (case v of JNull \<Rightarrow> Some None
     | _ \<Rightarrow> map_option Some (dec v (case old of None \<Rightarrow> zero | Some x \<Rightarrow> x)))"

text \<open>A slice: the elements that it already has are decoded into.\<close>

fun dec_elems :: "'a \<Rightarrow> 'a decoder \<Rightarrow> json list \<Rightarrow> 'a list \<Rightarrow> 'a list option" where
  "dec_elems zero dec [] old = Some []"
| "dec_elems zero dec (v # vs) old =
     (case dec v (case old of [] \<Rightarrow> zero | x # _ \<Rightarrow> x) of
        None \<Rightarrow> None
      | Some x \<Rightarrow> map_option ((#) x) (dec_elems zero dec vs (tl old)))"

text \<open>A nil slice and an empty one are told apart only where a caller can: \<^const>\<open>None\<close> is nil.\<close>

definition dec_slice :: "'a \<Rightarrow> 'a decoder \<Rightarrow> 'a list option decoder" where
  "dec_slice zero dec v old = (case v of
       JNull \<Rightarrow> Some None
     | JArr vs \<Rightarrow> map_option Some (dec_elems zero dec vs (case old of None \<Rightarrow> [] | Some xs \<Rightarrow> xs))
     | _ \<Rightarrow> None)"

text \<open>A slice whose being nil does not matter.\<close>

definition dec_list :: "'a \<Rightarrow> 'a decoder \<Rightarrow> 'a list decoder" where
  "dec_list zero dec v old = (case dec_slice zero dec v (Some old) of
     None \<Rightarrow> None | Some None \<Rightarrow> Some [] | Some (Some xs) \<Rightarrow> Some xs)"

text \<open>
  A struct whose fields are given by their folded names; with \<open>DisallowUnknownFields\<close> a member that is
  no field is an error.
\<close>

fun dec_fields :: "(string \<times> 'r decoder) list \<Rightarrow> (string \<times> json) list \<Rightarrow> 'r \<Rightarrow> 'r option" where
  "dec_fields fs [] r = Some r"
| "dec_fields fs ((k, v) # xs) r =
     (case map_of fs (fold_name k) of
        None \<Rightarrow> None
      | Some dec \<Rightarrow> (case dec v r of None \<Rightarrow> None | Some r' \<Rightarrow> dec_fields fs xs r'))"

definition dec_struct :: "(string \<times> 'r decoder) list \<Rightarrow> 'r decoder" where
  "dec_struct fs v r = (case v of JNull \<Rightarrow> Some r | JObj xs \<Rightarrow> dec_fields fs xs r | _ \<Rightarrow> None)"

text \<open>A field of a record with its decoder: the getter and the setter.\<close>

definition dec_at :: "'a decoder \<Rightarrow> ('r \<Rightarrow> 'a) \<Rightarrow> (('a \<Rightarrow> 'a) \<Rightarrow> 'r \<Rightarrow> 'r) \<Rightarrow> 'r decoder" where
  "dec_at dec get upd v r = map_option (\<lambda>x. upd (\<lambda>_. x) r) (dec v (get r))"

text \<open>
  A request body: the JSON values in it (the reader stops at the size limit) and whether nothing else
  follows.  The decoder accepts exactly one value.
\<close>

record body =
  bd_values :: "json list"
  bd_clean :: bool

definition decode_body :: "'r decoder \<Rightarrow> 'r \<Rightarrow> body \<Rightarrow> 'r option" where
  "decode_body dec zero b = (case bd_values b of
       [v] \<Rightarrow> if bd_clean b then dec v zero else None
     | _ \<Rightarrow> None)"

section \<open>Addresses and paths\<close>

fun index_byte :: "char \<Rightarrow> string \<Rightarrow> nat option" where
  "index_byte c [] = None"
| "index_byte c (x # s) = (if x = c then Some 0 else map_option Suc (index_byte c s))"

definition last_index_byte :: "char \<Rightarrow> string \<Rightarrow> nat option" where
  "last_index_byte c s = map_option (\<lambda>i. length s - 1 - i) (index_byte c (rev s))"

text \<open>\<open>net.SplitHostPort\<close>; \<^const>\<open>None\<close> where it returns an error.\<close>

definition splitHostPort :: "string \<Rightarrow> (string \<times> string) option" where
  "splitHostPort hp = (case last_index_byte (CHR '':'') hp of
       None \<Rightarrow> None
     | Some i \<Rightarrow>
         if hd hp = CHR ''['' then
           (case index_byte (CHR '']'') hp of
              None \<Rightarrow> None
            | Some e \<Rightarrow>
                if e + 1 \<noteq> i then None
                else if CHR ''['' \<in> set (drop 1 hp) \<or> CHR '']'' \<in> set (drop (e + 1) hp) then None
                else Some (take (e - 1) (drop 1 hp), drop (i + 1) hp))
         else
           let host = take i hp in
           if CHR '':'' \<in> set host \<or> CHR ''['' \<in> set hp \<or> CHR '']'' \<in> set hp then None
           else Some (host, drop (i + 1) hp))"

definition path_safe :: "char \<Rightarrow> bool" where
  "path_safe c \<longleftrightarrow> char_in 97 122 c \<or> char_in 65 90 c \<or> char_in 48 57 c
     \<or> c \<in> set ''-_.~$&+:=@''"

definition upper_hex :: "nat \<Rightarrow> char" where
  "upper_hex n = ''0123456789ABCDEF'' ! (n mod 16)"

definition escape_byte :: "char \<Rightarrow> string" where
  "escape_byte c = (if path_safe c then [c] else [CHR ''%'', upper_hex (of_char c div 16), upper_hex (of_char c)])"

definition pathEscape :: "string \<Rightarrow> string" where
  "pathEscape s = concat (map escape_byte s)"

section \<open>Durations\<close>

definition durationUnits :: "(string \<times> nat) list" where
  "durationUnits = [(''ns'', 1), (''us'', 1000), ([CHR 0xC2, CHR 0xB5, CHR ''s''], 1000), ([CHR 0xCE, CHR 0xBC, CHR ''s''], 1000),
     (''ms'', 1000000), (''s'', 1000000000), (''m'', 60 * 1000000000), (''h'', 3600 * 1000000000)]"

text \<open>\<open>leadingInt\<close> on the digits of the text: \<^const>\<open>None\<close> on overflow.\<close>

fun leadingInt :: "string \<Rightarrow> nat \<Rightarrow> (nat \<times> string) option" where
  "leadingInt [] x = Some (x, [])"
| "leadingInt (c # s) x =
     (if \<not> isDigit c then Some (x, c # s)
      else if x > 2 ^ 63 div 10 then None
      else let y = x * 10 + digit_val c in if y > 2 ^ 63 then None else leadingInt s y)"

text \<open>\<open>leadingFraction\<close>: the digits read as a number and the power of ten of the scale.\<close>

fun leadingFraction :: "string \<Rightarrow> nat \<Rightarrow> nat \<Rightarrow> bool \<Rightarrow> nat \<times> nat \<times> string" where
  "leadingFraction [] x k overflow = (x, k, [])"
| "leadingFraction (c # s) x k overflow =
     (if \<not> isDigit c then (x, k, c # s)
      else if overflow \<or> x > (2 ^ 63 - 1) div 10 then leadingFraction s x k True
      else let y = x * 10 + digit_val c in
        if y > 2 ^ 63 then leadingFraction s x k True else leadingFraction s y (Suc k) False)"

definition number_byte :: "char \<Rightarrow> bool" where
  "number_byte c \<longleftrightarrow> c = CHR ''.'' \<or> isDigit c"

text \<open>
  One component \<open>12.5h\<close> of a duration: its nanoseconds and the rest.  \<open>fmul f unit k\<close> is the conversion
  \<open>uint64(float64(f) * (float64(unit) / 10^k))\<close> in floating-point arithmetic.
\<close>

definition duration_part :: "(nat \<Rightarrow> nat \<Rightarrow> nat \<Rightarrow> nat) \<Rightarrow> string \<Rightarrow> (nat \<times> string) option" where
  "duration_part fmul s =
     (if \<not> number_byte (hd s) then None
      else case leadingInt s 0 of
        None \<Rightarrow> None
      | Some (v, s1) \<Rightarrow>
          let pre = (length s1 \<noteq> length s);
              (f, k, s2) = (case s1 of
                  c # t \<Rightarrow> if c = CHR ''.'' then leadingFraction t 0 0 False else (0, 0, s1)
                | [] \<Rightarrow> (0, 0, s1));
              post = (s1 \<noteq> [] \<and> hd s1 = CHR ''.'' \<and> length s2 \<noteq> length s1 - 1);
              u = takeWhile (\<lambda>c. \<not> number_byte c) s2;
              rest = dropWhile (\<lambda>c. \<not> number_byte c) s2
          in if \<not> pre \<and> \<not> post then None
             else if u = [] then None
             else case map_of durationUnits u of
               None \<Rightarrow> None
             | Some unit \<Rightarrow>
                 if v > 2 ^ 63 div unit then None
                 else let w = v * unit + (if f > 0 then fmul f unit k else 0)
                      in if f > 0 \<and> w > 2 ^ 63 then None else Some (w, rest))"

lemma leadingInt_length: "leadingInt s x = Some (v, t) \<Longrightarrow> length t \<le> length s"
  by (induction s x rule: leadingInt.induct) (auto simp: Let_def split: if_splits)

lemma leadingFraction_length: "length (snd (snd (leadingFraction s x k b))) \<le> length s"
  by (induction s x k b rule: leadingFraction.induct) (auto simp: Let_def le_SucI)

lemma dropWhile_shorter: "takeWhile P xs \<noteq> [] \<Longrightarrow> length (dropWhile P xs) < length xs"
  by (cases xs) (auto intro: le_imp_less_Suc length_dropWhile_le split: if_splits)

lemma duration_part_shorter: "duration_part fmul s = Some (w, rest) \<Longrightarrow> length rest < length s"
proof -
  assume *: "duration_part fmul s = Some (w, rest)"
  then obtain v s1 where s1: "leadingInt s 0 = Some (v, s1)"
    by (auto simp: duration_part_def split: if_splits option.splits)
  let ?f = "case s1 of c # t \<Rightarrow> if c = CHR ''.'' then leadingFraction t 0 0 False else (0, 0, s1) | [] \<Rightarrow> (0, 0, s1)"
  have "takeWhile (\<lambda>c. \<not> number_byte c) (snd (snd ?f)) \<noteq> []" and "rest = dropWhile (\<lambda>c. \<not> number_byte c) (snd (snd ?f))"
    using * by (simp_all add: duration_part_def s1 Let_def case_prod_beta split: if_split_asm option.split_asm)
  then have "length rest < length (snd (snd ?f))" by (simp add: dropWhile_shorter)
  also have "length (snd (snd ?f)) \<le> length s1"
    by (auto intro: le_SucI leadingFraction_length split: list.split)
  also have "\<dots> \<le> length s" using s1 by (rule leadingInt_length)
  finally show ?thesis .
qed

function duration_sum :: "(nat \<Rightarrow> nat \<Rightarrow> nat \<Rightarrow> nat) \<Rightarrow> string \<Rightarrow> nat \<Rightarrow> nat option" where
  "duration_sum fmul s d =
     (if s = [] then Some d
      else case duration_part fmul s of
        None \<Rightarrow> None
      | Some (w, rest) \<Rightarrow> let d' = (d + w) mod 2 ^ 64 in if d' > 2 ^ 63 then None else duration_sum fmul rest d')"
  by pat_completeness auto
termination by (relation "measure (\<lambda>(_, s, _). length s)") (auto dest: duration_part_shorter)

declare duration_sum.simps [simp del]

text \<open>\<open>time.ParseDuration\<close>, in nanoseconds.\<close>

definition parseDuration :: "(nat \<Rightarrow> nat \<Rightarrow> nat \<Rightarrow> nat) \<Rightarrow> string \<Rightarrow> int option" where
  "parseDuration fmul s =
     (let neg = (s \<noteq> [] \<and> hd s = CHR ''-'');
          t = (if s \<noteq> [] \<and> (hd s = CHR ''-'' \<or> hd s = CHR ''+'') then tl s else s)
      in if t = ''0'' then Some 0
         else if t = [] then None
         else case duration_sum fmul t 0 of
           None \<Rightarrow> None
         | Some d \<Rightarrow> if neg then Some (- int d) else if d > 2 ^ 63 - 1 then None else Some (int d))"

lemma duration_sum_bound: "d \<le> 2 ^ 63 \<Longrightarrow> duration_sum fmul s d = Some r \<Longrightarrow> r \<le> 2 ^ 63"
proof (induction fmul s d rule: duration_sum.induct)
  case (1 fmul s d)
  show ?case
  proof (cases "s = []")
    case False
    then obtain w rest where p: "duration_part fmul s = Some (w, rest)"
      using 1(3) by (subst (asm) duration_sum.simps) (auto split: option.splits)
    have "(let d' = (d + w) mod 2 ^ 64 in if d' > 2 ^ 63 then None else duration_sum fmul rest d') = Some r"
      using 1(3) unfolding duration_sum.simps [of fmul s d] p using False by simp
    with 1(1) [OF False p] show ?thesis by (auto simp: Let_def split: if_splits)
  qed (use 1 in \<open>simp add: duration_sum.simps\<close>)
qed

lemma parseDuration_range: "parseDuration fmul s = Some d \<Longrightarrow> - (2 ^ 63) \<le> d \<and> d < 2 ^ 63"
  by (auto simp: parseDuration_def Let_def dest!: duration_sum_bound [rotated] split: if_splits option.splits)

end
