(* ===== verification/Config.thy ===== *)
theory Config
  imports Go_Lib
begin

text \<open>
  Configuration (\<open>src/backend/internal/config/config.go\<close>).  The process environment is a function from
  names to values (the empty string if a variable is not set) and the file system is what
  \<open>os.ReadFile\<close> answers.  Durations are in nanoseconds.
\<close>

record Config =
  cfg_ListenAddr :: string
  cfg_GatewayListenAddr :: string
  cfg_DBPath :: string
  cfg_StaticDir :: string
  cfg_GatewayURL :: string
  cfg_GatewaySecret :: string
  cfg_InstanceName :: string
  cfg_Environment :: string
  cfg_SessionTTL :: int
  cfg_TerminalIdle :: int
  cfg_LogTailDefault :: int
  cfg_CookieSecure :: bool
  cfg_SecretMasking :: bool
  cfg_StaticEnabled :: bool
  cfg_AllowedOrigins :: "string list"
  cfg_MaxBodyBytes :: int

record osenv =
  os_Getenv :: "string \<Rightarrow> string"
  os_ReadFile :: "string \<Rightarrow> string option"
  os_fmul :: "nat \<Rightarrow> nat \<Rightarrow> nat \<Rightarrow> nat"

definition env_or :: "osenv \<Rightarrow> string \<Rightarrow> string \<Rightarrow> string" where
  "env_or os k v = (let x = os_Getenv os k in if x \<noteq> [] then x else v)"

definition duration :: "osenv \<Rightarrow> string \<Rightarrow> int \<Rightarrow> int" where
  "duration os k v = (case parseDuration (os_fmul os) (os_Getenv os k) of
     Some d \<Rightarrow> if d > 0 then d else v | None \<Rightarrow> v)"

definition integer :: "osenv \<Rightarrow> string \<Rightarrow> int \<Rightarrow> int" where
  "integer os k v = (case atoi (os_Getenv os k) of Some n \<Rightarrow> n | None \<Rightarrow> v)"

definition boolean :: "osenv \<Rightarrow> string \<Rightarrow> bool \<Rightarrow> bool" where
  "boolean os k v = (case parseBool (os_Getenv os k) of Some b \<Rightarrow> b | None \<Rightarrow> v)"

definition split_list :: "string \<Rightarrow> string list" where
  "split_list v = filter (\<lambda>s. s \<noteq> []) (map trimSpace (split_on (CHR '','') v))"

definition second :: int where "second = 1000000000"

definition load_secret :: "osenv \<Rightarrow> string" where
  "load_secret os =
     (let secret = os_Getenv os ''DOCKERVIEW_GATEWAY_SECRET'' in
      if secret \<noteq> [] then secret
      else let file = os_Getenv os ''DOCKERVIEW_GATEWAY_SECRET_FILE'' in
        if file = [] then []
        else case os_ReadFile os file of None \<Rightarrow> [] | Some value \<Rightarrow> trimSpace value)"

definition Load :: "osenv \<Rightarrow> string \<Rightarrow> Config go_result" where
  "Load os component =
     (let c = \<lparr>
        cfg_ListenAddr = env_or os ''DOCKERVIEW_LISTEN_ADDR'' '':8080'',
        cfg_GatewayListenAddr = env_or os ''DOCKERVIEW_GATEWAY_LISTEN_ADDR'' '':8081'',
        cfg_DBPath = env_or os ''DOCKERVIEW_DB_PATH'' ''./dockerview.db'',
        cfg_StaticDir = env_or os ''DOCKERVIEW_STATIC_DIR'' ''../frontend/dist'',
        cfg_GatewayURL = env_or os ''DOCKERVIEW_GATEWAY_URL'' ''http://127.0.0.1:8081'',
        cfg_GatewaySecret = load_secret os,
        cfg_InstanceName = env_or os ''DOCKERVIEW_INSTANCE_NAME'' ''DockerView'',
        cfg_Environment = env_or os ''DOCKERVIEW_ENVIRONMENT'' ''DEV'',
        cfg_SessionTTL = duration os ''DOCKERVIEW_SESSION_TTL'' (12 * 3600 * second),
        cfg_TerminalIdle = duration os ''DOCKERVIEW_TERMINAL_IDLE_TIMEOUT'' (15 * 60 * second),
        cfg_LogTailDefault = integer os ''DOCKERVIEW_LOG_TAIL_DEFAULT'' 500,
        cfg_CookieSecure = boolean os ''DOCKERVIEW_COOKIE_SECURE'' True,
        cfg_SecretMasking = boolean os ''DOCKERVIEW_SECRET_MASKING'' True,
        cfg_StaticEnabled = boolean os ''DOCKERVIEW_STATIC_ENABLED'' True,
        cfg_AllowedOrigins = split_list (env_or os ''DOCKERVIEW_ALLOWED_ORIGINS'' ''http://localhost:8080''),
        cfg_MaxBodyBytes = integer os ''DOCKERVIEW_MAX_BODY_BYTES'' (2 ^ 20)\<rparr>
      in if (component = ''server'' \<or> component = ''gateway'') \<and> length (cfg_GatewaySecret c) < 32
         then Inl (ErrNew ''DOCKERVIEW_GATEWAY_SECRET must contain at least 32 characters'')
         else Inr c)"

lemma duration_pos: "v > 0 \<Longrightarrow> duration os k v > 0"
  by (simp add: duration_def split: option.split)

text \<open>A trimmed entry of a comma-separated list.\<close>

definition trimmed_entry :: "string \<Rightarrow> bool" where
  "trimmed_entry s \<longleftrightarrow> s \<noteq> [] \<and> CHR '','' \<notin> set s \<and> (\<forall>r\<in>set spaceRunes. \<not> prefix r s \<and> \<not> suffix r s)"

lemma split_list_trimmed: "s \<in> set (split_list v) \<Longrightarrow> trimmed_entry s"
  using trimSpace_subset split_on_sep_free by (fastforce simp: split_list_def trimmed_entry_def trimSpace_ends)

lemma env_or_nonempty: "v \<noteq> [] \<Longrightarrow> env_or os k v \<noteq> []"
  by (simp add: env_or_def Let_def)

text \<open>
  C22: whatever the environment holds, a configuration that loads can be run with: sessions and idle terminals
  have a positive lifetime, every allowed origin is a text without a comma and without a blank (in the sense
  of Unicode) at either end, and not empty, the addresses and paths are not empty, and the
  server and the gateway start only with a gateway secret of at least 32 bytes; the recovery commands
  always get a configuration.
\<close>

theorem loaded_config_sound:
  assumes "Load os component = Inr c"
  shows "0 < cfg_SessionTTL c \<and> 0 < cfg_TerminalIdle c \<and> (\<forall>origin\<in>set (cfg_AllowedOrigins c). trimmed_entry origin)
    \<and> cfg_DBPath c \<noteq> [] \<and> cfg_GatewayURL c \<noteq> [] \<and> cfg_ListenAddr c \<noteq> []
    \<and> (component \<in> {''server'', ''gateway''} \<longrightarrow> 32 \<le> length (cfg_GatewaySecret c))
    \<and> is_ok (Load os ''recovery'')"
proof -
  have "0 < cfg_SessionTTL c" "0 < cfg_TerminalIdle c" "\<forall>origin\<in>set (cfg_AllowedOrigins c). trimmed_entry origin"
    "cfg_DBPath c \<noteq> []" "cfg_GatewayURL c \<noteq> []" "cfg_ListenAddr c \<noteq> []"
    "component \<in> {''server'', ''gateway''} \<Longrightarrow> 32 \<le> length (cfg_GatewaySecret c)"
    using assms by (auto simp: Load_def Let_def second_def duration_pos split_list_trimmed env_or_nonempty split: if_splits)
  moreover have "is_ok (Load os ''recovery'')" by (simp add: Load_def Let_def)
  ultimately show ?thesis by blast
qed

definition plain_os :: osenv where
  "plain_os = \<lparr>os_Getenv = (\<lambda>k. if k = ''DOCKERVIEW_GATEWAY_SECRET'' then replicate 32 CHR ''k'' else []),
     os_ReadFile = (\<lambda>_. None), os_fmul = (\<lambda>_ _ _. 0)\<rparr>"

theorem loaded_config_sound_witness:
  "\<exists>c. Load plain_os ''server'' = Inr c \<and> 0 < cfg_SessionTTL c \<and> 32 \<le> length (cfg_GatewaySecret c)"
proof -
  have "\<exists>c. Load plain_os ''server'' = Inr c"
    by (simp add: Load_def Let_def load_secret_def plain_os_def)
  then obtain c where c: "Load plain_os ''server'' = Inr c" by blast
  with loaded_config_sound [OF c] show ?thesis by auto
qed

end
