(* ===== verification/Gateway_Client.thy ===== *)
theory Gateway_Client
  imports Go_Lib
begin

text \<open>
  The server's client of the gateway (\<open>src/backend/internal/api/gateway_client.go\<close>).

  The HTTP transport is a parameter: a function of the request and of the state of the other side,
  which answers with a response (or an error) and a new state.  A response has its status, the bytes of
  its body and whether the body broke off.  The JSON parser is a parameter too: the value of a whole
  text, and the first value of a stream.
\<close>

record hreq =
  rq_method :: string
  rq_url :: string
  rq_secret :: string
  rq_body :: "json option"
  rq_stream :: bool

record hresp =
  rs_status :: nat
  rs_body :: string
  rs_broken :: bool

record dialreq =
  dl_base :: string
  dl_path :: string
  dl_secret :: string

type_synonym 'g transport = "hreq \<Rightarrow> 'g \<Rightarrow> hresp go_result \<times> 'g"

record GatewayClient =
  gc_BaseURL :: string
  gc_Secret :: string

definition trimRight_slash :: "string \<Rightarrow> string" where
  "trimRight_slash s = rev (dropWhile (\<lambda>c. c = CHR ''/'') (rev s))"

definition NewGatewayClient :: "string \<Rightarrow> string \<Rightarrow> GatewayClient" where
  "NewGatewayClient base secret = \<lparr>gc_BaseURL = trimRight_slash base, gc_Secret = secret\<rparr>"

definition gc_request :: "'g transport \<Rightarrow> GatewayClient \<Rightarrow> string \<Rightarrow> string \<Rightarrow> json option \<Rightarrow> bool \<Rightarrow> 'g \<Rightarrow> hresp go_result \<times> 'g" where
  "gc_request tr g method path bdy stream s =
     (case tr \<lparr>rq_method = method, rq_url = gc_BaseURL g @ path, rq_secret = gc_Secret g, rq_body = bdy, rq_stream = stream\<rparr> s of
        (Inl e, s) \<Rightarrow> (Inl e, s)
      | (Inr res, s) \<Rightarrow> if rs_status res \<ge> 400 then (Inl (ErrNew ''gateway rejected operation''), s) else (Inr res, s))"

definition maxResponse :: nat where "maxResponse = 8 * 1024 * 1024"

text \<open>\<open>decode\<close> gives the first JSON value of a stream; \<open>dec\<close> assigns it to the variable of the caller.\<close>

definition gc_JSON :: "'g transport \<Rightarrow> (string \<Rightarrow> json option) \<Rightarrow> GatewayClient \<Rightarrow> string \<Rightarrow> string \<Rightarrow> json option
    \<Rightarrow> (json \<Rightarrow> 'a option) \<Rightarrow> 'g \<Rightarrow> 'a go_result \<times> 'g" where
  "gc_JSON tr decode g method path bdy dec s = (case gc_request tr g method path bdy False s of
       (Inl e, s) \<Rightarrow> (Inl e, s)
     | (Inr res, s) \<Rightarrow> (case Option.bind (decode (take maxResponse (rs_body res))) dec of
           None \<Rightarrow> (Inl (ErrEngine ''json''), s)
         | Some v \<Rightarrow> (Inr v, s)))"

definition gc_Raw :: "'g transport \<Rightarrow> GatewayClient \<Rightarrow> string \<Rightarrow> 'g \<Rightarrow> string go_result \<times> 'g" where
  "gc_Raw tr g path s = (case gc_request tr g ''GET'' path None False s of
       (Inl e, s) \<Rightarrow> (Inl e, s)
     | (Inr res, s) \<Rightarrow>
         if rs_broken res \<and> length (rs_body res) < maxResponse then (Inl (ErrEngine ''read''), s)
         else (Inr (take maxResponse (rs_body res)), s))"

definition gc_Stream :: "'g transport \<Rightarrow> GatewayClient \<Rightarrow> string \<Rightarrow> 'g \<Rightarrow> string go_result \<times> 'g" where
  "gc_Stream tr g path s = (case gc_request tr g ''GET'' path None True s of
       (Inl e, s) \<Rightarrow> (Inl e, s)
     | (Inr res, s) \<Rightarrow> (Inr (rs_body res), s))"

definition gc_Ready :: "'g transport \<Rightarrow> GatewayClient \<Rightarrow> 'g \<Rightarrow> unit go_result \<times> 'g" where
  "gc_Ready tr g s = (case gc_request tr g ''GET'' ''/ready'' None False s of
       (Inl e, s) \<Rightarrow> (Inl e, s)
     | (Inr res, s) \<Rightarrow> if rs_status res \<noteq> 200 then (Inl (ErrNew ''not ready''), s) else (Inr (), s))"

definition gatewayContainerPath :: "string \<Rightarrow> string \<Rightarrow> string" where
  "gatewayContainerPath cid tail_part = ''/v1/containers/'' @ pathEscape cid @ tail_part"

definition logsPath :: "string \<Rightarrow> int \<Rightarrow> bool \<Rightarrow> string" where
  "logsPath cid tail follow =
     gatewayContainerPath cid ''/logs'' @ ''?tail='' @ itoa tail @ ''&follow='' @ formatBool follow"

text \<open>The answer to an exec request: the fields \<open>Ticket\<close> and \<open>Shell\<close>; other members are ignored.\<close>

fun dec_ticket_fields :: "(string \<times> json) list \<Rightarrow> string \<times> string \<Rightarrow> (string \<times> string) option" where
  "dec_ticket_fields [] p = Some p"
| "dec_ticket_fields ((k, v) # xs) (t, sh) =
     (if fold_name k = ''ticket'' then (case dec_string v t of None \<Rightarrow> None | Some t' \<Rightarrow> dec_ticket_fields xs (t', sh))
      else if fold_name k = ''shell'' then (case dec_string v sh of None \<Rightarrow> None | Some sh' \<Rightarrow> dec_ticket_fields xs (t, sh'))
      else dec_ticket_fields xs (t, sh))"

definition dec_ticket :: "json \<Rightarrow> (string \<times> string) option" where
  "dec_ticket v = (case v of JNull \<Rightarrow> Some ([], []) | JObj xs \<Rightarrow> dec_ticket_fields xs ([], []) | _ \<Rightarrow> None)"

definition gc_CreateExec :: "'g transport \<Rightarrow> (string \<Rightarrow> json option) \<Rightarrow> GatewayClient \<Rightarrow> string \<Rightarrow> string \<Rightarrow> 'g
    \<Rightarrow> (string \<times> string) go_result \<times> 'g" where
  "gc_CreateExec tr decode g cid shell s =
     gc_JSON tr decode g ''POST'' (''/v1/containers/'' @ pathEscape cid @ ''/exec'') (Some (JObj [(''shell'', JStr shell)])) dec_ticket s"

text \<open>The WebSocket library dials the base URL with the scheme and the path replaced.\<close>

definition gc_DialExec :: "(dialreq \<Rightarrow> 'g \<Rightarrow> unit go_result \<times> 'g) \<Rightarrow> GatewayClient \<Rightarrow> string \<Rightarrow> 'g \<Rightarrow> unit go_result \<times> 'g" where
  "gc_DialExec dial g ticket s =
     dial \<lparr>dl_base = gc_BaseURL g, dl_path = ''/v1/exec/'' @ pathEscape ticket, dl_secret = gc_Secret g\<rparr> s"

section \<open>Paths\<close>

lemma escape_byte_safe: "c \<in> set (escape_byte x) \<Longrightarrow> path_safe c \<or> c = CHR ''%''"
proof -
  have hex: "path_safe (upper_hex n)" for n
  proof -
    have "upper_hex n \<in> set ''0123456789ABCDEF''"
      unfolding upper_hex_def by (rule nth_mem) simp
    moreover have "list_all path_safe ''0123456789ABCDEF''" by (simp add: path_safe_def)
    ultimately show ?thesis unfolding list_all_iff by blast
  qed
  assume "c \<in> set (escape_byte x)"
  with hex show ?thesis by (auto simp: escape_byte_def split: if_splits)
qed

lemma pathEscape_safe: "c \<in> set (pathEscape s) \<Longrightarrow> path_safe c \<or> c = CHR ''%''"
  by (auto simp: pathEscape_def dest: escape_byte_safe)

lemma container_char_safe: "container_char c \<Longrightarrow> path_safe c"
  by (auto simp: container_char_def path_safe_def)

lemma pathEscape_valid: "ValidateContainerID cid \<Longrightarrow> pathEscape cid = cid"
proof -
  assume "ValidateContainerID cid"
  then have "list_all container_char cid" by (simp add: ValidateContainerID_def split: if_splits)
  then show ?thesis
    by (induction cid) (simp_all add: pathEscape_def escape_byte_def container_char_safe)
qed

end
