(* ===== verification/Server_Base.thy ===== *)
theory Server_Base
  imports Store_Laws Policies Rate_Limit Config Gateway_Client
begin

text \<open>
  The API server (\<open>src/backend/internal/api/server.go\<close>): its state, the way a handler runs, the
  middleware, the audit trail and the helpers.

  The state of the server is its store, the two limiters, the login throttle and, as a type parameter,
  the state of whatever is at the other end of the gateway client.  A handler either finishes the
  request early with a response (\<open>problemResponse\<close> and \<open>return\<close>; a panic finishes it with the answer
  of \<open>recoverer\<close>) or goes on with a value.  Requests are taken one at a time; what the URL and the
  headers hold is given by the fields of the request.
\<close>

section \<open>Requests, responses and state\<close>

record 'g senv =
  se_env :: env
  se_cfg :: Config
  se_http :: "'g transport"
  se_dial :: "dialreq \<Rightarrow> 'g \<Rightarrow> unit go_result \<times> 'g"
  se_send :: "nat \<Rightarrow> string \<Rightarrow> 'g \<Rightarrow> unit go_result \<times> 'g"
  se_decode :: "string \<Rightarrow> json option"
  se_unmarshal :: "string \<Rightarrow> json option"
  se_fmul :: "nat \<Rightarrow> nat \<Rightarrow> nat \<Rightarrow> nat"
  se_sprint :: "json \<Rightarrow> string"
  se_ToLower :: "string \<Rightarrow> string"

record 'g server =
  sv_store :: store
  sv_gateway :: 'g
  sv_loginThrottle :: loginThrottle
  sv_terminalLimit :: limiter
  sv_passwordLimit :: limiter

text \<open>
  What happens on an open terminal: a message of either side with its type (and whether the browser
  still takes it), or a tick of the watchdog.
\<close>

datatype term_event = FromBrowser nat string | FromGateway nat string bool | WatchdogTick

record srequest =
  sq_cookie :: "string option"
  sq_csrf_header :: string
  sq_csrf_query :: string
  sq_origin :: string
  sq_RemoteAddr :: string
  sq_UserAgent :: string
  sq_param :: string
  sq_query :: "string \<Rightarrow> string"
  sq_body :: body
  sq_refusal :: "nat option"
  sq_events :: "term_event list"

datatype sbody =
    PProblem string string
  | PError string go_error
  | PRetry nat
  | PStatus string
  | PSetup bool string string
  | PLogin User
  | PUser User
  | PReread "User option"
  | PUsers "User list"
  | PRole Role
  | PRoles "Role list"
  | PPermissions "Permission list"
  | PPolicy Policy
  | PPolicies "Policy list"
  | PAudit "AuditEvent list"
  | PSettings "string \<rightharpoonup> string"
  | PUpdated "(string \<times> string) list"
  | POverview string string nat nat nat "(string \<times> json) list list" "(string \<times> json) list"
  | PJson json
  | PInspect "(string \<times> json) list" RiskAssessment bool bool
  | PRisk RiskAssessment
  | PLogs string
  | PEvents string
  | PTerminal string string string
  | PUpgraded
  | PEmpty

record cookie =
  ck_Name :: string
  ck_Value :: string
  ck_Path :: string
  ck_HttpOnly :: bool
  ck_Secure :: bool
  ck_SameSiteStrict :: bool
  ck_MaxAge :: int

record sresponse =
  sp_status :: nat
  sp_body :: sbody
  sp_cookies :: "cookie list"

type_synonym ('g, 'a) hm = "'g senv \<Rightarrow> 'g server \<Rightarrow> (sresponse + 'a) \<times> 'g server"

definition respond :: "nat \<Rightarrow> sbody \<Rightarrow> sresponse" where
  "respond status v = \<lparr>sp_status = status, sp_body = v, sp_cookies = []\<rparr>"

definition problemResponse :: "nat \<Rightarrow> string \<Rightarrow> string \<Rightarrow> sresponse" where
  "problemResponse status code message = respond status (PProblem code message)"

section \<open>How a handler runs\<close>

definition hret :: "'a \<Rightarrow> ('g, 'a) hm" where
  "hret x = (\<lambda>se sv. (Inr x, sv))"

definition hstop :: "sresponse \<Rightarrow> ('g, 'a) hm" where
  "hstop resp = (\<lambda>se sv. (Inl resp, sv))"

definition hbnd :: "('g, 'a) hm \<Rightarrow> ('a \<Rightarrow> ('g, 'b) hm) \<Rightarrow> ('g, 'b) hm" where
  "hbnd m f = (\<lambda>se sv. case m se sv of (Inl resp, sv') \<Rightarrow> (Inl resp, sv') | (Inr x, sv') \<Rightarrow> f x se sv')"

definition hask :: "('g senv \<Rightarrow> 'a) \<Rightarrow> ('g, 'a) hm" where
  "hask f = (\<lambda>se sv. (Inr (f se), sv))"

definition recovered :: sresponse where
  "recovered = problemResponse 500 ''INTERNAL'' ''Internal error''"

text \<open>Call the store and look at the error; a panic ends the request.\<close>

definition hstore :: "'a dbm \<Rightarrow> ('g, 'a go_result) hm" where
  "hstore m = (\<lambda>se sv. case m (se_env se) (sv_store sv) of
       (Inl (ErrPanic p), st) \<Rightarrow> (Inl recovered, sv\<lparr>sv_store := st\<rparr>)
     | (r, st) \<Rightarrow> (Inr r, sv\<lparr>sv_store := st\<rparr>))"

definition hgateway :: "('g senv \<Rightarrow> 'g \<Rightarrow> 'a \<times> 'g) \<Rightarrow> ('g, 'a) hm" where
  "hgateway f = (\<lambda>se sv. case f se (sv_gateway sv) of (x, g) \<Rightarrow> (Inr x, sv\<lparr>sv_gateway := g\<rparr>))"

text \<open>Read the clock, as nanoseconds since the epoch or since Go's zero time.\<close>

definition hnow :: "('g, nat) hm" where
  "hnow = (\<lambda>se sv. case sv_store sv of (n, d) \<Rightarrow> (Inr (clock (se_env se) n), sv\<lparr>sv_store := (Suc n, d)\<rparr>))"

definition epoch :: nat where "epoch = 62135596800 * 1000000000"

definition hthrottle :: "(loginThrottle \<Rightarrow> nat \<Rightarrow> 'a \<times> loginThrottle) \<Rightarrow> ('g, 'a) hm" where
  "hthrottle f = hbnd hnow (\<lambda>t se sv. case f (sv_loginThrottle sv) (t + epoch) of (x, l) \<Rightarrow> (Inr x, sv\<lparr>sv_loginThrottle := l\<rparr>))"

definition hclear :: "string \<Rightarrow> ('g, unit) hm" where
  "hclear key = (\<lambda>se sv. (Inr (), sv\<lparr>sv_loginThrottle := throttle_clear (sv_loginThrottle sv) key\<rparr>))"

definition hterminalLimit :: "string \<Rightarrow> ('g, bool) hm" where
  "hterminalLimit key = hbnd hnow (\<lambda>t se sv. case limiter_allow (sv_terminalLimit sv) (t + epoch) key of
     (x, l) \<Rightarrow> (Inr x, sv\<lparr>sv_terminalLimit := l\<rparr>))"

definition hpasswordLimit :: "string \<Rightarrow> ('g, bool) hm" where
  "hpasswordLimit key = hbnd hnow (\<lambda>t se sv. case limiter_allow (sv_passwordLimit sv) (t + epoch) key of
     (x, l) \<Rightarrow> (Inr x, sv\<lparr>sv_passwordLimit := l\<rparr>))"

text \<open>The recurring \<open>if err != nil { problemResponse(...); return }\<close>.\<close>

definition hcheck :: "(go_error \<Rightarrow> sresponse) \<Rightarrow> ('g, 'a go_result) hm \<Rightarrow> ('g, 'a) hm" where
  "hcheck bad m = hbnd m (\<lambda>r. case r of Inl err \<Rightarrow> hstop (bad err) | Inr x \<Rightarrow> hret x)"

definition hguard :: "bool \<Rightarrow> sresponse \<Rightarrow> ('g, unit) hm" where
  "hguard ok bad = (if ok then hret () else hstop bad)"

text \<open>What the client receives.\<close>

definition finish :: "('g, sresponse) hm \<Rightarrow> 'g senv \<Rightarrow> 'g server \<Rightarrow> sresponse \<times> 'g server" where
  "finish m se sv = (case m se sv of (Inl resp, sv') \<Rightarrow> (resp, sv') | (Inr resp, sv') \<Rightarrow> (resp, sv'))"

section \<open>The server\<close>

definition minute :: nat where "minute = 60 * 1000000000"

definition New :: "store \<Rightarrow> 'g \<Rightarrow> 'g server" where
  "New st g = \<lparr>sv_store = st, sv_gateway = g, sv_loginThrottle = newLoginThrottle 5 (20 * 1000000000),
     sv_terminalLimit = newLimiter 10 minute, sv_passwordLimit = newLimiter 5 (10 * minute)\<rparr>"

definition gateway_client :: "'g senv \<Rightarrow> GatewayClient" where
  "gateway_client se = NewGatewayClient (cfg_GatewayURL (se_cfg se)) (cfg_GatewaySecret (se_cfg se))"

definition gw_Raw :: "string \<Rightarrow> ('g, string go_result) hm" where
  "gw_Raw path = hgateway (\<lambda>se. gc_Raw (se_http se) (gateway_client se) path)"

definition gw_Stream :: "string \<Rightarrow> ('g, string go_result) hm" where
  "gw_Stream path = hgateway (\<lambda>se. gc_Stream (se_http se) (gateway_client se) path)"

definition gw_JSON :: "string \<Rightarrow> string \<Rightarrow> json option \<Rightarrow> (json \<Rightarrow> 'a option) \<Rightarrow> ('g, 'a go_result) hm" where
  "gw_JSON method path bdy dec = hgateway (\<lambda>se. gc_JSON (se_http se) (se_decode se) (gateway_client se) method path bdy dec)"

section \<open>Helpers\<close>

definition clientIP :: "srequest \<Rightarrow> string" where
  "clientIP r = (case splitHostPort (sq_RemoteAddr r) of
     Some (host, _) \<Rightarrow> host | None \<Rightarrow> Prelude.truncate (sq_RemoteAddr r) 64)"

definition anonymous :: "string \<Rightarrow> User" where
  "anonymous username = \<lparr>user_ID = [], user_Username = Prelude.truncate username 64, user_Enabled = False, user_CreatedAt = [],
     user_LastLoginAt = None, user_LastActivityAt = None, user_Roles = [], user_RoleIDs = [], user_Permissions = []\<rparr>"

text \<open>The session is there on the routes behind \<open>requireSession\<close>.\<close>

definition audit_event :: "srequest \<Rightarrow> Session option \<Rightarrow> User \<Rightarrow> string \<Rightarrow> string \<Rightarrow> string \<Rightarrow> string \<Rightarrow> string \<Rightarrow> json option \<Rightarrow> AuditEvent" where
  "audit_event r sess u action resourceType resourceID result reason metadata =
     \<lparr>event_ID = [], event_Timestamp = [], event_UserID = user_ID u, event_Username = user_Username u, event_SourceIP = clientIP r,
      event_Action = action, event_ResourceType = resourceType, event_ResourceID = resourceID, event_Result = result,
      event_Reason = reason, event_SessionID = (case sess of None \<Rightarrow> [] | Some s \<Rightarrow> take 12 (session_TokenHash s)),
      event_Metadata = (case metadata of None \<Rightarrow> [] | Some v \<Rightarrow> marshal v)\<rparr>"

definition audit :: "srequest \<Rightarrow> Session option \<Rightarrow> User \<Rightarrow> string \<Rightarrow> string \<Rightarrow> string \<Rightarrow> string \<Rightarrow> string \<Rightarrow> json option \<Rightarrow> ('g, unit) hm" where
  "audit r sess u action resourceType resourceID result reason metadata =
     hbnd (hstore (Audit (audit_event r sess u action resourceType resourceID result reason metadata))) (\<lambda>_. hret ())"

definition validateShell :: "string \<Rightarrow> string option" where
  "validateShell s =
     (if s = [] \<or> s = ''auto'' then Some ''auto''
      else if s = ''/bin/bash'' \<or> s = ''/bin/sh'' \<or> s = ''/bin/ash'' then Some s
      else None)"

text \<open>A missing setting reads as the empty string.\<close>

definition setting :: "(string \<rightharpoonup> string) \<Rightarrow> string \<Rightarrow> string" where
  "setting m k = (case m k of None \<Rightarrow> [] | Some v \<Rightarrow> v)"

text \<open>\<open>settings, _ := s.Store.Settings(...)\<close>: on an error the map is nil.\<close>

definition settings_or_nil :: "('g, string \<rightharpoonup> string) hm" where
  "settings_or_nil = hbnd (hstore Settings) (\<lambda>r. hret (case r of Inl _ \<Rightarrow> Map.empty | Inr m \<Rightarrow> m))"

definition defaultLogTail :: "('g, int) hm" where
  "defaultLogTail = hbnd (hask se_cfg) (\<lambda>cfg. hbnd (hstore Settings) (\<lambda>r. hret (case r of
       Inr m \<Rightarrow> ParseBoundedInt (setting m ''default_log_tail'') (cfg_LogTailDefault cfg) 1 5000
     | Inl _ \<Rightarrow> cfg_LogTailDefault cfg)))"

definition idle_ok :: "int \<Rightarrow> bool" where
  "idle_ok d \<longleftrightarrow> 60 * second \<le> d \<and> d \<le> 8 * 3600 * second"

definition terminalIdle :: "('g, int) hm" where
  "terminalIdle = hbnd (hask (\<lambda>se. (se_cfg se, se_fmul se))) (\<lambda>(cfg, fmul). hbnd (hstore Settings) (\<lambda>r. hret (case r of
       Inr m \<Rightarrow> (case parseDuration fmul (setting m ''terminal_idle_timeout'') of
           Some d \<Rightarrow> if idle_ok d then d else cfg_TerminalIdle cfg
         | None \<Rightarrow> cfg_TerminalIdle cfg)
     | Inl _ \<Rightarrow> cfg_TerminalIdle cfg)))"

section \<open>Middleware\<close>

definition requireSession :: "srequest \<Rightarrow> (Session \<Rightarrow> ('g, 'a) hm) \<Rightarrow> ('g, 'a) hm" where
  "requireSession r next = (case sq_cookie r of
       None \<Rightarrow> hstop (problemResponse 401 ''AUTH_REQUIRED'' ''Authentication required'')
     | Some value \<Rightarrow>
         hbnd (hcheck (\<lambda>_. problemResponse 401 ''SESSION_INVALID'' ''Session expired or revoked'') (hstore (ResolveSession value))) next)"

definition originAllowed :: "Config \<Rightarrow> srequest \<Rightarrow> bool" where
  "originAllowed cfg r = (if sq_origin r = [] then False else list_ex (\<lambda>allowed. sq_origin r = allowed) (cfg_AllowedOrigins cfg))"

definition csrf_provided :: "srequest \<Rightarrow> string" where
  "csrf_provided r = (if sq_csrf_header r = [] then sq_csrf_query r else sq_csrf_header r)"

definition requireCSRF :: "srequest \<Rightarrow> Session \<Rightarrow> ('g, 'a) hm \<Rightarrow> ('g, 'a) hm" where
  "requireCSRF r sess next =
     hbnd (hask (\<lambda>se. (TokenHash (sha256 (se_env se)) (csrf_provided r), se_cfg se))) (\<lambda>(actual, cfg).
     hbnd (hguard (\<not> (length actual \<noteq> length (session_CSRFHash sess) \<or> constantTimeCompare actual (session_CSRFHash sess) \<noteq> 1))
       (problemResponse 403 ''CSRF_INVALID'' ''CSRF validation failed'')) (\<lambda>_.
     hbnd (hguard (\<not> (sq_origin r \<noteq> [] \<and> \<not> originAllowed cfg r))
       (problemResponse 403 ''ORIGIN_INVALID'' ''Origin is not allowed'')) (\<lambda>_. next)))"

definition requirePermission :: "string \<Rightarrow> Session \<Rightarrow> ('g, 'a) hm \<Rightarrow> ('g, 'a) hm" where
  "requirePermission permission sess next =
     hbnd (hguard (rbac_Allowed (session_User sess) permission) (problemResponse 403 ''FORBIDDEN'' ''Permission denied'')) (\<lambda>_. next)"

section \<open>Probes, status and authentication\<close>

text \<open>\<open>PingContext\<close> is one interaction with the database engine.\<close>

definition ready :: "('g, sresponse) hm" where
  "ready =
     hbnd (hcheck (\<lambda>_. problemResponse 503 ''DATABASE_UNAVAILABLE'' ''Database unavailable'') (hstore (query (\<lambda>_. ())))) (\<lambda>_.
     hbnd (hcheck (\<lambda>_. problemResponse 503 ''GATEWAY_UNAVAILABLE'' ''Docker Gateway unavailable'')
       (hgateway (\<lambda>se. gc_Ready (se_http se) (gateway_client se)))) (\<lambda>_.
     hret (respond 200 (PStatus ''ready''))))"

definition instance_of :: "Config \<Rightarrow> (string \<rightharpoonup> string) \<Rightarrow> string \<times> string" where
  "instance_of cfg m =
     (let i = setting m ''instance_name''; e = setting m ''environment''
      in (if i = [] then cfg_InstanceName cfg else i, if e = [] then cfg_Environment cfg else e))"

definition status :: "('g, sresponse) hm" where
  "status =
     hbnd (hcheck (\<lambda>_. problemResponse 500 ''DATABASE_ERROR'' ''Unable to read setup status'') (hstore UserCount)) (\<lambda>n.
     hbnd settings_or_nil (\<lambda>m. hbnd (hask se_cfg) (\<lambda>cfg.
     hret (respond 200 (case instance_of cfg m of (i, e) \<Rightarrow> PSetup (n = 0) i e)))))"

definition sessionCookie :: string where "sessionCookie = ''dv_session''"
definition csrfCookie :: string where "csrfCookie = ''dv_csrf''"

definition session_cookies :: "Config \<Rightarrow> string \<Rightarrow> string \<Rightarrow> cookie list" where
  "session_cookies cfg token csrf =
     [\<lparr>ck_Name = sessionCookie, ck_Value = token, ck_Path = ''/'', ck_HttpOnly = True, ck_Secure = cfg_CookieSecure cfg,
       ck_SameSiteStrict = True, ck_MaxAge = cfg_SessionTTL cfg div second\<rparr>,
      \<lparr>ck_Name = csrfCookie, ck_Value = csrf, ck_Path = ''/'', ck_HttpOnly = False, ck_Secure = cfg_CookieSecure cfg,
       ck_SameSiteStrict = True, ck_MaxAge = cfg_SessionTTL cfg div second\<rparr>]"

text \<open>An error of \<open>CreateSession\<close> is a panic.\<close>

definition issueSession :: "srequest \<Rightarrow> User \<Rightarrow> ('g, cookie list) hm" where
  "issueSession r u = hbnd (hask se_cfg) (\<lambda>cfg.
     hbnd (hcheck (\<lambda>_. recovered) (hstore (CreateSession (user_ID u) (clientIP r) (sq_UserAgent r) (nat (cfg_SessionTTL cfg))))) (\<lambda>(token, csrf).
     hret (session_cookies cfg token csrf)))"

text \<open>The wait in seconds, rounded up.\<close>

definition retry_seconds :: "int \<Rightarrow> nat" where
  "retry_seconds retryAfter = nat ((retryAfter + second - 1) div second)"

definition loginRateLimited :: "srequest \<Rightarrow> string \<Rightarrow> int \<Rightarrow> ('g, sresponse) hm" where
  "loginRateLimited r username retryAfter =
     (let seconds = retry_seconds retryAfter in
      hbnd (audit r None (anonymous username) ''LOGIN_FAILED'' ''auth'' [] ''denied'' ''rate limited''
        (Some (JObj [(''retry_after_seconds'', JNum (nat_digits seconds))]))) (\<lambda>_.
      hret (respond 429 (PRetry seconds))))"

text \<open>The provider of \<open>src/backend/internal/auth/auth.go\<close> passes the credentials on to the store.\<close>

abbreviation LocalProvider_Authenticate :: "string \<Rightarrow> string \<Rightarrow> User option dbm" where
  "LocalProvider_Authenticate u p \<equiv> Authenticate u p"

record login_in =
  li_Username :: string
  li_Password :: string

definition dec_login :: "login_in decoder" where
  "dec_login = dec_struct [(''username'', dec_at dec_string li_Username li_Username_update),
     (''password'', dec_at dec_string li_Password li_Password_update)]"

definition throttleKey :: "(string \<Rightarrow> string) \<Rightarrow> srequest \<Rightarrow> login_in \<Rightarrow> string" where
  "throttleKey lower r inp = lower (trimSpace (li_Username inp)) @ ''|'' @ clientIP r"

text \<open>The two ends of a login whose credentials have been looked at.\<close>

definition login_failed :: "srequest \<Rightarrow> login_in \<Rightarrow> string \<Rightarrow> ('g, sresponse) hm" where
  "login_failed r inp key =
     hbnd (hthrottle (\<lambda>l t. throttle_failed l t key)) (\<lambda>retryAfter.
     if retryAfter > 0 then loginRateLimited r (li_Username inp) retryAfter
     else hbnd (audit r None (anonymous (li_Username inp)) ''LOGIN_FAILED'' ''auth'' [] ''denied'' ''invalid credentials'' None) (\<lambda>_.
       hret (problemResponse 401 ''INVALID_CREDENTIALS'' ''Invalid username or password'')))"

definition login_succeeded :: "srequest \<Rightarrow> User \<Rightarrow> string \<Rightarrow> ('g, sresponse) hm" where
  "login_succeeded r u key =
     hbnd (hclear key) (\<lambda>_.
     hbnd (issueSession r u) (\<lambda>cookies.
     hbnd (audit r None u ''LOGIN_SUCCESS'' ''auth'' [] ''success'' [] None) (\<lambda>_.
     hret \<lparr>sp_status = 200, sp_body = PLogin u, sp_cookies = cookies\<rparr>)))"

definition login_attempt :: "srequest \<Rightarrow> login_in \<Rightarrow> string \<Rightarrow> ('g, sresponse) hm" where
  "login_attempt r inp key =
     hbnd (hthrottle (\<lambda>l t. throttle_blocked l t key)) (\<lambda>retryAfter.
     if retryAfter > 0 then loginRateLimited r (li_Username inp) retryAfter
     else hbnd (hstore (LocalProvider_Authenticate (li_Username inp) (li_Password inp))) (\<lambda>res.
       case res of
         Inl _ \<Rightarrow> login_failed r inp key
       | Inr None \<Rightarrow> login_failed r inp key
       | Inr (Some u) \<Rightarrow> login_succeeded r u key))"

definition login :: "srequest \<Rightarrow> ('g, sresponse) hm" where
  "login r = (case decode_body dec_login \<lparr>li_Username = [], li_Password = []\<rparr> (sq_body r) of
       None \<Rightarrow> hstop (problemResponse 400 ''INVALID_REQUEST'' ''Invalid credentials'')
     | Some inp \<Rightarrow>
         if length (li_Username inp) > 64 \<or> length (li_Password inp) > 1024
         then hstop (problemResponse 400 ''INVALID_REQUEST'' ''Invalid credentials'')
         else hbnd (hask se_ToLower) (\<lambda>lower. login_attempt r inp (throttleKey lower r inp)))"

definition me :: "Session \<Rightarrow> ('g, sresponse) hm" where
  "me sess = hret (respond 200 (PLogin (session_User sess)))"

definition clearCookies :: "bool \<Rightarrow> cookie list" where
  "clearCookies secure = map (\<lambda>name. \<lparr>ck_Name = name, ck_Value = [], ck_Path = ''/'', ck_HttpOnly = (name = sessionCookie),
     ck_Secure = secure, ck_SameSiteStrict = True, ck_MaxAge = -1\<rparr>) [sessionCookie, csrfCookie]"

definition logout :: "srequest \<Rightarrow> Session \<Rightarrow> ('g, sresponse) hm" where
  "logout r sess =
     hbnd (case sq_cookie r of None \<Rightarrow> hret () | Some value \<Rightarrow> hbnd (hstore (RevokeSession value)) (\<lambda>_. hret ())) (\<lambda>_.
     hbnd (hask se_cfg) (\<lambda>cfg.
     hbnd (audit r (Some sess) (session_User sess) ''LOGOUT'' ''auth'' [] ''success'' [] None) (\<lambda>_.
     hret \<lparr>sp_status = 204, sp_body = PEmpty, sp_cookies = clearCookies (cfg_CookieSecure cfg)\<rparr>)))"

end
