(* ===== verification/Server_Containers.thy ===== *)
theory Server_Containers
  imports Server_Base
begin

text \<open>
  The handlers on containers and terminals (\<open>src/backend/internal/api/server.go\<close>): every one of them
  inspects the container through the gateway and asks the policy engine before it goes on.
\<close>

section \<open>Overview and listing\<close>

text \<open>The decoders of the variables \<open>[]map[string]interface{}\<close> and \<open>map[string]interface{}\<close>.\<close>

definition dec_object :: "json \<Rightarrow> (string \<times> json) list option" where
  "dec_object v = (case v of JNull \<Rightarrow> Some [] | JObj xs \<Rightarrow> Some xs | _ \<Rightarrow> None)"

definition dec_objects :: "json \<Rightarrow> (string \<times> json) list list option" where
  "dec_objects v = (case v of JNull \<Rightarrow> Some [] | JArr vs \<Rightarrow> those (map dec_object vs) | _ \<Rightarrow> None)"

definition is_running :: "(string \<times> json) list \<Rightarrow> bool" where
  "is_running c \<longleftrightarrow> map_of c ''State'' = Some (JStr ''running'')"

definition is_unhealthy :: "(string \<times> json) list \<Rightarrow> bool" where
  "is_unhealthy c \<longleftrightarrow> (case as_obj (map_of c ''Health'') of None \<Rightarrow> False | Some h \<Rightarrow> map_of h ''Status'' = Some (JStr ''unhealthy''))"

definition overview :: "Session \<Rightarrow> ('g, sresponse) hm" where
  "overview sess =
     hbnd (hguard (rbac_Allowed (session_User sess) ''container.read'') (problemResponse 403 ''FORBIDDEN'' ''Permission denied'')) (\<lambda>_.
     hbnd (hcheck (\<lambda>_. problemResponse 502 ''GATEWAY_UNAVAILABLE'' ''Unable to query Docker Gateway'')
       (gw_JSON ''GET'' ''/v1/containers'' None dec_objects)) (\<lambda>cs.
     hbnd (gw_JSON ''GET'' ''/v1/info'' None dec_object) (\<lambda>host.
     hbnd settings_or_nil (\<lambda>m. hbnd (hask se_cfg) (\<lambda>cfg.
     let running = length (filter is_running cs) in
     hret (respond 200 (case instance_of cfg m of (i, e) \<Rightarrow>
       POverview i e running (length cs - running) (length (filter is_unhealthy cs)) cs
         (case host of Inl _ \<Rightarrow> [] | Inr h \<Rightarrow> h))))))))"

definition containers :: "('g, sresponse) hm" where
  "containers =
     hbnd (hcheck (\<lambda>_. problemResponse 502 ''GATEWAY_UNAVAILABLE'' ''Unable to list containers'')
       (gw_JSON ''GET'' ''/v1/containers'' None Some)) (\<lambda>out. hret (respond 200 (PJson out)))"

section \<open>Authorization of a request on a container\<close>

text \<open>The labels that are strings, as the loop over the map collects them.\<close>

definition string_labels :: "(string \<times> json) list \<Rightarrow> string \<rightharpoonup> string" where
  "string_labels lm k = (case map_of lm k of Some (JStr z) \<Rightarrow> Some z | _ \<Rightarrow> None)"

definition resource_of :: "(string \<times> json) list \<Rightarrow> Resource" where
  "resource_of v =
     (let labels = (case as_obj (map_of v ''Config'') of
            None \<Rightarrow> Map.empty
          | Some cfg \<Rightarrow> (case as_obj (map_of cfg ''Labels'') of None \<Rightarrow> Map.empty | Some lm \<Rightarrow> string_labels lm))
      in \<lparr>res_Name = trimPrefix (stringValue (map_of v ''Name'')) ''/'', res_Labels = labels,
          res_System = equalFold (label_value labels ''dockerview.system'') ''true'',
          res_Protected = equalFold (label_value labels ''dockerview.protected'') ''true''\<rparr>)"

definition inspectResource :: "string \<Rightarrow> ('g, ((string \<times> json) list \<times> Resource) go_result) hm" where
  "inspectResource cid =
     (if \<not> ValidateContainerID cid then hret (Inl (ErrNew ''invalid container''))
      else hbnd (gw_Raw (gatewayContainerPath cid ''/'')) (\<lambda>raw. hbnd (hask se_unmarshal) (\<lambda>unmarshal.
        hret (case raw of
            Inl err \<Rightarrow> Inl err
          | Inr text \<Rightarrow> (case Option.bind (unmarshal text) dec_object of
              None \<Rightarrow> Inl (ErrNew ''invalid gateway response'')
            | Some v \<Rightarrow> Inr (v, resource_of v))))))"

definition denied_action :: "string \<Rightarrow> string" where
  "denied_action action = (if action = ''container.exec'' then ''EXEC_DENIED''
     else toUpper (map (\<lambda>c. if c = CHR ''.'' then CHR ''_'' else c) action) @ ''_DENIED'')"

definition authorizeResourceWithAudit :: "srequest \<Rightarrow> Session \<Rightarrow> string \<Rightarrow> string \<Rightarrow> bool \<Rightarrow> ('g, (string \<times> json) list \<times> Resource) hm" where
  "authorizeResourceWithAudit r sess action cid auditDenied =
     hbnd (hcheck (\<lambda>_. problemResponse 404 ''CONTAINER_NOT_FOUND'' ''Container not found'') (inspectResource cid)) (\<lambda>(v, res).
     hbnd (hcheck (\<lambda>_. problemResponse 500 ''DATABASE_ERROR'' ''Unable to load policies'') (hstore ListPolicies)) (\<lambda>ps.
     let decision = Evaluate (session_User sess) action res ps in
     if \<not> Allowed decision then
       hbnd (if auditDenied then audit r (Some sess) (session_User sess) (denied_action action) ''container'' cid ''denied'' (Reason decision) None
             else hret ()) (\<lambda>_. hstop (problemResponse 403 ''POLICY_DENIED'' (Reason decision)))
     else hret (v, res)))"

definition authorizeResource :: "srequest \<Rightarrow> Session \<Rightarrow> string \<Rightarrow> string \<Rightarrow> ('g, (string \<times> json) list \<times> Resource) hm" where
  "authorizeResource r sess action cid = authorizeResourceWithAudit r sess action cid True"

section \<open>Reading from a container\<close>

text \<open>\<open>maskInspect\<close> on the top-level map.\<close>

definition mask_document :: "(string \<times> json) list \<Rightarrow> (string \<times> json) list" where
  "mask_document v = (case maskInspect (JObj v) of JObj w \<Rightarrow> w | _ \<Rightarrow> [])"

text \<open>The part of \<open>container\<close> after the authorization.\<close>

definition show_container :: "srequest \<Rightarrow> Session \<Rightarrow> (string \<times> json) list \<Rightarrow> Resource \<Rightarrow> ('g, sresponse) hm" where
  "show_container r sess v res =
     (let cid = sq_param r; user = session_User sess;
          reveal = (sq_query r ''reveal'' = ''true''); canViewSecrets = rbac_Allowed user ''secret.view'' in
      hbnd (hguard (\<not> (reveal \<and> \<not> canViewSecrets))
        (problemResponse 403 ''SECRET_PERMISSION_REQUIRED'' ''Permission secret.view is required'')) (\<lambda>_.
      hbnd settings_or_nil (\<lambda>m. hbnd (hask (\<lambda>se. (se_cfg se, se_sprint se))) (\<lambda>(cfg, sprint).
      let masking = (setting m ''secret_masking'' \<noteq> ''false'' \<and> cfg_SecretMasking cfg) in
      hbnd (if reveal then audit r (Some sess) user ''SECRET_REVEAL'' ''container'' cid ''success'' [] None else hret ()) (\<lambda>_.
      let v = (if reveal then v else if masking \<or> \<not> canViewSecrets then mask_document v else v);
          risk = riskFromInspect sprint v (res_System res) in
      hbnd (if \<not> reveal then audit r (Some sess) user ''CONTAINER_INSPECT'' ''container'' cid ''success'' [] None else hret ()) (\<lambda>_.
      hret (respond 200 (PInspect v risk (res_System res) (res_Protected res)))))))))"

definition container :: "srequest \<Rightarrow> Session \<Rightarrow> ('g, sresponse) hm" where
  "container r sess =
     hbnd (authorizeResource r sess ''container.inspect'' (sq_param r)) (\<lambda>(v, res). show_container r sess v res)"

definition containerRisk :: "srequest \<Rightarrow> Session \<Rightarrow> ('g, sresponse) hm" where
  "containerRisk r sess =
     hbnd (authorizeResourceWithAudit r sess ''container.inspect'' (sq_param r) False) (\<lambda>(v, res).
     hbnd (hask se_sprint) (\<lambda>sprint. hret (respond 200 (PRisk (riskFromInspect sprint v (res_System res))))))"

definition stats :: "srequest \<Rightarrow> Session \<Rightarrow> ('g, sresponse) hm" where
  "stats r sess =
     (let cid = sq_param r in
      hbnd (authorizeResource r sess ''container.stats'' cid) (\<lambda>_.
      hbnd (hcheck (\<lambda>_. problemResponse 502 ''STATS_UNAVAILABLE'' ''Container stats unavailable'')
        (gw_Raw (gatewayContainerPath cid ''/stats''))) (\<lambda>raw.
      hbnd (hask se_unmarshal) (\<lambda>unmarshal. case unmarshal raw of
          None \<Rightarrow> hstop (problemResponse 502 ''INVALID_GATEWAY_RESPONSE'' ''Invalid stats response'')
        | Some v \<Rightarrow> hret (respond 200 (PJson v))))))"

definition log_tail :: "srequest \<Rightarrow> ('g, int) hm" where
  "log_tail r = hbnd defaultLogTail (\<lambda>d. hret (ParseBoundedInt (sq_query r ''tail'') d 1 5000))"

definition logs :: "srequest \<Rightarrow> Session \<Rightarrow> ('g, sresponse) hm" where
  "logs r sess =
     (let cid = sq_param r in
      hbnd (authorizeResource r sess ''container.logs'' cid) (\<lambda>_.
      hbnd (log_tail r) (\<lambda>tail.
      hbnd (hcheck (\<lambda>_. problemResponse 502 ''LOGS_UNAVAILABLE'' ''Container logs unavailable'')
        (gw_Stream (logsPath cid tail False))) (\<lambda>data.
      hbnd (audit r (Some sess) (session_User sess) ''CONTAINER_LOGS'' ''container'' cid ''success'' [] (Some (JObj [(''tail'', JNum (itoa tail))]))) (\<lambda>_.
      hret (respond 200 (PLogs (take maxResponse data))))))))"

text \<open>The stream is passed on as server-sent events, chunk by chunk; the chunks together are the stream.\<close>

definition logsStream :: "srequest \<Rightarrow> Session \<Rightarrow> ('g, sresponse) hm" where
  "logsStream r sess =
     (let cid = sq_param r in
      hbnd (authorizeResource r sess ''container.logs'' cid) (\<lambda>_.
      hbnd (log_tail r) (\<lambda>tail.
      hbnd (hcheck (\<lambda>_. problemResponse 502 ''LOGS_UNAVAILABLE'' ''Container logs unavailable'')
        (gw_Stream (logsPath cid tail True))) (\<lambda>data.
      hbnd (audit r (Some sess) (session_User sess) ''CONTAINER_LOGS'' ''container'' cid ''success'' ''live stream'' None) (\<lambda>_.
      hret (respond 200 (PEvents data)))))))"

section \<open>Acting on a container\<close>

definition restart :: "srequest \<Rightarrow> Session \<Rightarrow> ('g, sresponse) hm" where
  "restart r sess =
     (let cid = sq_param r; user = session_User sess in
      hbnd (authorizeResource r sess ''container.restart'' cid) (\<lambda>_.
      hbnd (gw_JSON ''POST'' (gatewayContainerPath cid ''/restart'') (Some (JObj [])) Some) (\<lambda>res.
      case res of
        Inl _ \<Rightarrow>
          hbnd (audit r (Some sess) user ''CONTAINER_RESTART'' ''container'' cid ''failed'' ''gateway rejected'' None) (\<lambda>_.
          hstop (problemResponse 502 ''RESTART_FAILED'' ''Container restart failed''))
      | Inr out \<Rightarrow>
          hbnd (audit r (Some sess) user ''CONTAINER_RESTART'' ''container'' cid ''success'' [] None) (\<lambda>_.
          hret (respond 202 (PJson out))))))"

definition createTerminal :: "srequest \<Rightarrow> Session \<Rightarrow> ('g, sresponse) hm" where
  "createTerminal r sess =
     (let u = session_User sess; cid = sq_param r in
      hbnd (hterminalLimit (user_ID u)) (\<lambda>ok.
      hbnd (hguard ok (problemResponse 429 ''RATE_LIMITED'' ''Too many terminal sessions'')) (\<lambda>_.
      hbnd (authorizeResource r sess ''container.exec'' cid) (\<lambda>(v, res).
      hbnd (hguard (\<not> (res_System res \<or> res_Protected res))
        (problemResponse 403 ''PROTECTED_CONTAINER'' ''Protected containers cannot be accessed'')) (\<lambda>_.
      case decode_body (dec_struct [(''shell'', dec_string)]) [] (sq_body r) of
        None \<Rightarrow> hstop (problemResponse 400 ''INVALID_REQUEST'' ''Invalid request'')
      | Some wanted \<Rightarrow> (case validateShell wanted of
          None \<Rightarrow> hstop (problemResponse 400 ''INVALID_SHELL'' ''Invalid shell selection'')
        | Some shell \<Rightarrow>
            hbnd terminalIdle (\<lambda>idle.
            hbnd (hcheck (\<lambda>_. problemResponse 500 ''TERMINAL_FAILED'' ''Unable to create terminal session'')
              (hstore (CreateTerminal (user_ID u) cid shell (nat idle)))) (\<lambda>x.
            hbnd (audit r (Some sess) u ''EXEC_START'' ''container'' cid ''success'' []
              (Some (JObj [(''shell'', JStr shell), (''terminal_session'', JStr (term_ID x))]))) (\<lambda>_.
            hret (respond 201 (PTerminal (term_ID x) shell (term_ExpiresAt x)))))))))))) "

section \<open>An open terminal\<close>

definition maxFrame :: nat where "maxFrame = 16 * 1024"

text \<open>
  What the watchdog checks on a tick that is not too late: the session still resolves, the container is
  there and the policy engine still allows a terminal on it.
\<close>

definition still_allowed :: "srequest \<Rightarrow> string \<Rightarrow> ('g, bool) hm" where
  "still_allowed r cid = (case sq_cookie r of
       None \<Rightarrow> hret False
     | Some value \<Rightarrow>
         hbnd (hstore (ResolveSession value)) (\<lambda>current. case current of
             Inl _ \<Rightarrow> hret False
           | Inr s \<Rightarrow>
               hbnd (inspectResource cid) (\<lambda>insp. hbnd (hstore ListPolicies) (\<lambda>ps.
               hret (case (insp, ps) of
                   (Inr (_, res), Inr l) \<Rightarrow> Allowed (Evaluate (session_User s) ''container.exec'' res l)
                 | _ \<Rightarrow> False)))))"

definition watchdog_tick :: "srequest \<Rightarrow> string \<Rightarrow> int \<Rightarrow> nat \<Rightarrow> ('g, bool) hm" where
  "watchdog_tick r cid idle seen =
     hbnd hnow (\<lambda>t. if time_sub t seen \<ge> idle then hret False else still_allowed r cid)"

text \<open>
  The two copying loops and the watchdog, one event after the other, until one of them ends (the list
  of events ends when a connection is closed).  The value is the time of the last activity.
\<close>

fun relay :: "srequest \<Rightarrow> string \<Rightarrow> int \<Rightarrow> term_event list \<Rightarrow> nat \<Rightarrow> ('g, nat) hm" where
  "relay r cid idle [] seen = hret seen"
| "relay r cid idle (FromBrowser typ msg # evs) seen =
     hbnd hnow (\<lambda>t.
     if length msg > maxFrame then hret t
     else hbnd (hgateway (\<lambda>se. se_send se typ msg)) (\<lambda>res. case res of Inl _ \<Rightarrow> hret t | Inr _ \<Rightarrow> relay r cid idle evs t))"
| "relay r cid idle (FromGateway typ msg taken # evs) seen =
     hbnd hnow (\<lambda>t. if length msg > maxFrame \<or> \<not> taken then hret t else relay r cid idle evs t)"
| "relay r cid idle (WatchdogTick # evs) seen =
     hbnd (watchdog_tick r cid idle seen) (\<lambda>valid. if valid then relay r cid idle evs seen else hret seen)"

text \<open>The terminal from the moment both connections are up.\<close>

definition run_terminal :: "srequest \<Rightarrow> Session \<Rightarrow> TerminalSession \<Rightarrow> string \<Rightarrow> ('g, sresponse) hm" where
  "run_terminal r sess x shell =
     hbnd (hstore (TouchTerminal (term_ID x) ''attached'')) (\<lambda>_.
     hbnd hnow (\<lambda>start. hbnd hnow (\<lambda>seen.
     hbnd terminalIdle (\<lambda>idle.
     hbnd (relay r (term_ContainerID x) idle (sq_events r) seen) (\<lambda>_.
     hbnd (hstore (TouchTerminal (term_ID x) ''ended'')) (\<lambda>_.
     hbnd hnow (\<lambda>t.
     hbnd (audit r (Some sess) (session_User sess) ''EXEC_END'' ''container'' (term_ContainerID x) ''success'' []
       (Some (JObj [(''duration_seconds'', JNum (itoa (time_sub t start div second))), (''shell'', JStr shell),
          (''terminal_session'', JStr (term_ID x))]))) (\<lambda>_.
     hret (respond 101 PUpgraded)))))))))"

definition terminalWS :: "srequest \<Rightarrow> Session \<Rightarrow> ('g, sresponse) hm" where
  "terminalWS r sess =
     hbnd (hask (\<lambda>se. (se_cfg se, TokenHash (sha256 (se_env se)) (sq_csrf_query r)))) (\<lambda>(cfg, actual).
     hbnd (hguard (originAllowed cfg r) (problemResponse 403 ''ORIGIN_INVALID'' ''Origin is not allowed'')) (\<lambda>_.
     hbnd (hguard (constantTimeCompare actual (session_CSRFHash sess) = 1)
       (problemResponse 403 ''CSRF_INVALID'' ''CSRF validation failed'')) (\<lambda>_.
     hbnd (hcheck (\<lambda>_. problemResponse 404 ''TERMINAL_NOT_FOUND'' ''Terminal session invalid or expired'')
       (hstore (GetTerminal (sq_param r) (user_ID (session_User sess))))) (\<lambda>x.
     hbnd (authorizeResource r sess ''container.exec'' (term_ContainerID x)) (\<lambda>_.
     hbnd (hgateway (\<lambda>se. gc_CreateExec (se_http se) (se_decode se) (gateway_client se) (term_ContainerID x) (term_Shell x))) (\<lambda>res.
     case res of
       Inl _ \<Rightarrow>
         hbnd (hstore (TouchTerminal (term_ID x) ''ended'')) (\<lambda>_.
         hstop (problemResponse 502 ''EXEC_FAILED'' ''Unable to create Docker exec''))
     | Inr (ticket, shell) \<Rightarrow>
         (case sq_refusal r of
           Some st \<Rightarrow> hstop (respond st PEmpty)
         | None \<Rightarrow> hbnd (hgateway (\<lambda>se. gc_DialExec (se_dial se) (gateway_client se) ticket)) (\<lambda>res. case res of
             Inl _ \<Rightarrow>
               hbnd (hstore (TouchTerminal (term_ID x) ''ended'')) (\<lambda>_. hstop (respond 101 PUpgraded))
           | Inr _ \<Rightarrow> run_terminal r sess x shell))))))))"

end
