(* ===== verification/Server_Admin.thy ===== *)
theory Server_Admin
  imports Server_Base
begin

text \<open>
  The administration handlers (\<open>src/backend/internal/api/server.go\<close>): users, roles, permissions,
  policies, the audit trail and the settings.
\<close>

section \<open>Users\<close>

definition users :: "('g, sresponse) hm" where
  "users = hbnd (hcheck (\<lambda>_. problemResponse 500 ''DATABASE_ERROR'' ''Unable to list users'') (hstore ListUsers)) (\<lambda>v.
     hret (respond 200 (PUsers v)))"

record create_in =
  ci_Username :: string
  ci_Password :: string
  ci_Roles :: "string list"
  ci_Enabled :: "bool option"

definition dec_create :: "create_in decoder" where
  "dec_create = dec_struct [(''username'', dec_at dec_string ci_Username ci_Username_update),
     (''password'', dec_at dec_string ci_Password ci_Password_update),
     (''roles'', dec_at (dec_list [] dec_string) ci_Roles ci_Roles_update),
     (''enabled'', dec_at (dec_ptr False dec_bool) ci_Enabled ci_Enabled_update)]"

text \<open>A user without roles has the nil slice, which is \<open>null\<close> in the metadata of the audit event.\<close>

definition createUser :: "srequest \<Rightarrow> Session \<Rightarrow> ('g, sresponse) hm" where
  "createUser r sess =
     (case decode_body dec_create \<lparr>ci_Username = [], ci_Password = [], ci_Roles = [], ci_Enabled = None\<rparr> (sq_body r) of
        None \<Rightarrow> hstop (problemResponse 400 ''INVALID_REQUEST'' ''Invalid request'')
      | Some inp \<Rightarrow>
          let enabled = (case ci_Enabled inp of None \<Rightarrow> True | Some b \<Rightarrow> b) in
          hbnd (hcheck (\<lambda>err. respond 400 (PError ''USER_CREATE_FAILED'' err))
            (hstore (CreateUser (ci_Username inp) (ci_Password inp) (ci_Roles inp) enabled))) (\<lambda>u.
          hbnd (audit r (Some sess) (session_User sess) ''USER_CREATE'' ''user'' (user_ID u) ''success'' []
            (Some (JObj [(''roles'', if user_Roles u = [] then JNull else JArr (map JStr (user_Roles u))), (''username'', JStr (user_Username u))]))) (\<lambda>_.
          hret (respond 201 (PUser u)))))"

record update_in =
  ui_Enabled :: "bool option"
  ui_Password :: string
  ui_Roles :: "string list option"

definition dec_update :: "update_in decoder" where
  "dec_update = dec_struct [(''enabled'', dec_at (dec_ptr False dec_bool) ui_Enabled ui_Enabled_update),
     (''password'', dec_at dec_string ui_Password ui_Password_update),
     (''roles'', dec_at (dec_slice [] dec_string) ui_Roles ui_Roles_update)]"

definition update_action :: "update_in \<Rightarrow> string" where
  "update_action inp =
     (if ui_Password inp \<noteq> [] then ''USER_PASSWORD_RESET''
      else if ui_Enabled inp = Some True then ''USER_ENABLE''
      else if ui_Enabled inp \<noteq> None then ''USER_DISABLE''
      else ''USER_UPDATE'')"

definition update_problem :: "go_error \<Rightarrow> sresponse" where
  "update_problem err = (if err = ErrLastAdmin then respond 409 (PError ''LAST_ADMIN'' err)
     else respond 400 (PError ''USER_UPDATE_FAILED'' err))"

definition updateUser :: "srequest \<Rightarrow> Session \<Rightarrow> ('g, sresponse) hm" where
  "updateUser r sess =
     (let uid = sq_param r in
      hbnd (hcheck (\<lambda>_. problemResponse 404 ''USER_NOT_FOUND'' ''User not found'') (hstore (GetUser uid))) (\<lambda>_.
      case decode_body dec_update \<lparr>ui_Enabled = None, ui_Password = [], ui_Roles = None\<rparr> (sq_body r) of
        None \<Rightarrow> hstop (problemResponse 400 ''INVALID_REQUEST'' ''Invalid request'')
      | Some inp \<Rightarrow>
          hbnd (if ui_Password inp \<noteq> [] then hpasswordLimit (user_ID (session_User sess)) else hret True) (\<lambda>ok.
          hbnd (hguard ok (problemResponse 429 ''RATE_LIMITED'' ''Too many password resets'')) (\<lambda>_.
          hbnd (hcheck update_problem (hstore (UpdateUser uid (ui_Enabled inp) (ui_Roles inp) (ui_Password inp)))) (\<lambda>_.
          hbnd (audit r (Some sess) (session_User sess) (update_action inp) ''user'' uid ''success'' [] None) (\<lambda>_.
          hbnd (hstore (GetUser uid)) (\<lambda>u.
          hret (respond 200 (PReread (case u of Inl _ \<Rightarrow> None | Inr x \<Rightarrow> Some x))))))))))"

definition invalidateSessions :: "srequest \<Rightarrow> Session \<Rightarrow> ('g, sresponse) hm" where
  "invalidateSessions r sess =
     hbnd (hcheck (\<lambda>_. problemResponse 500 ''SESSION_INVALIDATE_FAILED'' ''Unable to invalidate sessions'')
       (hstore (RevokeUserSessions (sq_param r)))) (\<lambda>_.
     hbnd (audit r (Some sess) (session_User sess) ''USER_SESSIONS_INVALIDATE'' ''user'' (sq_param r) ''success'' [] None) (\<lambda>_.
     hret (respond 204 PEmpty)))"

section \<open>Roles and permissions\<close>

definition roles :: "('g, sresponse) hm" where
  "roles = hbnd (hcheck (\<lambda>_. problemResponse 500 ''DATABASE_ERROR'' ''Unable to list roles'') (hstore ListRoles)) (\<lambda>v.
     hret (respond 200 (PRoles v)))"

definition dec_role :: "Role decoder" where
  "dec_role = dec_struct [(''id'', dec_at dec_string role_ID role_ID_update),
     (''name'', dec_at dec_string role_Name role_Name_update),
     (''description'', dec_at dec_string role_Description role_Description_update),
     (''builtin'', dec_at dec_bool role_Builtin role_Builtin_update),
     (''permissions'', dec_at (dec_list [] dec_string) role_Permissions role_Permissions_update)]"

definition zero_role :: Role where
  "zero_role = \<lparr>role_ID = [], role_Name = [], role_Description = [], role_Builtin = False, role_Permissions = []\<rparr>"

definition saveRole :: "srequest \<Rightarrow> Session \<Rightarrow> ('g, sresponse) hm" where
  "saveRole r sess =
     (case decode_body dec_role zero_role (sq_body r) of
        None \<Rightarrow> hstop (problemResponse 400 ''INVALID_REQUEST'' ''Invalid role'')
      | Some role \<Rightarrow>
          let role = (if sq_param r \<noteq> [] then role\<lparr>role_ID := sq_param r\<rparr> else role) in
          hbnd (hcheck (\<lambda>err. respond 400 (PError ''ROLE_SAVE_FAILED'' err)) (hstore (SaveRole role))) (\<lambda>saved.
          hbnd (audit r (Some sess) (session_User sess) (if sq_param r \<noteq> [] then ''ROLE_UPDATE'' else ''ROLE_CREATE'')
            ''role'' (role_ID saved) ''success'' [] None) (\<lambda>_.
          hret (respond 200 (PRole saved)))))"

definition deleteRole :: "srequest \<Rightarrow> Session \<Rightarrow> ('g, sresponse) hm" where
  "deleteRole r sess =
     hbnd (hcheck (\<lambda>err. respond 409 (PError ''ROLE_DELETE_FAILED'' err)) (hstore (DeleteRole (sq_param r)))) (\<lambda>_.
     hbnd (audit r (Some sess) (session_User sess) ''ROLE_DELETE'' ''role'' (sq_param r) ''success'' [] None) (\<lambda>_.
     hret (respond 204 PEmpty)))"

definition permissions :: "('g, sresponse) hm" where
  "permissions = hbnd (hcheck (\<lambda>_. problemResponse 500 ''DATABASE_ERROR'' ''Unable to list permissions'') (hstore ListPermissions)) (\<lambda>v.
     hret (respond 200 (PPermissions v)))"

section \<open>Policies\<close>

definition policyList :: "('g, sresponse) hm" where
  "policyList = hbnd (hcheck (\<lambda>_. problemResponse 500 ''DATABASE_ERROR'' ''Unable to list policies'') (hstore ListPolicies)) (\<lambda>v.
     hret (respond 200 (PPolicies v)))"

definition zero_rule :: PolicyRule where
  "zero_rule = \<lparr>rule_ID = [], rule_PolicyID = [], rule_Effect = [], rule_Action = [], rule_SubjectRoleID = [], rule_MatchType = [],
     rule_MatchKey = [], rule_MatchValue = [], rule_Priority = 0\<rparr>"

definition dec_rule :: "PolicyRule decoder" where
  "dec_rule = dec_struct [(''id'', dec_at dec_string rule_ID rule_ID_update),
     (''policyid'', dec_at dec_string rule_PolicyID rule_PolicyID_update),
     (''effect'', dec_at dec_string rule_Effect rule_Effect_update),
     (''action'', dec_at dec_string rule_Action rule_Action_update),
     (''subjectroleid'', dec_at dec_string rule_SubjectRoleID rule_SubjectRoleID_update),
     (''matchtype'', dec_at dec_string rule_MatchType rule_MatchType_update),
     (''matchkey'', dec_at dec_string rule_MatchKey rule_MatchKey_update),
     (''matchvalue'', dec_at dec_string rule_MatchValue rule_MatchValue_update),
     (''priority'', dec_at dec_int rule_Priority rule_Priority_update)]"

definition dec_policy :: "Policy decoder" where
  "dec_policy = dec_struct [(''id'', dec_at dec_string policy_ID policy_ID_update),
     (''name'', dec_at dec_string policy_Name policy_Name_update),
     (''description'', dec_at dec_string policy_Description policy_Description_update),
     (''enabled'', dec_at dec_bool policy_Enabled policy_Enabled_update),
     (''rules'', dec_at (dec_list zero_rule dec_rule) policy_Rules policy_Rules_update)]"

definition zero_policy :: Policy where
  "zero_policy = \<lparr>policy_ID = [], policy_Name = [], policy_Description = [], policy_Enabled = False, policy_Rules = []\<rparr>"

definition savePolicy :: "srequest \<Rightarrow> Session \<Rightarrow> ('g, sresponse) hm" where
  "savePolicy r sess =
     (case decode_body dec_policy zero_policy (sq_body r) of
        None \<Rightarrow> hstop (problemResponse 400 ''INVALID_REQUEST'' ''Invalid policy'')
      | Some p \<Rightarrow>
          let p = (if sq_param r \<noteq> [] then p\<lparr>policy_ID := sq_param r\<rparr> else p) in
          hbnd (hcheck (\<lambda>err. respond 400 (PError ''POLICY_SAVE_FAILED'' err)) (hstore (SavePolicy p))) (\<lambda>saved.
          hbnd (audit r (Some sess) (session_User sess) (if sq_param r \<noteq> [] then ''POLICY_UPDATE'' else ''POLICY_CREATE'')
            ''policy'' (policy_ID saved) ''success'' [] None) (\<lambda>_.
          hret (respond 200 (PPolicy saved)))))"

definition deletePolicy :: "srequest \<Rightarrow> Session \<Rightarrow> ('g, sresponse) hm" where
  "deletePolicy r sess =
     hbnd (hcheck (\<lambda>_. problemResponse 500 ''POLICY_DELETE_FAILED'' ''Unable to delete policy'') (hstore (DeletePolicy (sq_param r)))) (\<lambda>_.
     hbnd (audit r (Some sess) (session_User sess) ''POLICY_DELETE'' ''policy'' (sq_param r) ''success'' [] None) (\<lambda>_.
     hret (respond 204 PEmpty)))"

section \<open>Audit trail and settings\<close>

definition auditList :: "srequest \<Rightarrow> ('g, sresponse) hm" where
  "auditList r =
     hbnd (hcheck (\<lambda>_. problemResponse 500 ''DATABASE_ERROR'' ''Unable to list audit events'')
       (hstore (ListAudit (ParseBoundedInt (sq_query r ''limit'') 200 1 1000)))) (\<lambda>v.
     hret (respond 200 (PAudit v)))"

definition settings :: "('g, sresponse) hm" where
  "settings = hbnd (hcheck (\<lambda>_. problemResponse 500 ''DATABASE_ERROR'' ''Unable to read settings'') (hstore Settings)) (\<lambda>v.
     hret (respond 200 (PSettings v)))"

text \<open>
  Decode into a \<open>map[string]string\<close>, as the list of its entries; the loops over the map visit them in
  this order.
\<close>

fun dec_entries :: "(string \<times> json) list \<Rightarrow> (string \<times> string) list \<Rightarrow> (string \<times> string) list option" where
  "dec_entries [] m = Some m"
| "dec_entries ((k, v) # xs) m = (case dec_string v [] of None \<Rightarrow> None | Some t \<Rightarrow> dec_entries xs (AList.update k t m))"

definition dec_smap :: "(string \<times> string) list decoder" where
  "dec_smap v old = (case v of JNull \<Rightarrow> Some [] | JObj xs \<Rightarrow> dec_entries xs old | _ \<Rightarrow> None)"

definition timeout_ok :: "(nat \<Rightarrow> nat \<Rightarrow> nat \<Rightarrow> nat) \<Rightarrow> (string \<times> string) list \<Rightarrow> bool" where
  "timeout_ok fmul v = (case map_of v ''terminal_idle_timeout'' of
       None \<Rightarrow> True
     | Some raw \<Rightarrow> (case parseDuration fmul raw of None \<Rightarrow> False | Some d \<Rightarrow> \<not> (d < 60 * second \<or> d > 8 * 3600 * second)))"

definition updateSettings :: "srequest \<Rightarrow> Session \<Rightarrow> ('g, sresponse) hm" where
  "updateSettings r sess =
     (case decode_body dec_smap [] (sq_body r) of
        None \<Rightarrow> hstop (problemResponse 400 ''INVALID_REQUEST'' ''Invalid settings'')
      | Some v \<Rightarrow>
          hbnd (hask se_fmul) (\<lambda>fmul.
          hbnd (hguard (timeout_ok fmul v) (problemResponse 400 ''INVALID_TIMEOUT'' ''Terminal timeout must be between 1m and 8h'')) (\<lambda>_.
          hbnd (hcheck (\<lambda>err. respond 400 (PError ''SETTINGS_UPDATE_FAILED'' err)) (hstore (UpdateSettings v))) (\<lambda>_.
          hbnd (audit r (Some sess) (session_User sess) ''SETTINGS_UPDATE'' ''settings'' ''global'' ''success'' []
            (Some (JObj [(''keys'', JArr (map (JStr \<circ> fst) v))]))) (\<lambda>_.
          hret (respond 200 (PUpdated v)))))))"

end
