(* ===== verification/Server.thy ===== *)
theory Server
  imports Server_Containers Server_Admin
begin

text \<open>
  The route table of the API server: the routes without a session and those behind \<open>requireSession\<close>
  (\<open>src/backend/internal/api/server.go\<close>, \<open>Router\<close>): which middleware
  guards which handler.
\<close>

datatype proute = GHealth | GReady | GStatus | PLoginRoute

datatype sroute =
    GMe | PLogout | GOverview | GContainers | GContainer | GRisk | GStats
  | GLogs | GLogsStream | PRestart | PTerminalRoute | GTerminalWS | GUsers | PUsersRoute | PutUser | PInvalidate | GRoles
  | PRolesRoute | PutRole | DeleteRoleRoute | GPermissions | GPolicies | PPoliciesRoute | PutPolicy | DeletePolicyRoute
  | GAudit | GSettings | PutSettings

text \<open>The guards of a route behind \<open>requireSession\<close>: the permission and whether the CSRF token is checked.\<close>

definition route_guards :: "sroute \<Rightarrow> string option \<times> bool" where
  "route_guards route = (case route of
       PLogout \<Rightarrow> (None, True)
     | GContainers \<Rightarrow> (Some ''container.read'', False)
     | GContainer \<Rightarrow> (Some ''container.inspect'', False)
     | GRisk \<Rightarrow> (Some ''container.inspect'', False)
     | GStats \<Rightarrow> (Some ''container.stats'', False)
     | GLogs \<Rightarrow> (Some ''container.logs'', False)
     | GLogsStream \<Rightarrow> (Some ''container.logs'', False)
     | PRestart \<Rightarrow> (Some ''container.restart'', True)
     | PTerminalRoute \<Rightarrow> (Some ''container.exec'', True)
     | GUsers \<Rightarrow> (Some ''user.read'', False)
     | PUsersRoute \<Rightarrow> (Some ''user.manage'', True)
     | PutUser \<Rightarrow> (Some ''user.manage'', True)
     | PInvalidate \<Rightarrow> (Some ''user.manage'', True)
     | GRoles \<Rightarrow> (Some ''role.read'', False)
     | PRolesRoute \<Rightarrow> (Some ''role.manage'', True)
     | PutRole \<Rightarrow> (Some ''role.manage'', True)
     | DeleteRoleRoute \<Rightarrow> (Some ''role.manage'', True)
     | GPermissions \<Rightarrow> (Some ''permission.read'', False)
     | GPolicies \<Rightarrow> (Some ''policy.read'', False)
     | PPoliciesRoute \<Rightarrow> (Some ''policy.manage'', True)
     | PutPolicy \<Rightarrow> (Some ''policy.manage'', True)
     | DeletePolicyRoute \<Rightarrow> (Some ''policy.manage'', True)
     | GAudit \<Rightarrow> (Some ''audit.read'', False)
     | GSettings \<Rightarrow> (Some ''settings.read'', False)
     | PutSettings \<Rightarrow> (Some ''settings.manage'', True)
     | _ \<Rightarrow> (None, False))"

definition handler :: "sroute \<Rightarrow> srequest \<Rightarrow> Session \<Rightarrow> ('g, sresponse) hm" where
  "handler route r sess = (case route of
       GMe \<Rightarrow> me sess
     | PLogout \<Rightarrow> logout r sess
     | GOverview \<Rightarrow> overview sess
     | GContainers \<Rightarrow> containers
     | GContainer \<Rightarrow> container r sess
     | GRisk \<Rightarrow> containerRisk r sess
     | GStats \<Rightarrow> stats r sess
     | GLogs \<Rightarrow> logs r sess
     | GLogsStream \<Rightarrow> logsStream r sess
     | PRestart \<Rightarrow> restart r sess
     | PTerminalRoute \<Rightarrow> createTerminal r sess
     | GTerminalWS \<Rightarrow> terminalWS r sess
     | GUsers \<Rightarrow> users
     | PUsersRoute \<Rightarrow> createUser r sess
     | PutUser \<Rightarrow> updateUser r sess
     | PInvalidate \<Rightarrow> invalidateSessions r sess
     | GRoles \<Rightarrow> roles
     | PRolesRoute \<Rightarrow> saveRole (r\<lparr>sq_param := []\<rparr>) sess
     | PutRole \<Rightarrow> saveRole r sess
     | DeleteRoleRoute \<Rightarrow> deleteRole r sess
     | GPermissions \<Rightarrow> permissions
     | GPolicies \<Rightarrow> policyList
     | PPoliciesRoute \<Rightarrow> savePolicy (r\<lparr>sq_param := []\<rparr>) sess
     | PutPolicy \<Rightarrow> savePolicy r sess
     | DeletePolicyRoute \<Rightarrow> deletePolicy r sess
     | GAudit \<Rightarrow> auditList r
     | GSettings \<Rightarrow> settings
     | PutSettings \<Rightarrow> updateSettings r sess)"

text \<open>\<open>requirePermission\<close> comes before \<open>requireCSRF\<close> in every chain of the table.\<close>

definition guarded_handler :: "sroute \<Rightarrow> srequest \<Rightarrow> Session \<Rightarrow> ('g, sresponse) hm" where
  "guarded_handler route r sess =
     (case route_guards route of (perm, csrf) \<Rightarrow>
        let inner = (if csrf then requireCSRF r sess (handler route r sess) else handler route r sess)
        in case perm of None \<Rightarrow> inner | Some p \<Rightarrow> requirePermission p sess inner)"

definition public_handler :: "proute \<Rightarrow> srequest \<Rightarrow> ('g, sresponse) hm" where
  "public_handler route r = (case route of
       GHealth \<Rightarrow> hret (respond 200 (PStatus ''ok''))
     | GReady \<Rightarrow> ready
     | GStatus \<Rightarrow> status
     | PLoginRoute \<Rightarrow> login r)"

datatype route = Public proute | Protected sroute

definition Handle :: "'g senv \<Rightarrow> route \<Rightarrow> srequest \<Rightarrow> 'g server \<Rightarrow> sresponse \<times> 'g server" where
  "Handle se route r sv = finish (case route of
       Public p \<Rightarrow> public_handler p r
     | Protected p \<Rightarrow> requireSession r (\<lambda>sess. guarded_handler p r sess)) se sv"

end
