(* ===== verification/Server_Laws.thy ===== *)
theory Server_Laws
  imports Server
begin

text \<open>
  What a request can do to the state of the server.  The interface \<open>server_relation\<close> carries a relation
  between states through the constructs of the handlers; \<open>server_interface\<close> adds what each kind of
  elementary step may do, and every handler keeps the relation.  It is interpreted for the database
  (a request is a sequence of store operations) and for the gateway (a request is a sequence of
  admissible gateway requests).
\<close>

section \<open>The interface\<close>

definition handles :: "('g senv \<Rightarrow> 'g server \<Rightarrow> 'g server \<Rightarrow> bool) \<Rightarrow> ('g, 'a) hm \<Rightarrow> bool" where
  "handles R m \<longleftrightarrow> (\<forall>se sv. R se sv (snd (m se sv)))"

definition sv_db :: "'g server \<Rightarrow> db" where
  "sv_db sv = snd (sv_store sv)"

text \<open>A use of the store: one of its operations, or an interaction that leaves the database alone.\<close>

definition store_op :: "'a dbm \<Rightarrow> bool" where
  "store_op m \<longleftrightarrow> (\<forall>d d'. runs m d d' \<longrightarrow> store_step\<^sup>*\<^sup>* d d')"

lemma store_op_ops:
  "store_op UserCount" "store_op (CreateUser u p rs b)" "store_op (Authenticate u p)" "store_op (GetUser uid)" "store_op ListUsers"
  "store_op (UpdateUser uid en rso pw)" "store_op (CreateSession uid ip agent ttl)" "store_op (ResolveSession token)"
  "store_op (RevokeSession token)" "store_op (RevokeUserSessions uid)" "store_op ListRoles" "store_op (SaveRole role)"
  "store_op (DeleteRole rid)" "store_op ListPermissions" "store_op ListPolicies" "store_op (SavePolicy pol)"
  "store_op (DeletePolicy pid)" "store_op Settings" "store_op (UpdateSettings m)" "store_op (Audit event)"
  "store_op (ListAudit limit)" "store_op (CreateTerminal uid cid shell idle)" "store_op (GetTerminal tid uid)"
  "store_op (TouchTerminal tid st)"
  by (auto simp: store_op_def intro: store_step.intros)

lemma store_op_query: "store_op (query q)"
  by (auto simp: store_op_def runs_def query_def exec_def)

locale server_relation =
  fixes R :: "'g senv \<Rightarrow> 'g server \<Rightarrow> 'g server \<Rightarrow> bool"
  assumes R_refl: "R se sv sv"
    and R_trans: "R se sv sv' \<Longrightarrow> R se sv' sv'' \<Longrightarrow> R se sv sv''"
begin

lemma h_ret: "handles R (hret x)"
  by (simp add: handles_def hret_def R_refl)

lemma h_stop: "handles R (hstop resp)"
  by (simp add: handles_def hstop_def R_refl)

lemma h_ask: "handles R (hask f)"
  by (simp add: handles_def hask_def R_refl)

lemma h_guard: "handles R (hguard ok bad)"
  by (simp add: hguard_def h_ret h_stop)

lemma h_bnd:
  assumes "handles R m" and "\<And>x. handles R (f x)"
  shows "handles R (hbnd m f)"
  unfolding handles_def
proof (intro allI)
  fix se sv
  obtain x sv' where m: "m se sv = (x, sv')" by (cases "m se sv")
  have 1: "R se sv sv'" using assms(1) m unfolding handles_def by (metis snd_conv)
  show "R se sv (snd (hbnd m f se sv))"
  proof (cases x)
    case (Inl resp)
    with m 1 show ?thesis by (simp add: hbnd_def)
  next
    case (Inr y)
    have "R se sv' (snd (f y se sv'))" using assms(2) unfolding handles_def by blast
    with m Inr 1 R_trans show ?thesis by (auto simp: hbnd_def)
  qed
qed

lemma h_check: "handles R m \<Longrightarrow> handles R (hcheck bad m)"
  unfolding hcheck_def by (auto intro!: h_bnd h_stop h_ret split: sum.split)

lemma h_finish: "handles R m \<Longrightarrow> R se sv (snd (finish m se sv))"
  by (auto simp: handles_def finish_def split: prod.split sum.split) (metis snd_conv)+

end

locale server_interface = server_relation R for R :: "'g senv \<Rightarrow> 'g server \<Rightarrow> 'g server \<Rightarrow> bool" +
  assumes R_store: "store_step\<^sup>*\<^sup>* (sv_db sv) d \<Longrightarrow> R se sv (sv\<lparr>sv_store := (n, d)\<rparr>)"
    and R_throttle: "R se sv (sv\<lparr>sv_loginThrottle := l\<rparr>)"
    and R_terminalLimit: "R se sv (sv\<lparr>sv_terminalLimit := lm\<rparr>)"
    and R_passwordLimit: "R se sv (sv\<lparr>sv_passwordLimit := lm\<rparr>)"
begin

lemma h_store:
  assumes "store_op m"
  shows "handles R (hstore m)"
  unfolding handles_def
proof (intro allI)
  fix se :: "'g senv" and sv :: "'g server"
  obtain n d where sv: "sv_store sv = (n, d)" by (cases "sv_store sv")
  obtain x n' d' where m: "m (se_env se) (n, d) = (x, n', d')" by (cases "m (se_env se) (n, d)") auto
  have "runs m d d'" unfolding runs_def using m by (metis snd_conv)
  then have "R se sv (sv\<lparr>sv_store := (n', d')\<rparr>)"
    using assms sv by (intro R_store) (simp add: store_op_def sv_db_def)
  with sv m show "R se sv (snd (hstore m se sv))"
    by (cases x) (auto simp: hstore_def split: go_error.split)
qed

lemma h_now: "handles R hnow"
  using R_store by (auto simp: handles_def hnow_def sv_db_def split: prod.split)

lemma h_throttle: "handles R (hthrottle f)"
  unfolding hthrottle_def
  by (intro h_bnd h_now) (simp add: handles_def case_prod_beta R_throttle)

lemma h_clear: "handles R (hclear key)"
  by (simp add: handles_def hclear_def R_throttle)

lemma h_terminalLimit: "handles R (hterminalLimit key)"
  unfolding hterminalLimit_def
  by (intro h_bnd h_now) (simp add: handles_def case_prod_beta R_terminalLimit)

lemma h_passwordLimit: "handles R (hpasswordLimit key)"
  unfolding hpasswordLimit_def
  by (intro h_bnd h_now) (simp add: handles_def case_prod_beta R_passwordLimit)

lemma h_audit: "handles R (audit r sess u action rt rid res reason md)"
  unfolding audit_def by (intro h_bnd h_store h_ret store_op_ops)

lemma h_settings: "handles R settings_or_nil"
  unfolding settings_or_nil_def by (intro h_bnd h_store h_ret store_op_ops)

lemma h_defaultLogTail: "handles R defaultLogTail"
  unfolding defaultLogTail_def by (intro h_bnd h_ask h_store h_ret store_op_ops)

lemma h_terminalIdle: "handles R terminalIdle"
  unfolding terminalIdle_def by (auto intro!: h_bnd h_ask h_store h_ret store_op_ops)

lemmas h_intros = h_bnd h_ret h_stop h_ask h_guard h_check h_store store_op_ops store_op_query h_now h_throttle h_clear
  h_terminalLimit h_passwordLimit h_audit h_settings h_defaultLogTail h_terminalIdle

lemma h_requireSession: "(\<And>sess. handles R (next sess)) \<Longrightarrow> handles R (requireSession r next)"
  unfolding requireSession_def by (auto intro!: h_intros split: option.split)

lemma h_requireCSRF: "handles R next \<Longrightarrow> handles R (requireCSRF r sess next)"
  unfolding requireCSRF_def by (auto intro!: h_intros)

lemma h_requirePermission: "handles R next \<Longrightarrow> handles R (requirePermission p sess next)"
  unfolding requirePermission_def by (auto intro!: h_intros)

text \<open>The handlers that do not use the gateway.\<close>

lemma h_status: "handles R status"
  unfolding status_def by (intro h_intros)

lemma h_issueSession: "handles R (issueSession r u)"
  unfolding issueSession_def by (auto intro!: h_intros)

lemma h_loginRateLimited: "handles R (loginRateLimited r username retry)"
  unfolding loginRateLimited_def Let_def by (intro h_intros)

lemma h_login: "handles R (login r)"
proof -
  have "handles R (login_failed r inp key)" "handles R (login_succeeded r u key)" for inp u key
    unfolding login_failed_def login_succeeded_def by (auto intro!: h_intros h_loginRateLimited h_issueSession)
  then show ?thesis
    unfolding login_def login_attempt_def by (auto intro!: h_intros h_loginRateLimited split: option.split sum.split)
qed

lemma h_me: "handles R (me sess)"
  unfolding me_def by (intro h_intros)

lemma h_logout: "handles R (logout r sess)"
  unfolding logout_def by (auto intro!: h_intros split: option.split)

lemma h_users: "handles R users" "handles R roles" "handles R permissions" "handles R policyList" "handles R settings" "handles R (auditList r)"
  unfolding users_def roles_def permissions_def policyList_def settings_def auditList_def by (intro h_intros)+

lemma h_createUser: "handles R (createUser r sess)"
  unfolding createUser_def Let_def by (auto intro!: h_intros split: option.split)

lemma h_updateUser: "handles R (updateUser r sess)"
  unfolding updateUser_def Let_def by (auto intro!: h_intros split: option.split)

lemma h_invalidateSessions: "handles R (invalidateSessions r sess)"
  unfolding invalidateSessions_def by (intro h_intros)

lemma h_saveRole: "handles R (saveRole r sess)"
  unfolding saveRole_def Let_def by (auto intro!: h_intros split: option.split)

lemma h_deleteRole: "handles R (deleteRole r sess)"
  unfolding deleteRole_def by (intro h_intros)

lemma h_savePolicy: "handles R (savePolicy r sess)"
  unfolding savePolicy_def Let_def by (auto intro!: h_intros split: option.split)

lemma h_deletePolicy: "handles R (deletePolicy r sess)"
  unfolding deletePolicy_def by (intro h_intros)

lemma h_updateSettings: "handles R (updateSettings r sess)"
  unfolding updateSettings_def Let_def by (auto intro!: h_intros split: option.split)

lemmas h_admin = h_status h_login h_me h_logout h_users h_createUser h_updateUser h_invalidateSessions h_saveRole h_deleteRole
  h_savePolicy h_deletePolicy h_updateSettings

end

section \<open>Requests to the gateway\<close>

datatype gw_action = AHttp hreq | ADial dialreq | ASend nat string

fun gw_do :: "'g senv \<Rightarrow> gw_action \<Rightarrow> 'g \<Rightarrow> 'g" where
  "gw_do se (AHttp rq) g = snd (se_http se rq g)"
| "gw_do se (ADial dl) g = snd (se_dial se dl g)"
| "gw_do se (ASend kind msg) g = snd (se_send se kind msg g)"

text \<open>The requests of the client: reads, the restart of a container and the creation of a process.\<close>

definition client_request :: "'g senv \<Rightarrow> string \<Rightarrow> string \<Rightarrow> json option \<Rightarrow> bool \<Rightarrow> gw_action" where
  "client_request se method path bdy stream = AHttp \<lparr>rq_method = method, rq_url = gc_BaseURL (gateway_client se) @ path,
     rq_secret = gc_Secret (gateway_client se), rq_body = bdy, rq_stream = stream\<rparr>"

abbreviation restart_request :: "'g senv \<Rightarrow> string \<Rightarrow> gw_action" where
  "restart_request se cid \<equiv> client_request se ''POST'' (gatewayContainerPath cid ''/restart'') (Some (JObj [])) False"

abbreviation exec_request :: "'g senv \<Rightarrow> string \<Rightarrow> string \<Rightarrow> gw_action" where
  "exec_request se cid shell \<equiv> client_request se ''POST'' (gatewayContainerPath cid ''/exec'') (Some (JObj [(''shell'', JStr shell)])) False"

locale server_gateway = server_interface R for R :: "'g senv \<Rightarrow> 'g server \<Rightarrow> 'g server \<Rightarrow> bool" +
  fixes Q :: "'g senv \<Rightarrow> gw_action \<Rightarrow> bool"
  assumes R_gateway: "Q se a \<Longrightarrow> R se sv (sv\<lparr>sv_gateway := gw_do se a (sv_gateway sv)\<rparr>)"
    and Q_read: "Q se (client_request se ''GET'' path None stream)"
begin

lemma h_gateway:
  assumes "\<And>se g. snd (f se g) = gw_do se (a se) g" and "\<And>se. Q se (a se)"
  shows "handles R (hgateway f)"
  using R_gateway [OF assms(2)] by (simp add: handles_def hgateway_def case_prod_beta assms(1))

lemma snd_gc_request:
  "snd (gc_request (se_http se) (gateway_client se) method path bdy stream g) = gw_do se (client_request se method path bdy stream) g"
  by (simp add: gc_request_def client_request_def split: prod.split sum.split)

lemma snd_gc:
  "snd (gc_Raw (se_http se) (gateway_client se) path g) = gw_do se (client_request se ''GET'' path None False) g"
  "snd (gc_Stream (se_http se) (gateway_client se) path g) = gw_do se (client_request se ''GET'' path None True) g"
  "snd (gc_Ready (se_http se) (gateway_client se) g) = gw_do se (client_request se ''GET'' ''/ready'' None False) g"
  "snd (gc_JSON (se_http se) decode (gateway_client se) method path bdy dec g) = gw_do se (client_request se method path bdy False) g"
  unfolding snd_gc_request [symmetric]
  by (auto simp: gc_Raw_def gc_Stream_def gc_Ready_def gc_JSON_def split: prod.split sum.split option.split)

lemma h_gw_read: "handles R (gw_Raw path)" "handles R (gw_Stream path)" "handles R (gw_JSON ''GET'' path None dec)"
  unfolding gw_Raw_def gw_Stream_def gw_JSON_def
  by (rule h_gateway [OF snd_gc(1) Q_read] h_gateway [OF snd_gc(2) Q_read] h_gateway [OF snd_gc(4) Q_read])+

lemma h_ready: "handles R ready"
  unfolding ready_def by (intro h_intros h_gateway [OF snd_gc(3) Q_read])

lemma h_overview: "handles R (overview sess)"
  unfolding overview_def Let_def by (auto intro!: h_intros h_gw_read split: prod.split)

lemma h_containers: "handles R containers"
  unfolding containers_def by (intro h_intros h_gw_read)

lemma h_inspectResource: "handles R (inspectResource cid)"
  unfolding inspectResource_def by (auto intro!: h_intros h_gw_read)

lemma h_authorize: "handles R (authorizeResourceWithAudit r sess action cid b)" "handles R (authorizeResource r sess action cid)"
  unfolding authorizeResource_def authorizeResourceWithAudit_def Let_def
  by (auto intro!: h_intros h_inspectResource)

lemma h_container: "handles R (container r sess)" "handles R (containerRisk r sess)"
  unfolding container_def show_container_def containerRisk_def Let_def by (auto intro!: h_intros h_authorize)

lemma h_stats: "handles R (stats r sess)"
  unfolding stats_def Let_def by (auto intro!: h_intros h_authorize h_gw_read split: option.split)

lemma h_logs: "handles R (logs r sess)" "handles R (logsStream r sess)"
  unfolding logs_def logsStream_def log_tail_def Let_def by (auto intro!: h_intros h_authorize h_gw_read)

lemma h_createTerminal: "handles R (createTerminal r sess)"
  unfolding createTerminal_def Let_def by (auto intro!: h_intros h_authorize split: option.split)

lemma h_restart:
  assumes "\<And>se. Q se (restart_request se (sq_param r))"
  shows "handles R (restart r sess)"
  unfolding restart_def gw_JSON_def Let_def
  by (intro h_intros h_authorize h_gateway [OF snd_gc(4) assms]) (auto intro!: h_intros split: sum.split)

lemma h_still_allowed: "handles R (still_allowed r cid)"
  unfolding still_allowed_def by (auto intro!: h_intros h_inspectResource split: option.split sum.split)

lemma h_if: "(c \<Longrightarrow> handles R m) \<Longrightarrow> (\<not> c \<Longrightarrow> handles R m') \<Longrightarrow> handles R (if c then m else m')"
  by simp

lemma h_watchdog_tick: "handles R (watchdog_tick r cid idle seen)"
  unfolding watchdog_tick_def by (intro h_intros h_if h_still_allowed)

lemma h_relay:
  assumes "\<And>se kind msg. Q se (ASend kind msg)"
  shows "handles R (relay r cid idle evs seen)"
proof (induction r cid idle evs seen rule: relay.induct)
  case (2 r cid idle kind msg evs seen)
  have "handles R (hgateway (\<lambda>se. se_send se kind msg))"
    by (rule h_gateway [of _ "\<lambda>_. ASend kind msg"]) (simp_all add: assms)
  with 2 show ?case unfolding relay.simps by (intro h_bnd h_if h_now h_ret) (auto intro: h_ret split: sum.split)
next
  case (3 r cid idle kind msg taken evs seen)
  then show ?case unfolding relay.simps by (intro h_bnd h_if h_now h_ret) simp
next
  case (4 r cid idle evs seen)
  then show ?case unfolding relay.simps by (intro h_bnd h_if h_watchdog_tick h_ret) simp
qed (simp add: h_ret)

lemma h_terminalWS:
  assumes "\<And>se kind msg. Q se (ASend kind msg)" and "\<And>se dl. Q se (ADial dl)"
    and "\<And>se cid shell. Q se (exec_request se cid shell)"
  shows "handles R (terminalWS r sess)"
proof -
  have "handles R (run_terminal r sess x shell)" for x shell
    unfolding run_terminal_def by (intro h_intros h_relay assms)
  moreover have "handles R (hgateway (\<lambda>se. gc_DialExec (se_dial se) (gateway_client se) ticket))" for ticket
    unfolding gc_DialExec_def by (rule h_gateway [where a = "\<lambda>se. ADial \<lparr>dl_base = gc_BaseURL (gateway_client se),
      dl_path = ''/v1/exec/'' @ pathEscape ticket, dl_secret = gc_Secret (gateway_client se)\<rparr>"]) (simp_all only: gw_do.simps assms(2))
  moreover have "handles R (hgateway (\<lambda>se. gc_CreateExec (se_http se) (se_decode se) (gateway_client se) cid shell))" for cid shell
    unfolding gc_CreateExec_def gatewayContainerPath_def [symmetric] by (rule h_gateway [OF snd_gc(4) assms(3)])
  ultimately show ?thesis
    unfolding terminalWS_def by (auto intro!: h_intros h_authorize split: sum.split option.split)
qed

lemmas h_read = h_overview h_containers h_container h_stats h_logs h_createTerminal

lemma h_guarded:
  "handles R (handler p r sess) \<Longrightarrow> handles R (guarded_handler p r sess)"
  unfolding guarded_handler_def Let_def
  by (auto intro!: h_requireCSRF h_requirePermission split: prod.split option.split)

text \<open>Every route but the restart and the terminal connection.\<close>

lemma h_handler: "p \<noteq> PRestart \<Longrightarrow> p \<noteq> GTerminalWS \<Longrightarrow> handles R (handler p r sess)"
  by (cases p) (simp_all add: handler_def h_admin h_read)

lemma h_public: "handles R (public_handler p r)"
  by (cases p) (simp_all add: public_handler_def h_admin h_ready h_ret)

lemma Handle_R:
  assumes "\<And>p sess. route = Protected p \<Longrightarrow> handles R (handler p r sess)"
  shows "R se sv (snd (Handle se route r sv))"
  unfolding Handle_def
  by (rule h_finish) (use assms in \<open>auto intro!: h_public h_requireSession h_guarded split: route.split\<close>)

end

section \<open>The database\<close>

definition db_relation :: "'g senv \<Rightarrow> 'g server \<Rightarrow> 'g server \<Rightarrow> bool" where
  "db_relation se sv sv' \<longleftrightarrow> store_step\<^sup>*\<^sup>* (sv_db sv) (sv_db sv')"

interpretation database: server_gateway db_relation "\<lambda>_ _. True"
  by unfold_locales (auto simp: db_relation_def sv_db_def)

text \<open>Serving a request is a sequence of store operations.\<close>

lemma Handle_store_steps: "store_step\<^sup>*\<^sup>* (sv_db sv) (sv_db (snd (Handle se route r sv)))"
proof -
  have "handles db_relation (handler p r sess)" for p sess
  proof (cases "p = PRestart \<or> p = GTerminalWS")
    case True
    then show ?thesis by (auto simp: handler_def intro: database.h_restart database.h_terminalWS)
  qed (auto intro: database.h_handler)
  then have "db_relation se sv (snd (Handle se route r sv))" by (intro database.Handle_R)
  then show ?thesis by (simp add: db_relation_def)
qed

section \<open>The gateway\<close>

text \<open>States of the gateway side that admissible actions lead to.\<close>

definition gw_step :: "'g senv \<Rightarrow> (gw_action \<Rightarrow> bool) \<Rightarrow> 'g \<Rightarrow> 'g \<Rightarrow> bool" where
  "gw_step se P g g' \<longleftrightarrow> (\<exists>a. P a \<and> g' = gw_do se a g)"

definition is_read :: "'g senv \<Rightarrow> gw_action \<Rightarrow> bool" where
  "is_read se a \<longleftrightarrow> (\<exists>path stream. a = client_request se ''GET'' path None stream)"

definition gw_relation :: "('g senv \<Rightarrow> gw_action \<Rightarrow> bool) \<Rightarrow> 'g senv \<Rightarrow> 'g server \<Rightarrow> 'g server \<Rightarrow> bool" where
  "gw_relation Q se sv sv' \<longleftrightarrow> (gw_step se (\<lambda>a. is_read se a \<or> Q se a))\<^sup>*\<^sup>* (sv_gateway sv) (sv_gateway sv')"

lemma gw_step_do: "P a \<Longrightarrow> (gw_step se P)\<^sup>*\<^sup>* g (gw_do se a g)"
  by (auto simp: gw_step_def intro!: r_into_rtranclp)

interpretation gateway_side: server_gateway "gw_relation Q" "\<lambda>se a. is_read se a \<or> Q se a" for Q
  by unfold_locales (auto simp: gw_relation_def is_read_def intro: gw_step_do)

end
