(* ===== verification/Store_Invariants.thy ===== *)
theory Store_Invariants
  imports Store_Laws
begin

text \<open>
  Invariants of the store: the constraints of the schema, the permanence of a revocation and of user
  names, the built-in administrator role and the existence of an enabled administrator.
\<close>

section \<open>The constraints of the schema\<close>

definition wf_users :: "user_row list \<Rightarrow> bool" where
  "wf_users us \<longleftrightarrow> distinct (map ur_id us) \<and> distinct (map (\<lambda>u. fold_case (ur_username u)) us)"

definition wf_roles :: "role_row list \<Rightarrow> bool" where
  "wf_roles rs \<longleftrightarrow> distinct (map rr_id rs) \<and> distinct (map (\<lambda>r. fold_case (rr_name r)) rs)"

definition wf_permissions :: "permission_row list \<Rightarrow> bool" where
  "wf_permissions ps \<longleftrightarrow> distinct (map pr_name ps)"

definition wf_role_permissions :: "string set \<Rightarrow> string set \<Rightarrow> (string \<times> string) list \<Rightarrow> bool" where
  "wf_role_permissions R P xs \<longleftrightarrow> distinct xs \<and> (\<forall>(r, p)\<in>set xs. r \<in> R \<and> p \<in> P)"

definition wf_user_roles :: "string set \<Rightarrow> string set \<Rightarrow> user_role_row list \<Rightarrow> bool" where
  "wf_user_roles U R xs \<longleftrightarrow> distinct xs \<and> (\<forall>l\<in>set xs. ul_user_id l \<in> U \<and> ul_role_id l \<in> R)"

definition wf_sessions :: "string set \<Rightarrow> session_row list \<Rightarrow> bool" where
  "wf_sessions U xs \<longleftrightarrow> distinct (map sr_id_hash xs) \<and> (\<forall>s\<in>set xs. sr_user_id s \<in> U)"

definition wf_terminals :: "string set \<Rightarrow> terminal_row list \<Rightarrow> bool" where
  "wf_terminals U xs \<longleftrightarrow> distinct (map te_id xs) \<and> (\<forall>x\<in>set xs. te_user_id x \<in> U)"

definition wf_policies :: "policy_row list \<Rightarrow> bool" where
  "wf_policies ps \<longleftrightarrow> distinct (map po_id ps) \<and> distinct (map po_name ps)"

definition wf_rule :: "string set \<Rightarrow> string set \<Rightarrow> string set \<Rightarrow> rule_row \<Rightarrow> bool" where
  "wf_rule Pol Perm R x \<longleftrightarrow> ru_policy_id x \<in> Pol \<and> ru_effect x \<in> {''allow'', ''deny''} \<and> ru_action x \<in> Perm
     \<and> (case ru_subject_role_id x of None \<Rightarrow> True | Some r \<Rightarrow> r \<in> R) \<and> ru_match_type x \<in> {''name'', ''label''}"

definition wf_rules :: "string set \<Rightarrow> string set \<Rightarrow> string set \<Rightarrow> rule_row list \<Rightarrow> bool" where
  "wf_rules Pol Perm R xs \<longleftrightarrow> distinct (map ru_id xs) \<and> (\<forall>x\<in>set xs. wf_rule Pol Perm R x)"

definition wf_keys :: "db \<Rightarrow> bool" where
  "wf_keys d \<longleftrightarrow> distinct (map au_id (audit_events d)) \<and> distinct (map st_key (settings d))"

definition wf_db :: "db \<Rightarrow> bool" where
  "wf_db d \<longleftrightarrow> wf_users (users d) \<and> wf_roles (roles d) \<and> wf_permissions (permissions d)
     \<and> wf_role_permissions (rr_id ` set (roles d)) (pr_name ` set (permissions d)) (role_permissions d)
     \<and> wf_user_roles (ur_id ` set (users d)) (rr_id ` set (roles d)) (user_roles d)
     \<and> wf_sessions (ur_id ` set (users d)) (sessions d) \<and> wf_terminals (ur_id ` set (users d)) (terminal_sessions d)
     \<and> wf_policies (policies d)
     \<and> wf_rules (po_id ` set (policies d)) (pr_name ` set (permissions d)) (rr_id ` set (roles d)) (policy_rules d)
     \<and> wf_keys d"

lemmas wf_parts = wf_users_def wf_roles_def wf_permissions_def wf_role_permissions_def wf_user_roles_def
  wf_sessions_def wf_terminals_def wf_policies_def wf_rules_def wf_keys_def

text \<open>A table keeps its foreign keys when the tables it refers to only grow.\<close>

lemma wf_mono:
  "wf_role_permissions R P xs \<Longrightarrow> R \<subseteq> R' \<Longrightarrow> P \<subseteq> P' \<Longrightarrow> wf_role_permissions R' P' xs"
  "wf_user_roles U R ls \<Longrightarrow> U \<subseteq> U' \<Longrightarrow> R \<subseteq> R' \<Longrightarrow> wf_user_roles U' R' ls"
  "wf_sessions U ss \<Longrightarrow> U \<subseteq> U' \<Longrightarrow> wf_sessions U' ss"
  "wf_terminals U ts \<Longrightarrow> U \<subseteq> U' \<Longrightarrow> wf_terminals U' ts"
  by (auto simp: wf_role_permissions_def wf_user_roles_def wf_sessions_def wf_terminals_def)

lemma wf_rules_mono:
  "wf_rules Pol P R xs \<Longrightarrow> Pol \<subseteq> Pol' \<Longrightarrow> P \<subseteq> P' \<Longrightarrow> R \<subseteq> R' \<Longrightarrow> wf_rules Pol' P' R' xs"
  unfolding wf_rules_def wf_rule_def by (auto split: option.split) (metis option.simps(5) subsetD)+

lemma distinct_map_filter [simp]: "distinct (map f xs) \<Longrightarrow> distinct (map f (filter p xs))"
  by (induction xs) auto

section \<open>Statements keep the constraints\<close>

lemma wf_insert_user: "insert_user u d = Some (x, d') \<Longrightarrow> wf_db d \<Longrightarrow> wf_db d'"
  unfolding wf_db_def insert_user_def nocase_image
  by (auto simp: wf_users_def wf_keys_def split: if_splits intro: wf_mono)

lemma wf_insert_first_user: "insert_first_user u d = Some (n, d') \<Longrightarrow> wf_db d \<Longrightarrow> wf_db d'"
  unfolding wf_db_def insert_first_user_def
  by (auto simp: wf_users_def wf_keys_def split: if_splits intro: wf_mono)

lemma local_scope_fields [simp]: "ul_user_id (local_scope u r) = u" "ul_role_id (local_scope u r) = r"
  by (simp_all add: local_scope_def)

lemma local_scope_inj [simp]: "local_scope u r = local_scope u' r' \<longleftrightarrow> u = u' \<and> r = r'"
  by (auto simp: local_scope_def)

lemma wf_insert_user_roles: "insert_user_roles uid rids d = Some (n, d') \<Longrightarrow> wf_db d \<Longrightarrow> wf_db d'"
  unfolding wf_db_def insert_user_roles_def
  by (auto simp: wf_user_roles_def wf_keys_def distinct_map inj_on_def split: if_splits)

text \<open>Rows that keep the columns a constraint reads keep the constraint.\<close>

lemma wf_sessions_update_where:
  "(\<And>s. sr_id_hash (f s) = sr_id_hash s \<and> sr_user_id (f s) = sr_user_id s) \<Longrightarrow>
    wf_sessions U (update_where c f ss) \<longleftrightarrow> wf_sessions U ss"
  by (simp add: wf_sessions_def if_distrib [of sr_user_id])

lemma wf_terminals_update_where:
  "(\<And>x. te_id (f x) = te_id x \<and> te_user_id (f x) = te_user_id x) \<Longrightarrow>
    wf_terminals U (update_where c f xs) \<longleftrightarrow> wf_terminals U xs"
  by (simp add: wf_terminals_def if_distrib [of te_user_id])

lemma wf_update_user: "wf_db d \<Longrightarrow> user_update_ok f \<Longrightarrow> wf_db (update_user uid f d)"
  unfolding wf_db_def update_user_def user_update_ok_def
  by (simp add: wf_users_def wf_keys_def)

lemma wf_clear_user_roles: "wf_db d \<Longrightarrow> wf_db (clear_user_roles uid d)"
  unfolding wf_db_def clear_user_roles_def by (auto simp: wf_user_roles_def wf_keys_def)

lemma wf_revoke_active: "wf_db d \<Longrightarrow> wf_db (revoke_active uid t d)"
  unfolding wf_db_def revoke_active_def
  by (simp add: wf_sessions_update_where wf_keys_def)

lemma wf_insert_audit: "insert_audit a d = Some (x, d') \<Longrightarrow> wf_db d \<Longrightarrow> wf_db d'"
  unfolding wf_db_def insert_audit_def by (auto simp: wf_keys_def split: if_splits)

lemma wf_trim_audit: "wf_db d \<Longrightarrow> wf_db (trim_audit keep d)"
  unfolding wf_db_def trim_audit_def Let_def by (auto simp: wf_keys_def)

lemma wf_upsert_permission: "wf_db d \<Longrightarrow> wf_db (upsert_permission p d)"
  unfolding wf_db_def upsert_permission_def
  by (cases p) (auto simp: wf_permissions_def wf_keys_def intro: wf_mono wf_rules_mono)

lemma wf_insert_ignore_role: "wf_db d \<Longrightarrow> wf_db (insert_ignore_role r d)"
  unfolding wf_db_def insert_ignore_role_def nocase_image
  by (auto simp: wf_roles_def wf_keys_def intro: wf_mono wf_rules_mono)

lemma wf_insert_ignore_role_permission:
  "insert_ignore_role_permission rid p d = Some (x, d') \<Longrightarrow> wf_db d \<Longrightarrow> wf_db d'"
  unfolding wf_db_def insert_ignore_role_permission_def
  by (auto simp: wf_role_permissions_def wf_keys_def split: if_splits)

lemma wf_insert_ignore_setting: "wf_db d \<Longrightarrow> wf_db (insert_ignore_setting s d)"
  unfolding wf_db_def insert_ignore_setting_def by (auto simp: wf_keys_def)

lemma wf_upsert_setting: "wf_db d \<Longrightarrow> wf_db (upsert_setting k v t d)"
  unfolding wf_db_def upsert_setting_def by (auto simp: wf_keys_def comp_def)

lemma wf_insert_session: "insert_session s d = Some (x, d') \<Longrightarrow> wf_db d \<Longrightarrow> wf_db d'"
  unfolding wf_db_def insert_session_def by (auto simp: wf_sessions_def wf_keys_def split: if_splits)

lemma wf_update_session: "wf_db d \<Longrightarrow> session_update_ok f \<Longrightarrow> wf_db (update_session h f d)"
  unfolding wf_db_def update_session_def session_update_ok_def
  by (simp add: wf_sessions_update_where wf_keys_def)

lemma wf_insert_terminal: "insert_terminal s d = Some (x, d') \<Longrightarrow> wf_db d \<Longrightarrow> wf_db d'"
  unfolding wf_db_def insert_terminal_def by (auto simp: wf_terminals_def wf_keys_def split: if_splits)

lemma wf_touch_terminal: "wf_db d \<Longrightarrow> wf_db (touch_terminal tid status t t' d)"
  unfolding wf_db_def touch_terminal_def by (simp add: wf_terminals_update_where wf_keys_def)

lemma wf_insert_role: "insert_role r d = Some (x, d') \<Longrightarrow> wf_db d \<Longrightarrow> wf_db d'"
  unfolding wf_db_def insert_role_def nocase_image
  by (auto simp: wf_roles_def wf_keys_def split: if_splits intro: wf_mono wf_rules_mono)

lemma wf_clear_role_permissions: "wf_db d \<Longrightarrow> wf_db (clear_role_permissions rid d)"
  unfolding wf_db_def clear_role_permissions_def by (auto simp: wf_role_permissions_def wf_keys_def)

lemma wf_insert_role_permission: "insert_role_permission rid p d = Some (x, d') \<Longrightarrow> wf_db d \<Longrightarrow> wf_db d'"
  unfolding wf_db_def insert_role_permission_def
  by (auto simp: wf_role_permissions_def wf_keys_def split: if_splits)

lemma wf_rename_role:
  assumes "rename_role rid name desc d = Some (x, d')" and "wf_db d"
  shows "wf_db d'"
proof (cases "rid \<in> rr_id ` set (roles d)")
  case False
  then have "update_where (\<lambda>r. rr_id r = rid) f (roles d) = roles d" for f
    by (intro update_where_id) auto
  with False assms(1) have "d' = d" by (simp add: rename_role_def)
  with assms(2) show ?thesis by simp
next
  case True
  with assms show ?thesis
    unfolding wf_db_def rename_role_def nocase_def
    by (auto simp: wf_roles_def wf_keys_def split: if_splits intro!: distinct_update_where [where v = "fold_case name"])
qed

lemma wf_without:
  "wf_role_permissions R P xs \<Longrightarrow> wf_role_permissions (R - G) P (filter (\<lambda>rp. fst rp \<notin> G) xs)"
  "wf_user_roles U R ls \<Longrightarrow> wf_user_roles U (R - G) (filter (\<lambda>l. ul_role_id l \<notin> G) ls)"
  "wf_rules Pol P R rs \<Longrightarrow> wf_rules Pol P (R - G)
     (filter (\<lambda>x. case ru_subject_role_id x of None \<Rightarrow> True | Some q \<Rightarrow> q \<notin> G) rs)"
  by (auto simp: wf_role_permissions_def wf_user_roles_def wf_rules_def wf_rule_def split: option.splits)

text \<open>Deleting a set \<open>G\<close> of roles with everything that refers to them.\<close>

lemma wf_drop_roles:
  assumes "wf_db d"
  shows "wf_db (d\<lparr>roles := filter (\<lambda>r. rr_id r \<notin> G) (roles d),
     role_permissions := filter (\<lambda>rp. fst rp \<notin> G) (role_permissions d),
     user_roles := filter (\<lambda>l. ul_role_id l \<notin> G) (user_roles d),
     policy_rules := filter (\<lambda>x. case ru_subject_role_id x of None \<Rightarrow> True | Some q \<Rightarrow> q \<notin> G) (policy_rules d)\<rparr>)"
  using assms unfolding wf_db_def
  by (simp add: image_filter_key wf_without wf_roles_def wf_keys_def del: set_filter)

lemma wf_delete_role: "wf_db d \<Longrightarrow> wf_db (snd (delete_role rid d))"
  unfolding delete_role_def Let_def snd_conv by (rule wf_drop_roles)

lemma wf_set_policies:
  "wf_db d \<Longrightarrow> wf_policies ps \<Longrightarrow> po_id ` set (policies d) \<subseteq> po_id ` set ps \<Longrightarrow> wf_db (d\<lparr>policies := ps\<rparr>)"
  unfolding wf_db_def by (simp add: wf_keys_def) (blast intro: wf_rules_mono)

lemma upsert_policy_cases:
  assumes "upsert_policy p d = Some (x, d')"
  obtains (new) "po_id p \<notin> po_id ` set (policies d)" "po_name p \<notin> po_name ` set (policies d)"
      "d' = d\<lparr>policies := policies d @ [p]\<rparr>"
  | (old) f where "\<And>q. po_id (f q) = po_id q" "\<And>q. po_name (f q) = po_name p"
      "\<And>q. q \<in> set (policies d) \<Longrightarrow> po_id q \<noteq> po_id p \<Longrightarrow> po_name q \<noteq> po_name p"
      "d' = d\<lparr>policies := update_where (\<lambda>q. po_id q = po_id p) f (policies d)\<rparr>"
proof (cases "po_id p \<in> po_id ` set (policies d)")
  case True
  have "d' = d\<lparr>policies := update_where (\<lambda>q. po_id q = po_id p)
      (\<lambda>q. q\<lparr>po_name := po_name p, po_description := po_description p, po_enabled := po_enabled p,
             po_updated_at := po_updated_at p\<rparr>) (policies d)\<rparr>"
    and "\<And>q. q \<in> set (policies d) \<Longrightarrow> po_id q \<noteq> po_id p \<Longrightarrow> po_name q \<noteq> po_name p"
    using True assms by (auto simp only: upsert_policy_def option.inject prod.inject split: if_splits)
  then show ?thesis by (intro old) simp_all
next
  case False
  have "po_id q \<noteq> po_id p" if "q \<in> set (policies d)" for q
    using False that by (metis imageI)
  with False assms show ?thesis
    by (intro new) (auto simp: upsert_policy_def split: if_splits)
qed

lemma wf_upsert_policy:
  assumes "upsert_policy p d = Some (x, d')" and "wf_db d"
  shows "wf_db d'"
  using assms(1)
proof (cases rule: upsert_policy_cases)
  case new
  have "wf_policies (policies d @ [p])"
    using assms(2) new(1,2) by (simp add: wf_policies_def wf_db_def)
  with assms(2) show ?thesis unfolding new(3) by (intro wf_set_policies) auto
next
  case (old f)
  have "distinct (map po_name (update_where (\<lambda>q. po_id q = po_id p) f (policies d)))"
    using assms(2) old(2,3)
    by (intro distinct_update_where [where v = "po_name p"]) (simp_all add: wf_db_def wf_policies_def)
  with assms(2) old(1) show ?thesis
    unfolding old(4) by (intro wf_set_policies) (simp_all add: wf_policies_def wf_db_def)
qed

lemma wf_clear_rules: "wf_db d \<Longrightarrow> wf_db (clear_rules pid d)"
  unfolding wf_db_def clear_rules_def by (auto simp: wf_rules_def wf_keys_def)

lemma insert_rule_wf:
  "insert_rule x d = (if ru_id x \<notin> ru_id ` set (policy_rules d)
       \<and> wf_rule (po_id ` set (policies d)) (pr_name ` set (permissions d)) (rr_id ` set (roles d)) x
     then Some ((), d\<lparr>policy_rules := policy_rules d @ [x]\<rparr>) else None)"
  by (simp add: insert_rule_def wf_rule_def conj_ac)

lemma wf_insert_rule: "insert_rule r d = Some (x, d') \<Longrightarrow> wf_db d \<Longrightarrow> wf_db d'"
  unfolding wf_db_def insert_rule_wf by (auto simp: wf_rules_def wf_keys_def split: if_splits)

lemma wf_delete_policy: "wf_db d \<Longrightarrow> wf_db (delete_policy pid d)"
  unfolding wf_db_def delete_policy_def by (auto simp: wf_policies_def wf_rules_def wf_rule_def wf_keys_def)

lemmas wf_checked = wf_insert_user wf_insert_first_user wf_insert_user_roles wf_insert_audit
  wf_insert_ignore_role_permission wf_insert_session wf_insert_terminal wf_insert_role wf_rename_role
  wf_insert_role_permission wf_upsert_policy wf_insert_rule

lemmas wf_modified = wf_update_user wf_revoke_active wf_upsert_permission wf_insert_ignore_role
  wf_insert_ignore_setting wf_update_session wf_touch_terminal wf_upsert_setting wf_trim_audit
  wf_clear_role_permissions wf_delete_role wf_clear_rules wf_delete_policy wf_clear_user_roles

definition keeps_wf :: "db \<Rightarrow> db \<Rightarrow> bool" where
  "keeps_wf d d' \<longleftrightarrow> (wf_db d \<longrightarrow> wf_db d')"

interpretation schema: store_statements keeps_wf
  by unfold_locales (auto simp: keeps_wf_def wf_modified dest: wf_checked)

section \<open>Statements on other tables\<close>

text \<open>The statements that leave the users and the sessions as they are.\<close>

lemma other_tables:
  "insert_user_roles uid rids d = Some (n, d') \<Longrightarrow> users d' = users d \<and> sessions d' = sessions d"
  "insert_audit a d = Some (x, d') \<Longrightarrow> users d' = users d \<and> sessions d' = sessions d"
  "insert_ignore_role_permission rid perm d = Some (x, d') \<Longrightarrow> users d' = users d \<and> sessions d' = sessions d"
  "insert_terminal te d = Some (x, d') \<Longrightarrow> users d' = users d \<and> sessions d' = sessions d"
  "insert_role r d = Some (x, d') \<Longrightarrow> users d' = users d \<and> sessions d' = sessions d"
  "rename_role rid name desc d = Some (x, d') \<Longrightarrow> users d' = users d \<and> sessions d' = sessions d"
  "insert_role_permission rid perm d = Some (x, d') \<Longrightarrow> users d' = users d \<and> sessions d' = sessions d"
  "upsert_policy po d = Some (x, d') \<Longrightarrow> users d' = users d \<and> sessions d' = sessions d"
  "insert_rule ru d = Some (x, d') \<Longrightarrow> users d' = users d \<and> sessions d' = sessions d"
  unfolding insert_user_roles_def insert_audit_def insert_ignore_role_permission_def insert_terminal_def
    insert_role_def rename_role_def insert_role_permission_def upsert_policy_def insert_rule_def
  by (auto simp only: option.simps prod.inject split: if_split_asm) simp_all

lemma other_tables_same [simp]:
  "users (upsert_permission p d) = users d" "sessions (upsert_permission p d) = sessions d"
  "users (insert_ignore_role r d) = users d" "sessions (insert_ignore_role r d) = sessions d"
  "users (insert_ignore_setting st d) = users d" "sessions (insert_ignore_setting st d) = sessions d"
  "users (touch_terminal tid status t t' d) = users d" "sessions (touch_terminal tid status t t' d) = sessions d"
  "users (upsert_setting k v t d) = users d" "sessions (upsert_setting k v t d) = sessions d"
  "users (trim_audit keep d) = users d" "sessions (trim_audit keep d) = sessions d"
  "users (clear_role_permissions rid d) = users d" "sessions (clear_role_permissions rid d) = sessions d"
  "users (snd (delete_role rid d)) = users d" "sessions (snd (delete_role rid d)) = sessions d"
  "users (clear_rules pid d) = users d" "sessions (clear_rules pid d) = sessions d"
  "users (delete_policy pid d) = users d" "sessions (delete_policy pid d) = sessions d"
  "users (clear_user_roles uid d) = users d" "sessions (clear_user_roles uid d) = sessions d"
  by (simp_all add: upsert_permission_def insert_ignore_role_def insert_ignore_setting_def touch_terminal_def
      upsert_setting_def trim_audit_def clear_role_permissions_def delete_role_def clear_rules_def delete_policy_def
      clear_user_roles_def Let_def split: prod.split)

section \<open>What a session keeps\<close>

text \<open>
  A property of session rows that no update of the code takes away: the columns other than the last
  activity and the revocation are never set, and a revocation is never taken back.
\<close>

definition session_stable :: "(session_row \<Rightarrow> bool) \<Rightarrow> bool" where
  "session_stable P \<longleftrightarrow> (\<forall>f s. session_update_ok f \<longrightarrow> P s \<longrightarrow> P (f s))"

text \<open>There is a session under the hash and all of them (the hash is the key) have the property.\<close>

definition session_sat :: "string \<Rightarrow> (session_row \<Rightarrow> bool) \<Rightarrow> db \<Rightarrow> bool" where
  "session_sat h P d \<longleftrightarrow> h \<in> sr_id_hash ` set (sessions d) \<and> (\<forall>s\<in>set (sessions d). sr_id_hash s = h \<longrightarrow> P s)"

definition revoked :: "string \<Rightarrow> db \<Rightarrow> bool" where
  "revoked h d \<longleftrightarrow> session_sat h (\<lambda>s. sr_revoked_at s \<noteq> None) d"

definition keeps_session :: "(session_row \<Rightarrow> bool) \<Rightarrow> db \<Rightarrow> db \<Rightarrow> bool" where
  "keeps_session P d d' \<longleftrightarrow> (session_stable P \<longrightarrow> (\<forall>h. session_sat h P d \<longrightarrow> session_sat h P d'))"

lemma keeps_session_same: "users d' = users d \<and> sessions d' = sessions d \<Longrightarrow> keeps_session P d d'"
  by (simp add: keeps_session_def session_sat_def)

lemma keeps_session_user:
  "insert_user u d = Some (x, d') \<Longrightarrow> keeps_session P d d'"
  "insert_first_user u d = Some (n, d') \<Longrightarrow> keeps_session P d d'"
  "keeps_session P d (update_user uid f d)"
  by (auto simp: keeps_session_def session_sat_def insert_user_def insert_first_user_def update_user_def split: if_splits)

lemma session_sat_update:
  assumes "session_stable P" and "session_update_ok f" and "session_sat h P d"
  shows "session_sat h P (d\<lparr>sessions := update_where c f (sessions d)\<rparr>)"
proof -
  have "sr_id_hash (f s) = sr_id_hash s" "P s \<longrightarrow> P (f s)" for s
    using assms(1,2) by (auto simp: session_stable_def session_update_ok_def)
  with assms(3) show ?thesis by (auto simp: session_sat_def)
qed

lemma keeps_session_update:
  "keeps_session P d (revoke_active uid t d)"
  "session_update_ok g \<Longrightarrow> keeps_session P d (update_session h g d)"
  unfolding keeps_session_def revoke_active_def update_session_def
  by (auto intro!: session_sat_update simp: session_update_ok_def)

lemma keeps_session_insert: "insert_session se d = Some (x, d') \<Longrightarrow> keeps_session P d d'"
  by (auto simp: keeps_session_def session_sat_def insert_session_def split: if_splits)

interpretation session_rows: store_statements "keeps_session P" for P
  by unfold_locales
    (auto simp: keeps_session_same intro: keeps_session_user keeps_session_update keeps_session_insert
      dest: other_tables [THEN keeps_session_same], auto simp: keeps_session_def)

section \<open>Users are never removed or renamed\<close>

definition identity :: "user_row \<Rightarrow> string \<times> string \<times> string" where
  "identity u = (ur_id u, ur_username u, ur_created_at u)"

definition extends_users :: "db \<Rightarrow> db \<Rightarrow> bool" where
  "extends_users d d' \<longleftrightarrow> prefix (map identity (users d)) (map identity (users d'))"

lemma extends_users_same: "users d' = users d \<and> sessions d' = sessions d \<Longrightarrow> extends_users d d'"
  by (simp add: extends_users_def)

lemma extends_users_statement:
  "insert_user u d = Some (x, d') \<Longrightarrow> extends_users d d'"
  "insert_first_user u d = Some (n, d') \<Longrightarrow> extends_users d d'"
  "user_update_ok f \<Longrightarrow> extends_users d (update_user uid f d)"
  "insert_session se d = Some (x, d') \<Longrightarrow> extends_users d d'"
  "extends_users d (revoke_active uid t d)" "extends_users d (update_session h g d)"
  by (auto simp: extends_users_def insert_user_def insert_first_user_def update_user_def insert_session_def
      revoke_active_def update_session_def user_update_ok_def identity_def split: if_splits)

interpretation accounts: store_statements extends_users
  by unfold_locales
    (auto simp: extends_users_same intro: extends_users_statement dest: other_tables [THEN extends_users_same],
      auto simp: extends_users_def)

section \<open>The administrator\<close>

text \<open>A built-in role is there under its name.\<close>

definition builtin_role :: "string \<Rightarrow> string \<Rightarrow> db \<Rightarrow> bool" where
  "builtin_role i nm d \<longleftrightarrow> (\<exists>r\<in>set (roles d). rr_id r = i \<and> rr_name r = nm \<and> rr_builtin r)"

abbreviation admin_role :: "db \<Rightarrow> bool" where
  "admin_role \<equiv> builtin_role ''role-admin'' ''Admin''"

definition has_admin :: "db \<Rightarrow> bool" where
  "has_admin d \<longleftrightarrow> admin_rows d \<noteq> []"

lemma admin_rows_iff:
  "v \<in> set (admin_rows d) \<longleftrightarrow> (\<exists>u\<in>set (users d). ur_id u = v \<and> ur_enabled u)
     \<and> (\<exists>l\<in>set (user_roles d). ul_user_id l = v \<and> ul_role_id l = ''role-admin'')"
  by (auto simp: admin_rows_def)

lemma has_admin_iff: "has_admin d \<longleftrightarrow> (\<exists>v. v \<in> set (admin_rows d))"
  by (auto simp: has_admin_def neq_Nil_conv) (metis list.set_cases)

lemma same_roles:
  "insert_user u d = Some (x, d') \<Longrightarrow> roles d' = roles d"
  "insert_first_user u d = Some (n, d') \<Longrightarrow> roles d' = roles d"
  "insert_user_roles uid rids d = Some (n, d') \<Longrightarrow> roles d' = roles d"
  "insert_audit a d = Some (x, d') \<Longrightarrow> roles d' = roles d"
  "insert_ignore_role_permission rid perm d = Some (x, d') \<Longrightarrow> roles d' = roles d"
  "insert_session se d = Some (x, d') \<Longrightarrow> roles d' = roles d"
  "insert_terminal te d = Some (x, d') \<Longrightarrow> roles d' = roles d"
  "insert_role_permission rid perm d = Some (x, d') \<Longrightarrow> roles d' = roles d"
  "upsert_policy po d = Some (x, d') \<Longrightarrow> roles d' = roles d"
  "insert_rule ru d = Some (x, d') \<Longrightarrow> roles d' = roles d"
  unfolding insert_user_def insert_first_user_def insert_user_roles_def insert_audit_def
    insert_ignore_role_permission_def insert_session_def insert_terminal_def insert_role_permission_def
    upsert_policy_def insert_rule_def
  by (auto simp only: option.simps prod.inject split: if_split_asm) simp_all

lemma same_roles_modify [simp]:
  "roles (update_user uid f d) = roles d" "roles (revoke_active uid t d) = roles d"
  "roles (upsert_permission p d) = roles d" "roles (insert_ignore_setting st d) = roles d"
  "roles (update_session h g d) = roles d" "roles (touch_terminal tid status t t' d) = roles d"
  "roles (upsert_setting k v t d) = roles d" "roles (trim_audit keep d) = roles d"
  "roles (clear_role_permissions rid d) = roles d" "roles (clear_rules pid d) = roles d"
  "roles (delete_policy pid d) = roles d" "roles (clear_user_roles uid d) = roles d"
  by (simp_all add: update_user_def revoke_active_def upsert_permission_def insert_ignore_setting_def
      update_session_def touch_terminal_def upsert_setting_def trim_audit_def clear_role_permissions_def
      clear_rules_def delete_policy_def clear_user_roles_def Let_def split: prod.split)

lemma builtin_role_same: "roles d' = roles d \<Longrightarrow> builtin_role i nm d \<Longrightarrow> builtin_role i nm d'"
  by (simp add: builtin_role_def)

lemma builtin_role_insert:
  "builtin_role i nm d \<Longrightarrow> builtin_role i nm (insert_ignore_role r d)"
  "insert_role r d = Some (x, d') \<Longrightarrow> builtin_role i nm d \<Longrightarrow> builtin_role i nm d'"
  by (auto simp: builtin_role_def insert_ignore_role_def insert_role_def split: if_splits)

lemma role_by_id: "wf_db d \<Longrightarrow> r \<in> set (roles d) \<Longrightarrow> q \<in> set (roles d) \<Longrightarrow> rr_id r = rr_id q \<Longrightarrow> r = q"
  by (auto simp: wf_db_def wf_roles_def distinct_map inj_on_def)

lemma builtin_not_deleted:
  assumes "wf_db d" and "builtin_role i nm d"
  shows "i \<notin> set (map rr_id (filter (\<lambda>r. rr_id r = rid \<and> \<not> rr_builtin r) (roles d)))"
proof
  assume "i \<in> set (map rr_id (filter (\<lambda>r. rr_id r = rid \<and> \<not> rr_builtin r) (roles d)))"
  then obtain q where "q \<in> set (roles d)" "rr_id q = i" "\<not> rr_builtin q" by auto
  moreover obtain r where "r \<in> set (roles d)" "rr_id r = i" "rr_builtin r"
    using assms(2) by (auto simp: builtin_role_def)
  ultimately show False using role_by_id [OF assms(1), of r q] by simp
qed

lemma builtin_role_delete:
  assumes "wf_db d" and "builtin_role i nm d"
  shows "builtin_role i nm (snd (delete_role rid d))"
proof -
  obtain r where r: "r \<in> set (roles d)" "rr_id r = i" "rr_name r = nm" "rr_builtin r"
    using assms(2) by (auto simp: builtin_role_def)
  moreover have "r \<in> set (roles (snd (delete_role rid d)))"
    using builtin_not_deleted [OF assms, of rid] r(1,2) unfolding delete_role_def Let_def by simp
  ultimately show ?thesis unfolding builtin_role_def by blast
qed

lemma builtin_role_rename:
  assumes "rename_role rid name desc d = Some (x, d')" and "find (\<lambda>q. rr_id q = rid) (roles d) = Some q"
    and "rr_builtin q \<longrightarrow> rr_name q = name" and "wf_db d" and "builtin_role i nm d"
  shows "builtin_role i nm d'"
proof -
  obtain r where r: "r \<in> set (roles d)" "rr_id r = i" "rr_name r = nm" "rr_builtin r"
    using assms(5) by (auto simp: builtin_role_def)
  have q: "q \<in> set (roles d)" "rr_id q = rid" using assms(2) by (auto simp: find_Some_iff)
  have "name = nm" if "rid = i" using role_by_id [OF assms(4) r(1) q(1)] r q assms(3) that by auto
  moreover have "roles d' = update_where (\<lambda>r. rr_id r = rid) (\<lambda>r. r\<lparr>rr_name := name, rr_description := desc\<rparr>) (roles d)"
    using assms(1) unfolding rename_role_def by (auto split: if_split_asm)
  ultimately show ?thesis using r by (auto simp: builtin_role_def intro!: bexI [of _ r])
qed

text \<open>The schema and a built-in role together.\<close>

definition keeps_builtin :: "string \<Rightarrow> string \<Rightarrow> db \<Rightarrow> db \<Rightarrow> bool" where
  "keeps_builtin i nm d d' \<longleftrightarrow> (wf_db d \<and> builtin_role i nm d \<longrightarrow> wf_db d' \<and> builtin_role i nm d')"

lemma keeps_builtin_same: "keeps_wf d d' \<Longrightarrow> roles d' = roles d \<Longrightarrow> keeps_builtin i nm d d'"
  by (auto simp: keeps_builtin_def keeps_wf_def builtin_role_def)

lemma keeps_builtin_statement:
  "insert_role r d = Some (x, d') \<Longrightarrow> keeps_builtin i nm d d'" "keeps_builtin i nm d (insert_ignore_role r d)"
  "keeps_builtin i nm d (snd (delete_role rid d))"
  "rename_role rid name desc d = Some (x, d') \<Longrightarrow> find (\<lambda>q. rr_id q = rid) (roles d) = Some q \<Longrightarrow>
     rr_builtin q \<longrightarrow> rr_name q = name \<Longrightarrow> keeps_builtin i nm d d'"
  unfolding keeps_builtin_def
  by (blast intro: builtin_role_insert builtin_role_delete wf_insert_role wf_insert_ignore_role wf_delete_role,
      blast intro: builtin_role_insert builtin_role_delete wf_insert_role wf_insert_ignore_role wf_delete_role,
      blast intro: builtin_role_insert builtin_role_delete wf_insert_role wf_insert_ignore_role wf_delete_role,
      metis builtin_role_rename wf_rename_role)

interpretation builtin: store_statements "keeps_builtin i nm" for i nm
proof unfold_locales
  show "keeps_builtin i nm d d" for d by (simp add: keeps_builtin_def)
  show "keeps_builtin i nm d d' \<Longrightarrow> keeps_builtin i nm d' d'' \<Longrightarrow> keeps_builtin i nm d d''" for d d' d''
    by (simp add: keeps_builtin_def)
qed (assumption | rule keeps_builtin_statement keeps_builtin_same same_roles same_roles_modify
    schema.R_insert_user schema.R_insert_first_user schema.R_insert_user_roles schema.R_update_user schema.R_revoke_active
    schema.R_insert_audit schema.R_upsert_permission schema.R_insert_ignore_role_permission
    schema.R_insert_ignore_setting schema.R_insert_session schema.R_update_session schema.R_insert_terminal
    schema.R_touch_terminal schema.R_upsert_setting schema.R_trim_audit schema.R_clear_role_permissions
    schema.R_insert_role_permission schema.R_upsert_policy schema.R_clear_rules schema.R_insert_rule
    schema.R_delete_policy schema.R_set_user schema.R_clear_user_roles)+

section \<open>An enabled administrator remains\<close>

definition keeps_admins :: "db \<Rightarrow> db \<Rightarrow> bool" where
  "keeps_admins d d' \<longleftrightarrow> set (admin_rows d) \<subseteq> set (admin_rows d')"

text \<open>The administrators other than the user \<open>uid\<close>.\<close>

definition keeps_others :: "string \<Rightarrow> db \<Rightarrow> db \<Rightarrow> bool" where
  "keeps_others uid d d' \<longleftrightarrow> set (admin_rows d) - {uid} \<subseteq> set (admin_rows d')"

lemma keeps_admins_same: "users d' = users d \<Longrightarrow> user_roles d' = user_roles d \<Longrightarrow> keeps_admins d d'"
  by (simp add: keeps_admins_def admin_rows_def)

lemma same_user_roles:
  "insert_audit a d = Some (x, d') \<Longrightarrow> user_roles d' = user_roles d"
  "insert_ignore_role_permission rid perm d = Some (x, d') \<Longrightarrow> user_roles d' = user_roles d"
  "insert_session se d = Some (x, d') \<Longrightarrow> user_roles d' = user_roles d \<and> users d' = users d"
  "insert_terminal te d = Some (x, d') \<Longrightarrow> user_roles d' = user_roles d"
  "insert_role r d = Some (x, d') \<Longrightarrow> user_roles d' = user_roles d"
  "rename_role rid name desc d = Some (x, d') \<Longrightarrow> user_roles d' = user_roles d"
  "insert_role_permission rid perm d = Some (x, d') \<Longrightarrow> user_roles d' = user_roles d"
  "upsert_policy po d = Some (x, d') \<Longrightarrow> user_roles d' = user_roles d"
  "insert_rule ru d = Some (x, d') \<Longrightarrow> user_roles d' = user_roles d"
  unfolding insert_audit_def insert_ignore_role_permission_def insert_session_def insert_terminal_def
    insert_role_def rename_role_def insert_role_permission_def upsert_policy_def insert_rule_def
  by (auto simp only: option.simps prod.inject split: if_split_asm) simp_all

lemma same_user_roles_modify [simp]:
  "user_roles (update_user uid f d) = user_roles d" "user_roles (revoke_active uid t d) = user_roles d"
  "user_roles (upsert_permission p d) = user_roles d" "user_roles (insert_ignore_setting st d) = user_roles d"
  "user_roles (update_session h g d) = user_roles d" "user_roles (touch_terminal tid status t t' d) = user_roles d"
  "user_roles (upsert_setting k v t d) = user_roles d" "user_roles (trim_audit keep d) = user_roles d"
  "user_roles (clear_role_permissions rid d) = user_roles d" "user_roles (clear_rules pid d) = user_roles d"
  "user_roles (delete_policy pid d) = user_roles d" "user_roles (insert_ignore_role r d) = user_roles d"
  "users (revoke_active uid t d) = users d" "users (update_session h g d) = users d"
  by (simp_all add: update_user_def revoke_active_def upsert_permission_def insert_ignore_setting_def
      update_session_def touch_terminal_def upsert_setting_def trim_audit_def clear_role_permissions_def
      clear_rules_def delete_policy_def insert_ignore_role_def Let_def split: prod.split)

lemma keeps_admins_insert:
  "insert_user u d = Some (x, d') \<Longrightarrow> keeps_admins d d'"
  "insert_first_user u d = Some (n, d') \<Longrightarrow> keeps_admins d d'"
  "insert_user_roles uid rids d = Some (n, d') \<Longrightarrow> keeps_admins d d'"
  by (auto simp: keeps_admins_def admin_rows_iff insert_user_def insert_first_user_def insert_user_roles_def
      split: if_splits)

lemma keeps_admins_update:
  assumes "user_update_ok f" and "\<And>u. ur_enabled u \<Longrightarrow> ur_enabled (f u)"
  shows "keeps_admins d (update_user uid f d)"
  using assms unfolding keeps_admins_def user_update_ok_def subset_iff admin_rows_iff
  by (auto simp: update_user_def intro!: bexI)

lemma keeps_admins_delete_role:
  assumes "wf_db d" and "admin_role d"
  shows "keeps_admins d (snd (delete_role rid d))"
  using builtin_not_deleted [OF assms, of rid]
  unfolding keeps_admins_def subset_iff admin_rows_iff delete_role_def Let_def by auto

lemma wf_empty_db [simp]: "wf_db empty_db"
  by (simp add: wf_db_def empty_db_def wf_parts)

end
