(* ===== verification/Store_Admin.thy ===== *)
theory Store_Admin
  imports Store_Invariants
begin

text \<open>
  The guard of \<open>UpdateUser\<close>: no operation of the store takes away the last enabled administrator.
  The other operations are within the relation statement by statement; \<open>UpdateUser\<close> is handled by
  following a successful run through its parts.
\<close>

section \<open>The user that is updated and the others\<close>

interpretation others: store_relation "keeps_others uid" for uid
  by unfold_locales (auto simp: keeps_others_def)

lemma keeps_admins_others: "keeps_admins d d' \<Longrightarrow> keeps_others uid d d'"
  by (auto simp: keeps_admins_def keeps_others_def)

lemma keeps_admins_trans: "keeps_admins d d' \<Longrightarrow> keeps_admins d' d'' \<Longrightarrow> keeps_admins d d''"
  by (auto simp: keeps_admins_def)

lemma keeps_admins_revoke: "keeps_admins d d' \<Longrightarrow> keeps_admins d (revoke_active uid t d')"
  by (erule keeps_admins_trans) (rule keeps_admins_same; simp)

lemma keeps_others_update: "keeps_others uid d (update_user uid f d)"
proof -
  have "u \<in> set (users (update_user uid f d))" if "u \<in> set (users d)" "ur_id u \<noteq> uid" for u
    using that by (auto simp: update_user_def update_where_def image_iff intro: bexI [of _ u])
  then show ?thesis unfolding keeps_others_def subset_iff admin_rows_iff Diff_iff singleton_iff by auto
qed

lemma keeps_others_clear: "keeps_others uid d (clear_user_roles uid d)"
  by (auto simp: keeps_others_def admin_rows_iff clear_user_roles_def)

lemma keeps_others_revoke: "keeps_others uid d (revoke_active uid' t d)"
  by (rule keeps_admins_others) (simp add: keeps_admins_same)

lemma others_assign_roles: "rel_steps (keeps_others uid) (assign_roles unknown uid rs)"
  unfolding assign_roles_def assign_role_def
  by (auto intro!: others.steps_intros others.steps_checked keeps_admins_others intro: keeps_admins_insert(3))

lemma others_UpdateUser: "rel_steps (keeps_others uid) (UpdateUser uid enabled rso password)"
  by (auto simp: UpdateUser_def UpdateUser_parts user_update_ok_def split: option.split
      intro!: others.steps_intros others.steps_modify keeps_others_update keeps_others_clear keeps_others_revoke others_assign_roles)

section \<open>A successful update\<close>

lemma insert_user_roles_ok:
  "insert_user_roles uid rids d = Some (n, d') \<Longrightarrow> d' = d\<lparr>user_roles := user_roles d @ map (local_scope uid) rids\<rparr>"
  by (auto simp: insert_user_roles_def split: if_splits)

text \<open>What the loop over the roles leaves.\<close>

lemma assign_roles_ok:
  "assign_roles unknown uid rs e (n, d) = (Inr (), n', d') \<Longrightarrow>
     users d' = users d \<and> roles d' = roles d \<and> set (user_roles d) \<subseteq> set (user_roles d')
     \<and> (\<forall>role\<in>set rs. \<forall>rid\<in>set (role_matches role d). local_scope uid rid \<in> set (user_roles d'))"
proof (induction rs arbitrary: n d)
  case Nil
  then show ?case by (simp add: assign_roles_def ret_ok)
next
  case (Cons role rs)
  then obtain k m d1 where 1: "assign_role uid role d = Some (m, d1)"
    and 2: "assign_roles unknown uid rs e (k, d1) = (Inr (), n', d')"
    by (auto simp: assign_roles_def run_ok split: if_splits)
  have d1: "d1 = d\<lparr>user_roles := user_roles d @ map (local_scope uid) (role_matches role d)\<rparr>"
    using insert_user_roles_ok [OF 1 [unfolded assign_role_def]] .
  have "role_matches q d1 = role_matches q d" for q by (simp add: d1 role_matches_def)
  with Cons.IH [OF 2] show ?case by (auto simp: d1)
qed

lemma keeps_admin_matches:
  assumes "admin_role d" and "keeps_admin (Some rs)"
  shows "\<exists>role\<in>set rs. ''role-admin'' \<in> set (role_matches role d)"
proof -
  obtain role where role: "role \<in> set rs" "role = ''role-admin'' \<or> equalFold role ''Admin''"
    using assms(2) by (auto simp: keeps_admin_def list_ex_iff)
  obtain r where r: "r \<in> set (roles d)" "rr_id r = ''role-admin''" "rr_name r = ''Admin''"
    using assms(1) by (auto simp: builtin_role_def)
  have "rr_id r = role \<or> nocase (rr_name r) role"
    using role(2) r(2,3) by (auto simp: equalFold_def nocase_def fold_case_def)
  with r(1,2) have "''role-admin'' \<in> set (role_matches role d)"
    unfolding role_matches_def by (auto intro!: bexI [of _ r])
  with role(1) show ?thesis by blast
qed

lemma update_enabled_ok:
  assumes "update_enabled uid enabled e (n, d) = (Inr (), n', d')" and "enabled \<noteq> Some False"
  shows "keeps_admins d d' \<and> roles d' = roles d"
  using assms by (cases enabled)
    (auto simp: update_enabled_def run_ok keeps_admins_same user_update_ok_def intro!: keeps_admins_update)

lemma update_password_ok:
  assumes "update_password uid password e (n, d) = (Inr (), n', d')"
  shows "keeps_admins d d' \<and> roles d' = roles d"
proof -
  have "keeps_admins d (update_user uid (\<lambda>u. u\<lparr>ur_password_hash := h, ur_updated_at := t\<rparr>) d)" for h t
    by (rule keeps_admins_update) (simp_all add: user_update_ok_def)
  with assms show ?thesis
    by (auto simp: update_password_def run_ok keeps_admins_same split: if_splits intro!: keeps_admins_revoke)
qed

lemma update_roles_ok:
  assumes "update_roles uid rso e (n, d) = (Inr (), n', d')" and "keeps_admin rso" and "admin_role d"
    and "uid \<in> set (admin_rows d)"
  shows "uid \<in> set (admin_rows d')"
proof (cases rso)
  case None
  with assms show ?thesis by (simp add: update_roles_def ret_ok)
next
  case (Some rs)
  let ?c = "clear_user_roles uid d"
  obtain k where a: "assign_roles (\<lambda>_. ErrNew ''unknown role'') uid rs e (k, ?c) = (Inr (), n', d')"
    using assms(1) Some by (auto simp: update_roles_def run_ok)
  obtain role where "role \<in> set rs" "''role-admin'' \<in> set (role_matches role ?c)"
    using keeps_admin_matches [of ?c rs] assms(2,3) Some by (auto simp: builtin_role_def)
  with assign_roles_ok [OF a] have "local_scope uid ''role-admin'' \<in> set (user_roles d')" "users d' = users d"
    by auto
  with assms(4) show ?thesis unfolding admin_rows_iff
    by (metis local_scope_fields)
qed

lemma guard_ok:
  assumes "guard_last_admin uid enabled rso e (n, d) = (Inr (), n', d')"
    and "set (admin_rows d) = {uid}"
  shows "enabled \<noteq> Some False \<and> keeps_admin rso"
proof -
  have "set (remdups (admin_rows d)) = {uid}" using assms(2) by simp
  then have "count_distinct (admin_rows d) = 1"
    unfolding count_distinct_def by (metis card.empty card.insert distinct_card distinct_remdups empty_iff finite.emptyI One_nat_def)
  with assms show ?thesis by (auto simp: guard_last_admin_def run_ok split: if_splits)
qed

lemma guard_same: "guard_last_admin uid enabled rso e (n, d) = (Inr (), n', d') \<Longrightarrow> d' = d"
  by (auto simp: guard_last_admin_def run_ok split: if_splits)

lemma UpdateUser_keeps_admin:
  assumes "UpdateUser uid enabled rso password e (n, d) = (Inr (), n', d')" and "admin_role d" and "has_admin d"
  shows "has_admin d'"
proof (cases "set (admin_rows d) = {uid}")
  case False
  then obtain v where "v \<in> set (admin_rows d) - {uid}" using assms(3) by (auto simp: has_admin_iff)
  moreover have "keeps_others uid d d'"
    using others_UpdateUser [of uid enabled rso password] assms(1) unfolding rel_steps_def by (metis snd_conv)
  ultimately show ?thesis by (auto simp: keeps_others_def has_admin_iff)
next
  case True
  obtain k0 k1 k2 k3 d0 d1 d2 where g: "guard_last_admin uid enabled rso e (Suc n, d) = (Inr (), k0, d0)"
    and 1: "update_enabled uid enabled e (k0, d0) = (Inr (), k1, d1)"
    and 2: "update_password uid password e (k1, d1) = (Inr (), k2, d2)"
    and 3: "update_roles uid rso e (k2, d2) = (Inr (), k3, d')"
    using assms(1) by (auto simp: UpdateUser_def in_tx_ok bnd_ok)
  have "d0 = d" by (rule guard_same [OF g])
  have keep: "enabled \<noteq> Some False" "keeps_admin rso" using guard_ok [OF g True] by auto
  have "uid \<in> set (admin_rows d2)" "admin_role d2"
    using update_enabled_ok [OF 1 keep(1)] update_password_ok [OF 2] True assms(2) \<open>d0 = d\<close>
    by (auto simp: keeps_admins_def builtin_role_def)
  with update_roles_ok [OF 3 keep(2)] show ?thesis by (auto simp: has_admin_iff)
qed

section \<open>Every operation\<close>

definition keeps_administrator :: "db \<Rightarrow> db \<Rightarrow> bool" where
  "keeps_administrator d d' \<longleftrightarrow> (wf_db d \<and> admin_role d \<and> has_admin d \<longrightarrow> wf_db d' \<and> admin_role d' \<and> has_admin d')"

lemma keeps_administrator_intro:
  assumes "keeps_builtin ''role-admin'' ''Admin'' d d'" and "wf_db d \<Longrightarrow> admin_role d \<Longrightarrow> has_admin d \<Longrightarrow> has_admin d'"
  shows "keeps_administrator d d'"
  using assms by (auto simp: keeps_administrator_def keeps_builtin_def)

lemma keeps_administrator_admins:
  "keeps_builtin ''role-admin'' ''Admin'' d d' \<Longrightarrow> keeps_admins d d' \<Longrightarrow> keeps_administrator d d'"
  by (rule keeps_administrator_intro) (auto simp: keeps_admins_def has_admin_iff)

lemma administrator_UpdateUser: "rel_steps keeps_administrator (UpdateUser uid enabled rso password)"
  unfolding rel_steps_def
proof (intro allI)
  fix e n d
  obtain r n' d' where u: "UpdateUser uid enabled rso password e (n, d) = (r, n', d')"
    by (cases "UpdateUser uid enabled rso password e (n, d)") auto
  have b: "keeps_builtin ''role-admin'' ''Admin'' d d'"
    using builtin.steps_UpdateUser u unfolding rel_steps_def by (metis snd_conv)
  have "has_admin d'" if "admin_role d" "has_admin d"
  proof (cases r)
    case (Inl err)
    with u that show ?thesis unfolding UpdateUser_def using in_tx_error by metis
  next
    case (Inr x)
    with u that UpdateUser_keeps_admin show ?thesis by simp
  qed
  with b u show "keeps_administrator d (snd (snd (UpdateUser uid enabled rso password e (n, d))))"
    by (simp add: keeps_administrator_intro)
qed

lemma keeps_administrator_delete_role: "keeps_administrator d (snd (delete_role rid d))"
  by (intro keeps_administrator_intro builtin.R_delete_role)
    (use keeps_admins_delete_role in \<open>unfold keeps_admins_def has_admin_iff, blast\<close>)

lemmas builtin_laws = builtin.R_insert_user builtin.R_insert_first_user builtin.R_insert_user_roles
  builtin.R_update_user builtin.R_revoke_active builtin.R_insert_audit builtin.R_upsert_permission
  builtin.R_insert_ignore_role builtin.R_insert_ignore_role_permission builtin.R_insert_ignore_setting
  builtin.R_insert_session builtin.R_update_session builtin.R_insert_terminal builtin.R_touch_terminal
  builtin.R_upsert_setting builtin.R_trim_audit builtin.R_insert_role builtin.R_rename_role
  builtin.R_clear_role_permissions builtin.R_insert_role_permission builtin.R_upsert_policy builtin.R_clear_rules
  builtin.R_insert_rule builtin.R_delete_policy

lemmas same_admins = other_tables [THEN conjunct1] same_user_roles(1,2,4-9)
  same_user_roles(3) [THEN conjunct1] same_user_roles(3) [THEN conjunct2] other_tables_same same_user_roles_modify

interpretation administrator: store_operations keeps_administrator
proof unfold_locales
  show "keeps_administrator d d" for d by (simp add: keeps_administrator_def)
  show "keeps_administrator d d' \<Longrightarrow> keeps_administrator d' d'' \<Longrightarrow> keeps_administrator d d''" for d d' d''
    by (simp add: keeps_administrator_def)
  show "user_update_ok f \<Longrightarrow> (\<And>u. ur_enabled (f u) = ur_enabled u) \<Longrightarrow> keeps_administrator d (update_user uid f d)" for f d uid
    by (rule keeps_administrator_admins) (auto intro: builtin.R_update_user keeps_admins_update)
  show "rel_steps keeps_administrator (UpdateUser uid enabled rso password)" for uid enabled rso password
    by (rule administrator_UpdateUser)
  show "keeps_administrator d (snd (delete_role rid d))" for d rid
    by (rule keeps_administrator_delete_role)
qed (assumption | rule keeps_administrator_admins builtin_laws keeps_admins_insert keeps_admins_same same_admins)+

end
