(* ===== verification/Store_Theorems.thy ===== *)
theory Store_Theorems
  imports Store_Admin
begin

text \<open>
  Correctness of the store (\<open>src/backend/internal/database/database.go\<close>): what every sequence of
  operations keeps, and what the single operations on accounts and sessions achieve.
\<close>

section \<open>Sequences of operations\<close>

text \<open>An environment in which nothing fails; it serves the examples.\<close>

definition calm_env :: env where
  "calm_env = \<lparr>engine_fails = (\<lambda>_. False), clock = (\<lambda>n. n), random = (\<lambda>n k. Some (replicate k (char_of (n mod 256)))),
     sha256 = (\<lambda>s. s), argon2 = (\<lambda>p s t m l k. Some (p @ s)), dummyPasswordHash = []\<rparr>"

definition admin_user :: user_row where
  "admin_user = \<lparr>ur_id = ''u1'', ur_username = ''root'', ur_password_hash = [], ur_enabled = True, ur_created_at = [],
     ur_updated_at = [], ur_last_login_at = None, ur_last_activity_at = None\<rparr>"

definition admin_role_row :: role_row where
  "admin_role_row = \<lparr>rr_id = ''role-admin'', rr_name = ''Admin'', rr_description = [], rr_builtin = True, rr_created_at = []\<rparr>"

definition small_db :: db where
  "small_db = empty_db\<lparr>users := [admin_user], roles := [admin_role_row], user_roles := [local_scope ''u1'' ''role-admin'']\<rparr>"

lemma small_db_tables [simp]:
  "users small_db = [admin_user]" "roles small_db = [admin_role_row]" "user_roles small_db = [local_scope ''u1'' ''role-admin'']"
  "permissions small_db = []" "role_permissions small_db = []" "sessions small_db = []" "policies small_db = []"
  "policy_rules small_db = []" "audit_events small_db = []" "settings small_db = []" "terminal_sessions small_db = []"
  by (simp_all add: small_db_def empty_db_def)

lemma small_db_good: "wf_db small_db" "admin_role small_db" "has_admin small_db"
  by (simp_all add: wf_db_def wf_parts builtin_role_def has_admin_def admin_rows_def admin_user_def admin_role_row_def)

text \<open>The same with a session of the user under the token \<open>tok\<close>, live until one hour after the epoch or revoked.\<close>

definition tok_session :: "string option \<Rightarrow> session_row" where
  "tok_session r = \<lparr>sr_id_hash = TokenHash (sha256 calm_env) ''tok'', sr_user_id = ''u1'', sr_csrf_hash = [], sr_created_at = [],
     sr_expires_at = rfc3339nano 3600000000000, sr_last_activity_at = [], sr_revoked_at = r, sr_source_ip = [], sr_user_agent = []\<rparr>"

definition session_db :: "string option \<Rightarrow> db" where
  "session_db r = small_db\<lparr>sessions := [tok_session r]\<rparr>"

lemma calm_env_fields [simp]: "\<not> engine_fails calm_env n" "clock calm_env n = n"
    "random calm_env n k = Some (replicate k (char_of (n mod 256)))"
  by (simp_all add: calm_env_def)

lemma four_digit_early: "sec_of t < 86400 \<Longrightarrow> four_digit_year t"
  by (simp add: four_digit_year_def sec_of_def day_year_def civil_year.simps year_len_def leap_def)

text \<open>
  No sequence of store operations, with any arguments, any failures of the engine and any answers of the
  clock and the random source, leaves a database that violates a constraint of the schema: the keys
  of all tables stay unique (user and role names also up to letter case), every reference points to
  an existing row, and the checks on the effect and the match type of a policy rule hold.
\<close>

lemma store_keeps_schema:
  assumes "wf_db d" and "store_step\<^sup>*\<^sup>* d d'"
  shows "wf_db d'"
  using schema.store_steps [OF assms(2)] assms(1) by (simp add: keeps_wf_def)

lemma step_example: "runs m d (snd (snd (m e (n, d))))"
  by (auto simp: runs_def)

text \<open>
  C1: once there is an enabled administrator there always is one.  From a database with the built-in role
  \<open>role-admin\<close> and an enabled user who holds it, every sequence of operations leads to a database
  with an enabled user who holds it.
\<close>

theorem administrator_remains:
  assumes "wf_db d" and "admin_role d" and "has_admin d" and "store_step\<^sup>*\<^sup>* d d'"
  shows "\<exists>u l. u \<in> set (users d') \<and> ur_enabled u \<and> l \<in> set (user_roles d')
    \<and> ul_user_id l = ur_id u \<and> ul_role_id l = ''role-admin''"
  using administrator.store_steps [OF assms(4)] assms(1-3)
  by (auto simp: keeps_administrator_def has_admin_iff admin_rows_iff)

theorem administrator_remains_witness:
  "\<exists>u l. u \<in> set (users (snd (snd (UpdateUser ''u1'' (Some False) None [] calm_env (0, small_db))))) \<and> ur_enabled u
    \<and> l \<in> set (user_roles (snd (snd (UpdateUser ''u1'' (Some False) None [] calm_env (0, small_db)))))
    \<and> ul_user_id l = ur_id u \<and> ul_role_id l = ''role-admin''"
  using administrator_remains [OF small_db_good r_into_rtranclp [where r = store_step, OF step_UpdateUser [OF step_example]]] .

text \<open>
  A built-in role keeps its identifier, its name and its mark, whatever operations are called: it is
  neither deleted nor renamed.
\<close>

lemma builtin_role_remains:
  assumes "wf_db d" and "r \<in> set (roles d)" and "rr_builtin r" and "store_step\<^sup>*\<^sup>* d d'"
  shows "\<exists>r'\<in>set (roles d'). rr_id r' = rr_id r \<and> rr_name r' = rr_name r \<and> rr_builtin r'"
  using builtin.store_steps [OF assms(4), of "rr_id r" "rr_name r"] assms(1-3)
  by (auto simp: keeps_builtin_def builtin_role_def)

text \<open>
  Users are only ever added: the identifiers, names and creation times of the users of a database are an
  initial part of those after any sequence of operations.
\<close>

lemma users_only_added:
  assumes "store_step\<^sup>*\<^sup>* d d'"
  shows "prefix (map (\<lambda>u. (ur_id u, ur_username u, ur_created_at u)) (users d))
    (map (\<lambda>u. (ur_id u, ur_username u, ur_created_at u)) (users d'))"
  using accounts.store_steps [OF assms] by (simp add: extends_users_def identity_def [abs_def])

section \<open>Sessions\<close>

lemma GetUser_ok:
  "GetUser uid e (n, d) = (Inr x, n', d') \<longleftrightarrow> \<not> engine_fails e n \<and> \<not> engine_fails e (Suc n) \<and> n' = Suc (Suc n) \<and> d' = d
    \<and> (\<exists>u. find (\<lambda>u. ur_id u = uid) (users d) = Some u \<and> x = user_of u (user_join uid d))"
  by (auto simp: GetUser_def run_ok)

lemma user_of_fields [simp]: "user_ID (user_of u rows) = ur_id u" "user_Username (user_of u rows) = ur_username u"
    "user_Enabled (user_of u rows) = ur_enabled u"
  by (simp_all add: user_of_def split: prod.split)

lemma find_append: "find P (xs @ ys) = (case find P xs of None \<Rightarrow> find P ys | Some x \<Rightarrow> Some x)"
  by (induction xs) auto

lemma find_unique_key: "distinct (map k xs) \<Longrightarrow> x \<in> set xs \<Longrightarrow> find (\<lambda>y. k y = k x) xs = Some x"
  by (induction xs) (auto simp: image_iff)

lemma find_SomeD: "find P xs = Some x \<Longrightarrow> x \<in> set xs \<and> P x"
  by (auto simp: find_Some_iff)

lemma GetUser_same: "GetUser uid e (n, d) = (r, n', d') \<Longrightarrow> d' = d"
  by (auto simp: GetUser_def bnd_def query_row_def query_def exec_def ret_def
      split: prod.splits sum.splits if_splits option.splits)

lemma ResolveSession_dead:
  assumes "\<And>t s. s \<in> set (sessions d) \<Longrightarrow> \<not> live_session (TokenHash (sha256 e) token) t s"
  shows "\<not> is_ok (fst (ResolveSession token e (n, d))) \<and> snd (snd (ResolveSession token e (n, d))) = d"
proof -
  have "find (live_session (TokenHash (sha256 e) token) t) (sessions d) = None" for t
    using assms by (auto simp: find_None_iff)
  then show ?thesis
    by (simp add: ResolveSession_def bnd_def token_hash_def now_def query_row_def exec_def)
qed

text \<open>
  C11: a revocation is final.  Once every session stored under the hash of a token is revoked, no sequence of
  operations (logins, updates, recoveries, clock changes) makes the token resolve again.
\<close>

theorem revoked_session_never_resolves:
  assumes "revoked (TokenHash (sha256 e) token) d" and "store_step\<^sup>*\<^sup>* d d'"
  shows "\<not> is_ok (fst (ResolveSession token e (n, d')))"
proof -
  have "revoked (TokenHash (sha256 e) token) d'"
    using session_rows.store_steps [OF assms(2)] assms(1)
    by (simp add: keeps_session_def session_stable_def session_update_ok_def revoked_def)
  then show ?thesis
    using ResolveSession_dead [of d' e token n] by (auto simp: revoked_def session_sat_def live_session_def)
qed

theorem revoked_session_never_resolves_witness:
  "\<not> is_ok (fst (ResolveSession ''tok'' calm_env (0, snd (snd (CreateSession ''u1'' [] [] 5 calm_env (0, session_db (Some [])))))))"
proof (rule revoked_session_never_resolves)
  show "revoked (TokenHash (sha256 calm_env) ''tok'') (session_db (Some []))"
    by (simp add: revoked_def session_sat_def session_db_def tok_session_def)
  show "store_step\<^sup>*\<^sup>* (session_db (Some [])) (snd (snd (CreateSession ''u1'' [] [] 5 calm_env (0, session_db (Some [])))))"
    by (rule r_into_rtranclp, rule step_CreateSession, rule step_example)
qed

text \<open>
  What a resolved session stands for.  If a token resolves, there is a stored session under its hash that
  is not revoked and whose expiry text is greater than the text of the clock reading, the user of the
  session is enabled, and the answer is that user with the roles and permissions of the store and the
  CSRF hash of the session.
\<close>

lemma resolved_session_sound:
  assumes "ResolveSession token e (n, d) = (Inr x, n', d')"
  shows "\<exists>s u. s \<in> set (sessions d) \<and> sr_id_hash s = TokenHash (sha256 e) token \<and> sr_revoked_at s = None
    \<and> sr_expires_at s > rfc3339nano (clock e n)
    \<and> u \<in> set (users d) \<and> ur_id u = sr_user_id s \<and> ur_enabled u
    \<and> session_User x = user_of u (user_join (ur_id u) d) \<and> session_CSRFHash x = sr_csrf_hash s
    \<and> session_TokenHash x = sr_id_hash s"
proof -
  obtain s u where "find (live_session (TokenHash (sha256 e) token) (rfc3339nano (clock e n))) (sessions d) = Some s"
    and "find (\<lambda>u. ur_id u = sr_user_id s) (users d) = Some u" and "ur_enabled u"
    and "x = \<lparr>session_User = user_of u (user_join (sr_user_id s) d), session_TokenHash = TokenHash (sha256 e) token,
      session_CSRFHash = sr_csrf_hash s, session_ExpiresAt = sr_expires_at s\<rparr>"
    using assms by (auto simp: ResolveSession_def run_ok GetUser_ok)
  then show ?thesis by (intro exI [of _ s] exI [of _ u]) (auto simp: live_session_def dest!: find_SomeD)
qed

lemma tok_live: "live_session (TokenHash (sha256 calm_env) ''tok'') (rfc3339nano 0) (tok_session None)"
  using rfc3339nano_less [of 0 3600000000000]
  by (simp add: live_session_def tok_session_def four_digit_early sec_of_def)

lemma resolve_tok: "\<exists>x n' d'. ResolveSession ''tok'' calm_env (0, session_db None) = (Inr x, n', d')"
proof -
  have "ResolveSession ''tok'' calm_env (0, session_db None) \<noteq> (Inl err, n', d')" for err n' d'
    using tok_live by (simp add: ResolveSession_def GetUser_def bnd_def attempt_def token_hash_def now_def query_row_def
        query_def exec_def ret_def modify_def session_db_def tok_session_def admin_user_def user_of_fields)
  then show ?thesis by (metis is_ok.cases prod.exhaust sum.exhaust)
qed

text \<open>The session that a login stores.\<close>

lemma CreateSession_ok:
  assumes "CreateSession uid ip agent ttl e (n, d) = (Inr (token, csrf), n', d')"
  obtains s where "sr_id_hash s = TokenHash (sha256 e) token" "sr_user_id s = uid"
    "sr_csrf_hash s = TokenHash (sha256 e) csrf" "sr_expires_at s = rfc3339nano (clock e (n + 2) + ttl)"
    "sr_revoked_at s = None" "\<forall>x\<in>set (sessions d). sr_id_hash x \<noteq> TokenHash (sha256 e) token"
    "d' = d\<lparr>sessions := sessions d @ [s]\<rparr>"
proof -
  let ?s = "\<lparr>sr_id_hash = TokenHash (sha256 e) token, sr_user_id = uid, sr_csrf_hash = TokenHash (sha256 e) csrf,
    sr_created_at = rfc3339nano (clock e (n + 2)), sr_expires_at = rfc3339nano (clock e (n + 2) + ttl),
    sr_last_activity_at = rfc3339nano (clock e (n + 2)), sr_revoked_at = None, sr_source_ip = ip,
    sr_user_agent = Prelude.truncate agent 256\<rparr>"
  have "insert_session ?s d = Some ((), d')"
    using assms by (auto simp: CreateSession_def run_ok)
  then show ?thesis by (intro that [of ?s]) (auto simp: insert_session_def image_iff split: if_splits)
qed

text \<open>
  C17: a login session lives for its lifetime.  A token that \<open>CreateSession\<close> hands out at time \<open>t\<close> with lifetime
  \<open>ttl\<close> never resolves at a time in a later second than \<open>t + ttl\<close>, whatever operations happen in between
  (years have four digits in the texts up to the year 9999).
\<close>

theorem session_expires:
  assumes "CreateSession uid ip agent ttl e (n, d) = (Inr (token, csrf), n', d')" and "store_step\<^sup>*\<^sup>* d' d''"
    and "sha256 e' = sha256 e" and "four_digit_year (clock e' m)"
    and "sec_of (clock e' m) > sec_of (clock e (n + 2) + ttl)"
  shows "\<not> is_ok (fst (ResolveSession token e' (m, d'')))"
proof -
  let ?h = "TokenHash (sha256 e) token" and ?x = "rfc3339nano (clock e (n + 2) + ttl)"
  from assms(1) have "session_sat ?h (\<lambda>s. sr_expires_at s = ?x) d'"
    by (rule CreateSession_ok) (auto simp: session_sat_def)
  then have "session_sat ?h (\<lambda>s. sr_expires_at s = ?x) d''"
    using session_rows.store_steps [OF assms(2)]
    by (simp add: keeps_session_def session_stable_def session_update_ok_def)
  moreover have "\<not> ?x > rfc3339nano (clock e' m)"
    using rfc3339nano_less [OF assms(5,4)] by simp
  ultimately have "find (live_session ?h (rfc3339nano (clock e' m))) (sessions d'') = None"
    by (auto simp: find_None_iff session_sat_def live_session_def)
  then show ?thesis
    using assms(3) by (simp add: ResolveSession_def bnd_def token_hash_def now_def query_row_def exec_def)
qed

text \<open>Five seconds of login in the calm environment.\<close>

lemma calm_login: "\<exists>token csrf n' d'. CreateSession ''u1'' [] [] 5000000000 calm_env (0, small_db) = (Inr (token, csrf), n', d')"
  by (simp add: CreateSession_def bnd_def random_token_def RandomToken_def time_Now_def token_hash_def checked_def exec_def
      ret_def insert_session_def admin_user_def)

theorem session_expires_witness:
  "\<exists>token csrf n' d'. CreateSession ''u1'' [] [] 5000000000 calm_env (0, small_db) = (Inr (token, csrf), n', d')
    \<and> \<not> is_ok (fst (ResolveSession token (calm_env\<lparr>clock := (\<lambda>_. 6000000000)\<rparr>) (0, d')))"
proof -
  obtain token csrf n' d' where c: "CreateSession ''u1'' [] [] 5000000000 calm_env (0, small_db) = (Inr (token, csrf), n', d')"
    using calm_login by blast
  have "\<not> is_ok (fst (ResolveSession token (calm_env\<lparr>clock := (\<lambda>_. 6000000000)\<rparr>) (0, d')))"
    by (rule session_expires [OF c rtranclp.rtrancl_refl]) (simp_all add: four_digit_early sec_of_def)
  with c show ?thesis by blast
qed

text \<open>
  C16: a token resolves to its user.  If the clock is still in an earlier second than the end of the session,
  the user is enabled and the engine does not fail, the token that \<open>CreateSession\<close> returned resolves
  to the user it was created for, with the hash of the CSRF token it returned.
\<close>

theorem session_roundtrip:
  assumes "wf_db d" and "CreateSession (ur_id u) ip agent ttl e (n, d) = (Inr (token, csrf), n', d')"
    and "u \<in> set (users d)" and "ur_enabled u"
    and "sha256 e' = sha256 e" and "\<And>k. \<not> engine_fails e' k" and "four_digit_year (clock e (n + 2) + ttl)"
    and "sec_of (clock e' m) < sec_of (clock e (n + 2) + ttl)"
  shows "\<exists>x m' d''. ResolveSession token e' (m, d') = (Inr x, m', d'')
    \<and> session_User x = user_of u (user_join (ur_id u) d') \<and> session_CSRFHash x = TokenHash (sha256 e) csrf"
proof -
  let ?h = "TokenHash (sha256 e) token"
  from assms(2) obtain s where s: "sr_id_hash s = ?h" "sr_user_id s = ur_id u"
    "sr_csrf_hash s = TokenHash (sha256 e) csrf" "sr_expires_at s = rfc3339nano (clock e (n + 2) + ttl)"
    "sr_revoked_at s = None" "\<forall>x\<in>set (sessions d). sr_id_hash x \<noteq> ?h" "sessions d' = sessions d @ [s]" "users d' = users d"
    by (rule CreateSession_ok) simp
  have "find (live_session ?h t) (sessions d) = None" for t
    using s(6) by (auto simp: find_None_iff live_session_def)
  then have "find (live_session ?h (rfc3339nano (clock e' m))) (sessions d') = Some s"
    using s rfc3339nano_less [OF assms(8,7)] by (simp add: find_append live_session_def)
  moreover have "find (\<lambda>v. ur_id v = ur_id u) (users d') = Some u"
    using assms(1,3) s(8) by (simp add: find_unique_key wf_db_def wf_users_def)
  ultimately show ?thesis
    using assms(4-6) s(2,3)
    by (simp add: ResolveSession_def GetUser_def bnd_def attempt_def token_hash_def now_def query_row_def query_def
        exec_def ret_def modify_def)
qed

theorem session_roundtrip_witness:
  "\<exists>token csrf n' d' x m' d''. CreateSession ''u1'' [] [] 5000000000 calm_env (0, small_db) = (Inr (token, csrf), n', d')
    \<and> ResolveSession token calm_env (7, d') = (Inr x, m', d'')
    \<and> session_User x = user_of admin_user (user_join ''u1'' d') \<and> session_CSRFHash x = TokenHash (sha256 calm_env) csrf"
proof -
  obtain token csrf n' d' where c: "CreateSession ''u1'' [] [] 5000000000 calm_env (0, small_db) = (Inr (token, csrf), n', d')"
    using calm_login by blast
  have u: "ur_id admin_user = ''u1''" "ur_enabled admin_user" by (simp_all add: admin_user_def)
  have "\<exists>x m' d''. ResolveSession token calm_env (7, d') = (Inr x, m', d'')
    \<and> session_User x = user_of admin_user (user_join (ur_id admin_user) d') \<and> session_CSRFHash x = TokenHash (sha256 calm_env) csrf"
    by (rule session_roundtrip [OF small_db_good(1) c [folded u(1)] _ u(2)]) (simp_all add: four_digit_early sec_of_def)
  with c u show ?thesis by auto
qed

end
