(* ===== verification/Store_Accounts.thy ===== *)
theory Store_Accounts
  imports Store_Theorems
begin

text \<open>
  What the single operations of the store (\<open>src/backend/internal/database/database.go\<close>) achieve:
  authentication, accounts, the atomicity of updates, roles, policies, settings and the audit trail.
\<close>

section \<open>Authentication\<close>

lemma Authenticate_ok:
  assumes "Authenticate username password e (n, d) = (Inr (Some x), n', d')"
  shows "\<exists>u\<in>set (users d). nocase (ur_username u) username \<and> ur_enabled u \<and> user_ID x = ur_id u
    \<and> VerifyPassword (argon2 e) (ur_password_hash u) password = Some True"
proof -
  let ?q = "query_row (\<lambda>d. find (\<lambda>u. nocase (ur_username u) username) (users d))"
  from assms [unfolded Authenticate_def bnd_ok] obtain r t where q: "attempt ?q e (n, d) = (Inr r, t)"
    and rest: "(case r of Inl ErrNoRows \<Rightarrow> bnd (verify_dummy password) (\<lambda>_. ret None) | Inl err \<Rightarrow> raise err
       | Inr u \<Rightarrow> if \<not> ur_enabled u then ret None
           else bnd (verify_password (ur_password_hash u) password) (\<lambda>ok.
             if \<not> ok then ret None
             else bnd now (\<lambda>t1. bnd now (\<lambda>t2.
               bnd (attempt (modify (update_user (ur_id u)
                 (\<lambda>x. x\<lparr>ur_last_login_at := Some t1, ur_last_activity_at := Some t2\<rparr>)))) (\<lambda>_.
               bnd (GetUser (ur_id u)) (\<lambda>x. ret (Some x))))))) e t = (Inr (Some x), n', d')" by blast
  show ?thesis
  proof (cases r)
    case (Inl err)
    with rest show ?thesis by (cases err) (auto simp: run_ok)
  next
    case (Inr u)
    with q obtain t' where "find (\<lambda>u. nocase (ur_username u) username) (users d) = Some u" "t = (t', d)"
      by (cases t) (auto simp: attempt_ok query_row_ok)
    with rest Inr show ?thesis
      by (auto simp: run_ok GetUser_ok split: if_splits dest!: find_SomeD)
  qed
qed

section \<open>Lookups that fail\<close>

lemma GetUser_no_panic: "GetUser uid e s = (Inl err, st) \<Longrightarrow> err \<noteq> ErrPanic p"
  by (cases s) (auto simp: GetUser_def bnd_def query_row_def query_def exec_def ret_def
      split: prod.splits sum.splits if_splits option.splits)

lemma ResolveSession_error:
  assumes "ResolveSession token e (n, d) = (Inl err, n', d')"
  shows "d' = d \<and> (\<forall>p. err \<noteq> ErrPanic p)"
proof -
  note unf = ResolveSession_def bnd_def token_hash_def now_def query_row_def exec_def
  let ?f = "find (live_session (TokenHash (sha256 e) token) (rfc3339nano (clock e n))) (sessions d)"
  show ?thesis
  proof (cases "engine_fails e (Suc n) \<or> ?f = None")
    case True
    with assms show ?thesis by (auto simp: unf split: if_splits)
  next
    case False
    then obtain s where s: "?f = Some s" "\<not> engine_fails e (Suc n)" by auto
    obtain r n1 d1 where g: "GetUser (sr_user_id s) e (Suc (Suc n), d) = (r, n1, d1)" by (metis prod.exhaust)
    then have "d1 = d" by (rule GetUser_same)
    have "\<And>p. r \<noteq> Inl (ErrPanic p)" using GetUser_no_panic g by blast
    then have "attempt (GetUser (sr_user_id s)) e (Suc (Suc n), d) = (Inr r, n1, d)"
      using g \<open>d1 = d\<close> by (simp add: attempt_ok)
    with assms s show ?thesis
      by (auto simp: unf raise_def ret_def attempt_def modify_def split: sum.splits if_splits)
  qed
qed

end
