(* ===== verification/Server_Theorems.thy ===== *)
theory Server_Theorems
  imports Server_Laws Store_Accounts
begin

text \<open>
  Correctness of the API server: what a request needs to get through to its handler, what a login
  proves, what the container handlers disclose and how long a terminal stays open.
\<close>

section \<open>Runs of a handler\<close>

lemma finish_bnd: "finish (hbnd m f) se sv = (case m se sv of (Inl resp, s) \<Rightarrow> (resp, s) | (Inr x, s) \<Rightarrow> finish (f x) se s)"
  by (simp add: finish_def hbnd_def split: prod.split sum.split)

lemma finish_ret: "finish (hret resp) se sv = (resp, sv)"
  by (simp add: finish_def hret_def)

lemma finish_stop: "finish (hstop resp) se sv = (resp, sv)"
  by (simp add: finish_def hstop_def)

lemma run_simps: "hret x se sv = (Inr x, sv)" "hstop resp se sv = (Inl resp, sv)" "hask f se sv = (Inr (f se), sv)"
  "hguard ok bad se sv = (if ok then Inr () else Inl bad, sv)"
  by (simp_all add: hret_def hstop_def hask_def hguard_def)

lemma run_bnd: "hbnd m f se sv = (case m se sv of (Inl resp, s) \<Rightarrow> (Inl resp, s) | (Inr x, s) \<Rightarrow> f x se s)"
  by (simp add: hbnd_def)

lemma run_check: "hcheck bad m se sv = (case m se sv of (Inl resp, s) \<Rightarrow> (Inl resp, s)
    | (Inr (Inl err), s) \<Rightarrow> (Inl (bad err), s) | (Inr (Inr x), s) \<Rightarrow> (Inr x, s))"
  by (simp add: hcheck_def hbnd_def run_simps split: prod.split sum.split)

lemma finish_ask: "finish (hbnd (hask f) g) se sv = finish (g (f se)) se sv"
  by (simp add: finish_bnd run_simps)

lemma finish_guard: "finish (hbnd (hguard ok bad) g) se sv = (if ok then finish (g ()) se sv else (bad, sv))"
  by (simp add: finish_bnd run_simps)

text \<open>A part of a handler that ends a request only with a problem.\<close>

fun problem_body :: "sbody \<Rightarrow> bool" where
  "problem_body (PProblem _ _) = True"
| "problem_body (PError _ _) = True"
| "problem_body _ = False"

definition refusal :: "sresponse \<Rightarrow> bool" where
  "refusal resp \<longleftrightarrow> 400 \<le> sp_status resp \<and> problem_body (sp_body resp) \<and> sp_cookies resp = []"

definition refuses :: "('g, 'a) hm \<Rightarrow> bool" where
  "refuses m \<longleftrightarrow> (\<forall>se sv resp s. m se sv = (Inl resp, s) \<longrightarrow> refusal resp)"

lemma refusal_simps [simp]:
  "refusal (problemResponse st c m) \<longleftrightarrow> 400 \<le> st" "refusal (respond st (PError c e)) \<longleftrightarrow> 400 \<le> st" "refusal recovered"
  by (simp_all add: refusal_def problemResponse_def respond_def recovered_def)

lemma refuses_simps:
  "refuses (hret x)" "refuses (hask f)" "refusal resp \<Longrightarrow> refuses (hstop resp)" "refusal resp \<Longrightarrow> refuses (hguard ok resp)"
  "refuses (hgateway g)" "refuses hnow" "refuses (hclear key)"
  by (auto simp: refuses_def hret_def hask_def hstop_def hguard_def hgateway_def hnow_def hclear_def split: prod.splits if_splits)

lemma refuses_bnd: "refuses m \<Longrightarrow> (\<And>x. refuses (f x)) \<Longrightarrow> refuses (hbnd m f)"
  by (fastforce simp: refuses_def hbnd_def split: prod.splits sum.splits)

lemma refuses_store: "refuses (hstore m)"
  by (auto simp: refuses_def hstore_def split: prod.splits sum.splits go_error.splits)

lemma refuses_check: "refuses m \<Longrightarrow> (\<And>err. refusal (bad err)) \<Longrightarrow> refuses (hcheck bad m)"
  unfolding hcheck_def by (auto intro!: refuses_bnd refuses_simps split: sum.split)

lemma refuses_if: "refuses m \<Longrightarrow> refuses m' \<Longrightarrow> refuses (if c then m else m')"
  by simp

lemma refuses_audit: "refuses (audit r sess u action rt rid res reason md)"
  unfolding audit_def by (intro refuses_bnd refuses_store refuses_simps)

lemmas refuses_intros = refuses_bnd refuses_store refuses_check refuses_if refuses_audit refuses_simps

lemma refuses_settings: "refuses settings_or_nil"
  unfolding settings_or_nil_def by (intro refuses_intros)

lemma refuses_authorize: "refuses (authorizeResourceWithAudit r sess action cid b)"
proof -
  have "refuses (inspectResource cid)"
    unfolding inspectResource_def gw_Raw_def by (auto intro!: refuses_intros)
  then show ?thesis
    unfolding authorizeResourceWithAudit_def Let_def by (auto intro!: refuses_intros)
qed

text \<open>A response that is not a refusal comes from the rest of the handler.\<close>

lemma finish_past:
  assumes "finish (hbnd m f) se sv = (resp, sv')" and "\<not> refusal resp" and "refuses m"
  obtains x s where "m se sv = (Inr x, s)" "finish (f x) se s = (resp, sv')"
  using assms by (auto simp: finish_bnd refuses_def split: prod.splits sum.splits)

text \<open>An audit record changes the audit trail and nothing else.\<close>

definition only_audit :: "db \<Rightarrow> db \<Rightarrow> bool" where
  "only_audit d d' \<longleftrightarrow> (\<exists>evs. d' = d\<lparr>audit_events := evs\<rparr>)"

interpretation auditing: store_relation only_audit
proof
  show "only_audit d d" for d unfolding only_audit_def by (rule exI [of _ "audit_events d"]) simp
  show "only_audit d d' \<Longrightarrow> only_audit d' d'' \<Longrightarrow> only_audit d d''" for d d' d'' by (auto simp: only_audit_def)
qed

lemma Audit_only_audit: "rel_steps only_audit (Audit x)"
  unfolding Audit_def Let_def
  by (intro auditing.steps_intros auditing.steps_checked auditing.steps_modify)
    (auto simp: insert_audit_def trim_audit_def only_audit_def Let_def auditing.steps_intros split: if_splits)

lemma Audit_no_panic: "Audit x e s = (Inl err, st) \<Longrightarrow> err \<noteq> ErrPanic p"
  by (cases s) (auto simp: Audit_def bnd_def new_ID_def now_def ret_def checked_def modify_def exec_def Let_def
      split: prod.splits sum.splits if_splits option.splits)

lemma audit_run:
  obtains s where "audit r sess u act rt rid res reason md se sv = (Inr (), s)" "only_audit (sv_db sv) (sv_db s)"
    "s = sv\<lparr>sv_store := sv_store s\<rparr>"
proof -
  let ?m = "Audit (audit_event r sess u act rt rid res reason md)"
  obtain n d where st: "sv_store sv = (n, d)" by (cases "sv_store sv")
  obtain y n' d' where m: "?m (se_env se) (n, d) = (y, n', d')" by (metis prod.exhaust)
  have "only_audit d d'" using Audit_only_audit m unfolding rel_steps_def by (metis snd_conv)
  moreover have "y \<noteq> Inl (ErrPanic p)" for p using Audit_no_panic m by blast
  ultimately have "audit r sess u act rt rid res reason md se sv = (Inr (), sv\<lparr>sv_store := (n', d')\<rparr>)"
    using st m by (auto simp: audit_def run_bnd run_simps hstore_def split: sum.splits go_error.splits)
  with \<open>only_audit d d'\<close> st show ?thesis by (intro that) (auto simp: sv_db_def)
qed

section \<open>Sequences of requests\<close>

fun serve_requests :: "('g senv \<times> route \<times> srequest) list \<Rightarrow> 'g server \<Rightarrow> 'g server" where
  "serve_requests [] sv = sv"
| "serve_requests ((se, route, r) # rs) sv = serve_requests rs (snd (Handle se route r sv))"

lemma serve_requests_steps: "store_step\<^sup>*\<^sup>* (sv_db sv) (sv_db (serve_requests rs sv))"
proof (induction rs sv rule: serve_requests.induct)
  case (2 se route r rs sv)
  from Handle_store_steps [of sv se route r] 2 show ?case by simp
qed simp

text \<open>
  C4: no sequence of HTTP requests, whoever sends them and whatever the gateway answers, locks the
  administrators out or breaks the database: if there is an enabled administrator at the start there is
  one at the end, and the constraints of the schema still hold.
\<close>

theorem requests_keep_administrator:
  assumes "wf_db (sv_db sv)" and "admin_role (sv_db sv)" and "has_admin (sv_db sv)"
  shows "wf_db (sv_db (serve_requests rs sv)) \<and> has_admin (sv_db (serve_requests rs sv))
    \<and> admin_role (sv_db (serve_requests rs sv))"
proof -
  have steps: "store_step\<^sup>*\<^sup>* (sv_db sv) (sv_db (serve_requests rs sv))" by (rule serve_requests_steps)
  show ?thesis
    using administrator.store_steps [OF steps] schema.store_steps [OF steps]
      builtin.store_steps [OF steps, of "''role-admin''" "''Admin''"] assms
    by (simp add: keeps_administrator_def keeps_wf_def keeps_builtin_def)
qed

section \<open>Complete mediation\<close>

text \<open>A difference in nothing but the times of last activity of the sessions.\<close>

definition only_activity :: "db \<Rightarrow> db \<Rightarrow> bool" where
  "only_activity d d' \<longleftrightarrow> d' = d\<lparr>sessions := sessions d'\<rparr>
     \<and> map (\<lambda>s. s\<lparr>sr_last_activity_at := []\<rparr>) (sessions d') = map (\<lambda>s. s\<lparr>sr_last_activity_at := []\<rparr>) (sessions d)"

lemma only_activity_refl [simp]: "only_activity d d"
  by (simp add: only_activity_def)

lemma only_activity_update: "only_activity d (update_session h (\<lambda>x. x\<lparr>sr_last_activity_at := t\<rparr>) d)"
  by (simp add: only_activity_def update_session_def update_where_def)

lemma ResolveSession_success: "ResolveSession token e (n, d) = (Inr x, n', d') \<Longrightarrow> only_activity d d'"
  by (auto simp: run_ok ResolveSession_def GetUser_ok modify_def exec_def only_activity_update split: if_splits)

text \<open>\<open>requireSession\<close> goes on exactly if the cookie resolves.\<close>

lemma finish_requireSession:
  "finish (requireSession r next) se sv = (resp, sv') \<Longrightarrow>
     (\<exists>token sess st. sq_cookie r = Some token \<and> ResolveSession token (se_env se) (sv_store sv) = (Inr sess, st)
        \<and> only_activity (sv_db sv) (snd st) \<and> finish (next sess) se (sv\<lparr>sv_store := st\<rparr>) = (resp, sv'))
   \<or> sp_status resp = 401 \<and> (\<exists>n. sv' = sv\<lparr>sv_store := (n, sv_db sv)\<rparr>)"
proof (cases "sq_cookie r")
  case (Some token)
  assume f: "finish (requireSession r next) se sv = (resp, sv')"
  obtain n d where st: "sv_store sv = (n, d)" by (cases "sv_store sv")
  obtain x n' d' where x: "ResolveSession token (se_env se) (n, d) = (x, n', d')" by (metis prod.exhaust)
  show ?thesis
  proof (cases x)
    case (Inl err)
    then have "d' = d" and np: "\<And>p. err \<noteq> ErrPanic p" using ResolveSession_error x by blast+
    then have "hstore (ResolveSession token) se sv = (Inr (Inl err), sv\<lparr>sv_store := (n', d)\<rparr>)"
      using x st Inl by (simp add: hstore_def split: go_error.split)
    with f Some show ?thesis
      by (auto simp: requireSession_def finish_bnd run_check problemResponse_def respond_def sv_db_def st)
  next
    case (Inr sess)
    with x have "only_activity d d'" by (auto intro: ResolveSession_success)
    moreover have "hstore (ResolveSession token) se sv = (Inr (Inr sess), sv\<lparr>sv_store := (n', d')\<rparr>)"
      using x st Inr by (simp add: hstore_def)
    ultimately show ?thesis
      using f Some x st Inr by (auto simp: requireSession_def finish_bnd run_check sv_db_def)
  qed
qed (auto simp: requireSession_def finish_stop problemResponse_def respond_def sv_db_def intro!: exI [of _ "fst (sv_store sv)"])

definition csrf_ok :: "'g senv \<Rightarrow> srequest \<Rightarrow> Session \<Rightarrow> bool" where
  "csrf_ok se r sess \<longleftrightarrow> TokenHash (sha256 (se_env se)) (csrf_provided r) = session_CSRFHash sess
     \<and> (sq_origin r = [] \<or> sq_origin r \<in> set (cfg_AllowedOrigins (se_cfg se)))"

lemma finish_requireCSRF:
  "finish (requireCSRF r sess next) se sv = (resp, sv') \<Longrightarrow>
     csrf_ok se r sess \<and> finish next se sv = (resp, sv') \<or> sp_status resp = 403 \<and> sv' = sv"
  by (auto simp: requireCSRF_def finish_bnd run_simps csrf_ok_def constantTimeCompare_iff originAllowed_def list_ex_iff
      problemResponse_def respond_def split: if_splits)

lemma finish_requirePermission:
  "finish (requirePermission p sess next) se sv = (resp, sv') \<Longrightarrow>
     p \<in> set (user_Permissions (session_User sess)) \<and> finish next se sv = (resp, sv') \<or> sp_status resp = 403 \<and> sv' = sv"
  by (auto simp: requirePermission_def finish_bnd run_simps rbac_Allowed_def list_ex_iff problemResponse_def respond_def split: if_splits)

text \<open>What the table asks of a session before the handler runs.\<close>

definition guards_hold :: "'g senv \<Rightarrow> sroute \<Rightarrow> srequest \<Rightarrow> Session \<Rightarrow> bool" where
  "guards_hold se p r sess \<longleftrightarrow> (case route_guards p of (perm, csrf) \<Rightarrow>
     (case perm of None \<Rightarrow> True | Some q \<Rightarrow> q \<in> set (user_Permissions (session_User sess))) \<and> (if csrf then csrf_ok se r sess else True))"

lemma finish_guarded:
  "finish (guarded_handler p r sess) se sv = (resp, sv') \<Longrightarrow>
     guards_hold se p r sess \<and> finish (handler p r sess) se sv = (resp, sv') \<or> sp_status resp = 403 \<and> sv' = sv"
  by (auto simp: guarded_handler_def guards_hold_def Let_def split: prod.splits option.splits if_splits
      dest!: finish_requirePermission finish_requireCSRF)

lemma Handle_protected:
  assumes "Handle se (Protected p) r sv = (resp, sv')"
  shows "sp_status resp \<in> {401, 403} \<and> sv' = sv\<lparr>sv_store := sv_store sv'\<rparr> \<and> only_activity (sv_db sv) (sv_db sv')
   \<or> (\<exists>token sess st. sq_cookie r = Some token \<and> ResolveSession token (se_env se) (sv_store sv) = (Inr sess, st)
        \<and> only_activity (sv_db sv) (snd st) \<and> guards_hold se p r sess
        \<and> finish (handler p r sess) se (sv\<lparr>sv_store := st\<rparr>) = (resp, sv'))"
proof -
  from assms have "finish (requireSession r (\<lambda>sess. guarded_handler p r sess)) se sv = (resp, sv')" by (simp add: Handle_def)
  from finish_requireSession [OF this] show ?thesis
  proof (elim disjE exE conjE)
    fix token sess st
    assume 1: "sq_cookie r = Some token" "ResolveSession token (se_env se) (sv_store sv) = (Inr sess, st)"
      "only_activity (sv_db sv) (snd st)" and "finish (guarded_handler p r sess) se (sv\<lparr>sv_store := st\<rparr>) = (resp, sv')"
    from finish_guarded [OF this(4)] show ?thesis
    proof (elim disjE conjE)
      assume "guards_hold se p r sess" "finish (handler p r sess) se (sv\<lparr>sv_store := st\<rparr>) = (resp, sv')"
      with 1 show ?thesis by (intro disjI2 exI [of _ token] exI [of _ sess] exI [of _ st]) simp
    next
      assume "sp_status resp = 403" "sv' = sv\<lparr>sv_store := st\<rparr>"
      with 1 show ?thesis by (simp add: sv_db_def)
    qed
  next
    fix n assume "sp_status resp = 401" "sv' = sv\<lparr>sv_store := (n, sv_db sv)\<rparr>"
    then show ?thesis by (simp add: sv_db_def)
  qed
qed

text \<open>
  C3: complete mediation.  A request to a route behind the session check either is refused with 401 or 403, and
  then nothing has changed but the activity time of a session: no other row, no limiter and nothing at
  the gateway; or the cookie resolves to a session of an enabled user, who has the permission that the
  table names for the route, the CSRF token belongs to the session and the origin is allowed where the
  table asks for it, and the answer is that of the handler.
\<close>

theorem complete_mediation:
  "case Handle se (Protected p) r sv of (resp, sv') \<Rightarrow>
     sp_status resp \<in> {401, 403} \<and> sv' = sv\<lparr>sv_store := sv_store sv'\<rparr> \<and> only_activity (sv_db sv) (sv_db sv')
   \<or> (\<exists>token sess st. sq_cookie r = Some token \<and> ResolveSession token (se_env se) (sv_store sv) = (Inr sess, st)
        \<and> only_activity (sv_db sv) (snd st) \<and> guards_hold se p r sess
        \<and> finish (handler p r sess) se (sv\<lparr>sv_store := st\<rparr>) = (resp, sv'))"
proof (cases "Handle se (Protected p) r sv")
  case (Pair resp sv')
  from Handle_protected [OF this] show ?thesis unfolding Pair prod.case .
qed

section \<open>Authorization of a request on a container\<close>

lemma hstore_ok:
  "hstore m se sv = (Inr (Inr ps), sv') \<Longrightarrow> m (se_env se) (sv_store sv) = (Inr ps, sv_store sv')"
  by (auto simp: hstore_def split: prod.splits sum.splits go_error.splits)

text \<open>The store operations that only read.\<close>

interpretation reading: store_relation "(=) :: db \<Rightarrow> db \<Rightarrow> bool"
  by unfold_locales auto

lemma reading_ops: "rel_steps (=) ListPolicies" "rel_steps (=) Settings"
  unfolding ListPolicies_def Settings_def by (intro reading.steps_intros)+

lemma hstore_reading:
  assumes "rel_steps (=) m" and "hstore m se sv = (x, sv')"
  shows "\<exists>n. sv' = sv\<lparr>sv_store := (n, sv_db sv)\<rparr>"
proof -
  obtain n d where st: "sv_store sv = (n, d)" by (cases "sv_store sv")
  obtain y n' d' where m: "m (se_env se) (n, d) = (y, n', d')" by (metis prod.exhaust)
  have "d' = d" using assms(1) m unfolding rel_steps_def by (metis snd_conv)
  with assms(2) st m show ?thesis
    by (auto simp: hstore_def sv_db_def split: sum.splits go_error.splits)
qed

lemma inspectResource_ok:
  assumes "inspectResource cid se sv = (Inr (Inr (v, res)), sv')"
  shows "ValidateContainerID cid \<and> res = resource_of v \<and> sv_store sv' = sv_store sv
    \<and> (\<exists>text. fst (gc_Raw (se_http se) (gateway_client se) (gatewayContainerPath cid ''/'') (sv_gateway sv)) = Inr text
         \<and> Option.bind (se_unmarshal se text) dec_object = Some v)"
  using assms
  by (auto simp: inspectResource_def gw_Raw_def hgateway_def run_bnd run_simps
      split: if_splits prod.splits sum.splits option.splits)

text \<open>
  A request that passes the authorization: the document is what the gateway has just answered for the
  container, and the policy engine allows the action under the policies that the store has just listed.
\<close>

definition authorized :: "'g senv \<Rightarrow> 'g server \<Rightarrow> User \<Rightarrow> string \<Rightarrow> string \<Rightarrow> (string \<times> json) list \<Rightarrow> bool" where
  "authorized se sv user action cid v \<longleftrightarrow> ValidateContainerID cid
     \<and> (\<exists>text ps st. fst (gc_Raw (se_http se) (gateway_client se) (gatewayContainerPath cid ''/'') (sv_gateway sv)) = Inr text
          \<and> Option.bind (se_unmarshal se text) dec_object = Some v
          \<and> ListPolicies (se_env se) (sv_store sv) = (Inr ps, st)
          \<and> Allowed (Evaluate user action (resource_of v) ps))"

lemma authorize_ok:
  assumes "authorizeResourceWithAudit r sess action cid b se sv = (Inr (v, res), sv')"
  shows "authorized se sv (session_User sess) action cid v \<and> res = resource_of v \<and> sv_db sv' = sv_db sv"
proof -
  from assms obtain s1 ps where i: "inspectResource cid se sv = (Inr (Inr (v, res)), s1)"
    and l: "hstore ListPolicies se s1 = (Inr (Inr ps), sv')"
    and a: "Allowed (Evaluate (session_User sess) action res ps)"
    by (auto simp: authorizeResourceWithAudit_def run_bnd run_check run_simps Let_def
        split: prod.splits sum.splits if_splits)
  obtain n where "sv' = s1\<lparr>sv_store := (n, sv_db s1)\<rparr>" using hstore_reading [OF reading_ops(1) l] by blast
  with hstore_ok [OF l] inspectResource_ok [OF i] a show ?thesis
    by (auto simp: authorized_def sv_db_def)
qed

section \<open>What an inspection discloses\<close>

lemma mask_document_fields: "mask_document v = mask_fields v"
  by (simp add: mask_document_def maskInspect_JObj del: maskInspect.simps)

lemma settings_or_nil_run:
  assumes "settings_or_nil se sv = (Inr m, s)"
  shows "m = Map.empty \<or> m = map_of (map (\<lambda>s. (st_key s, st_value s)) (db.settings (sv_db sv)))"
  using assms
  by (auto simp: settings_or_nil_def run_bnd run_simps hstore_def Settings_def query_def exec_def sv_db_def
      split: prod.splits sum.splits go_error.splits if_splits)

definition masking_off :: "'g senv \<Rightarrow> 'g server \<Rightarrow> bool" where
  "masking_off se sv \<longleftrightarrow> \<not> cfg_SecretMasking (se_cfg se)
     \<or> setting (map_of (map (\<lambda>s. (st_key s, st_value s)) (db.settings (sv_db sv)))) ''secret_masking'' = ''false''"

lemma show_container_discloses:
  assumes "finish (show_container r sess doc res) se sv = (resp, sv')" and "sp_body resp = PInspect v risk sys prot"
  shows "risk = riskFromInspect (se_sprint se) doc sys \<and> sys = res_System res
    \<and> (v = mask_fields doc \<or> v = doc \<and> ''secret.view'' \<in> set (user_Permissions (session_User sess))
          \<and> (sq_query r ''reveal'' = ''true'' \<or> masking_off se sv))"
proof -
  have ok: "\<not> refusal resp" using assms(2) by (simp add: refusal_def)
  let ?can = "rbac_Allowed (session_User sess) ''secret.view''" and ?reveal = "sq_query r ''reveal'' = ''true''"
  have can: "?can \<longleftrightarrow> ''secret.view'' \<in> set (user_Permissions (session_User sess))" by (simp add: rbac_Allowed_def list_ex_iff)
  have a: "refuses (if c then audit r (Some sess) u act rt rid st reason md else hret ())" for c u act rt rid st reason md
    by (intro refuses_intros)
  note f = assms(1) [unfolded show_container_def Let_def]
  show ?thesis
  proof (rule finish_past [OF f ok], simp add: refuses_intros, rule finish_past [OF _ ok refuses_settings], assumption, goal_cases)
    case (1 x s m s')
    have sv: "s = sv" "?reveal \<Longrightarrow> ?can" using 1(1) by (auto simp: run_simps split: if_splits)
    note g = 1(4) [unfolded finish_ask prod.case]
    show ?case
    proof (rule finish_past [OF g ok a], rule finish_past [OF _ ok a], assumption, goal_cases)
      case (1 y s1 z s2)
      then have "sp_body resp = PInspect (if ?reveal then doc
          else if setting m ''secret_masking'' \<noteq> ''false'' \<and> cfg_SecretMasking (se_cfg se) \<or> \<not> ?can then mask_document doc else doc)
        (riskFromInspect (se_sprint se) (if ?reveal then doc
          else if setting m ''secret_masking'' \<noteq> ''false'' \<and> cfg_SecretMasking (se_cfg se) \<or> \<not> ?can then mask_document doc else doc) (res_System res))
        (res_System res) (res_Protected res)"
        by (auto simp: finish_ret respond_def)
      with assms(2) sv(2) settings_or_nil_run [OF \<open>settings_or_nil se s = (Inr m, s')\<close>] show ?case
        unfolding sv(1) by (auto simp: can riskFromInspect_mask mask_document_fields masking_off_def setting_def split: if_splits)
    qed
  qed
qed

text \<open>
  C8: what an inspection discloses.  A document is only shown to the holder of a session with the permission
  \<open>container.inspect\<close>, for whom the policies allow the inspection of that container; it is the masked
  form of the gateway's document, or the document itself, but this only if the user has the permission
  \<open>secret.view\<close> and has asked for it or masking is switched off.  The risk shown is that of the
  document itself in both cases.
\<close>

theorem inspection_discloses:
  assumes "Handle se (Protected GContainer) r sv = (resp, sv')" and "sp_status resp = 200" and "sp_body resp = PInspect v risk sys prot"
  shows "\<exists>token sess st doc. sq_cookie r = Some token \<and> ResolveSession token (se_env se) (sv_store sv) = (Inr sess, st)
    \<and> ''container.inspect'' \<in> set (user_Permissions (session_User sess))
    \<and> authorized se (sv\<lparr>sv_store := st\<rparr>) (session_User sess) ''container.inspect'' (sq_param r) doc
    \<and> risk = riskFromInspect (se_sprint se) doc sys
    \<and> (if ''secret.view'' \<in> set (user_Permissions (session_User sess)) \<and> (sq_query r ''reveal'' = ''true'' \<or> masking_off se sv)
        then v \<in> {doc, mask_fields doc} else v = mask_fields doc \<and> masked (JObj v))"
proof -
  from Handle_protected [OF assms(1)] assms(2) obtain token sess st where
    t: "sq_cookie r = Some token" "ResolveSession token (se_env se) (sv_store sv) = (Inr sess, st)"
    and st: "only_activity (sv_db sv) (snd st)" and g: "guards_hold se GContainer r sess"
    and f: "finish (container r sess) se (sv\<lparr>sv_store := st\<rparr>) = (resp, sv')"
    by (auto simp: handler_def)
  have ok: "\<not> refusal resp" using assms(2) by (simp add: refusal_def)
  obtain x s where a: "authorizeResourceWithAudit r sess ''container.inspect'' (sq_param r) True se (sv\<lparr>sv_store := st\<rparr>) = (Inr x, s)"
    and f2: "finish (case x of (v, res) \<Rightarrow> show_container r sess v res) se s = (resp, sv')"
    using f [unfolded container_def authorizeResource_def] ok refuses_authorize by (rule finish_past)
  obtain doc res where x: "x = (doc, res)" by (cases x)
  have auth: "authorized se (sv\<lparr>sv_store := st\<rparr>) (session_User sess) ''container.inspect'' (sq_param r) doc" "sv_db s = snd st"
    using authorize_ok [OF a [unfolded x]] by (simp_all add: sv_db_def)
  have "db.settings (snd st) = db.settings (sv_db sv)"
    using st unfolding only_activity_def by (metis db.select_convs(10) db.surjective db.update_convs(6))
  with auth(2) have off: "masking_off se s \<longleftrightarrow> masking_off se sv" by (simp add: masking_off_def)
  have "masked (JObj (mask_fields doc))" using masked_maskInspect [of "JObj doc"] by (simp only: maskInspect_JObj)
  with show_container_discloses [OF f2 [unfolded x prod.case] assms(3)] t g auth(1) off show ?thesis
    by (intro exI [of _ token] exI [of _ sess] exI [of _ st] exI [of _ doc])
      (auto simp: guards_hold_def route_guards_def simp del: masked.simps)
qed

section \<open>Terminals\<close>

lemma hstore_dead_session:
  assumes "revoked (TokenHash (sha256 (se_env se)) token) (sv_db sv)"
  shows "\<exists>err n. hstore (ResolveSession token) se sv = (Inr (Inl err), sv\<lparr>sv_store := (n, sv_db sv)\<rparr>)"
proof -
  obtain n d where st: "sv_store sv = (n, d)" by (cases "sv_store sv")
  obtain x n' d' where x: "ResolveSession token (se_env se) (n, d) = (x, n', d')" by (metis prod.exhaust)
  have "\<not> live_session (TokenHash (sha256 (se_env se)) token) t s" if "s \<in> set (sessions d)" for t s
    using assms that st by (auto simp: revoked_def session_sat_def live_session_def sv_db_def)
  then have "\<not> is_ok x" using ResolveSession_dead [of d "se_env se" token n] x by simp
  then obtain err where err: "x = Inl err" by (cases x) auto
  with ResolveSession_error x have "d' = d" "\<And>p. err \<noteq> ErrPanic p" by blast+
  with x err st show ?thesis by (auto simp: hstore_def sv_db_def split: go_error.split)
qed

text \<open>
  C9: a terminal does not outlive its session.  Once the session of an open terminal is revoked (by a logout, a
  password change, an administrator or the recovery command), the next tick of the watchdog ends the
  terminal: no event after it is looked at and nothing more is sent to the gateway.
\<close>

theorem revoked_terminal_ends:
  assumes "sq_cookie r = Some token" and "revoked (TokenHash (sha256 (se_env se)) token) (sv_db sv)"
  shows "\<exists>n. relay r cid idle (WatchdogTick # evs) seen se sv = (Inr seen, sv\<lparr>sv_store := (n, sv_db sv)\<rparr>)"
proof -
  obtain n d where st: "sv_store sv = (n, d)" by (cases "sv_store sv")
  define s1 where "s1 = sv\<lparr>sv_store := (Suc n, d)\<rparr>"
  have now: "hnow se sv = (Inr (clock (se_env se) n), s1)" by (simp add: hnow_def st s1_def)
  have "sv_db s1 = sv_db sv" by (simp add: s1_def sv_db_def st)
  with hstore_dead_session [of se token s1] assms(2) obtain err n' where
    "hstore (ResolveSession token) se s1 = (Inr (Inl err), s1\<lparr>sv_store := (n', sv_db sv)\<rparr>)" by auto
  with assms(1) have "still_allowed r cid se s1 = (Inr False, s1\<lparr>sv_store := (n', sv_db sv)\<rparr>)"
    by (simp add: still_allowed_def run_bnd run_simps)
  then have "\<exists>n. watchdog_tick r cid idle seen se sv = (Inr False, sv\<lparr>sv_store := (n, sv_db sv)\<rparr>)"
    using now by (auto simp: watchdog_tick_def run_bnd run_simps s1_def sv_db_def st)
  then show ?thesis by (auto simp: run_bnd run_simps)
qed

section \<open>Login\<close>

definition login_body :: "srequest \<Rightarrow> login_in option" where
  "login_body r = decode_body dec_login \<lparr>li_Username = [], li_Password = []\<rparr> (sq_body r)"

text \<open>How long the throttle still blocks the key of a login request.\<close>

definition blocked_for :: "'g senv \<Rightarrow> srequest \<Rightarrow> login_in \<Rightarrow> 'g server \<Rightarrow> int" where
  "blocked_for se r inp sv = fst (throttle_blocked (sv_loginThrottle sv) (clock (se_env se) (fst (sv_store sv)) + epoch) (throttleKey (se_ToLower se) r inp))"

lemma hthrottle_run: "hthrottle f se sv = (case f (sv_loginThrottle sv) (clock (se_env se) (fst (sv_store sv)) + epoch) of
    (x, l) \<Rightarrow> (Inr x, sv\<lparr>sv_store := (Suc (fst (sv_store sv)), snd (sv_store sv)), sv_loginThrottle := l\<rparr>))"
  by (simp add: hthrottle_def run_bnd hnow_def split: prod.split)

lemma refuses_issueSession: "refuses (issueSession r u)"
  unfolding issueSession_def by (auto intro!: refuses_intros)

text \<open>A response with status 200 comes only from the last step of a login.\<close>

lemma finish_audit_end:
  assumes "finish (hbnd (audit r sess u act rt rid res reason md) (\<lambda>_. hret resp0)) se sv = (resp, sv')"
  shows "resp = resp0 \<or> refusal resp"
  using assms refuses_audit [of r sess u act rt rid res reason md]
  by (auto simp: finish_bnd finish_ret refuses_def split: prod.splits sum.splits)

lemma rate_limited_run: "finish (loginRateLimited r username retry) se sv = (resp, sv') \<Longrightarrow> sp_status resp \<noteq> 200"
  unfolding loginRateLimited_def Let_def by (drule finish_audit_end) (auto simp: respond_def refusal_def)

lemma login_failed_run: "finish (login_failed r inp key) se sv = (resp, sv') \<Longrightarrow> sp_status resp \<noteq> 200"
  unfolding login_failed_def finish_bnd [of "hthrottle f" for f] hthrottle_run
  by (auto simp: problemResponse_def respond_def refusal_def split: prod.splits if_splits dest!: rate_limited_run finish_audit_end)

lemma audit_sessions: "audit r sess u act rt rid res reason md se sv = (x, sv') \<Longrightarrow> sessions (sv_db sv') = sessions (sv_db sv)"
  by (rule audit_run [of r sess u act rt rid res reason md se sv]) (auto simp: only_audit_def)

lemma issueSession_run:
  assumes "issueSession r u se sv = (Inr cookies, sv')"
  shows "\<exists>token csrf. cookies = session_cookies (se_cfg se) token csrf
    \<and> (\<exists>s\<in>set (sessions (sv_db sv')). sr_user_id s = user_ID u \<and> sr_id_hash s = TokenHash (sha256 (se_env se)) token
          \<and> sr_csrf_hash s = TokenHash (sha256 (se_env se)) csrf)"
proof -
  let ?m = "CreateSession (user_ID u) (clientIP r) (sq_UserAgent r) (nat (cfg_SessionTTL (se_cfg se)))"
  obtain n d where st: "sv_store sv = (n, d)" by (cases "sv_store sv")
  obtain y n' d' where m: "?m (se_env se) (n, d) = (y, n', d')" by (metis prod.exhaust)
  from assms st m obtain token csrf where "y = Inr (token, csrf)" and r: "cookies = session_cookies (se_cfg se) token csrf" "sv_db sv' = d'"
    by (auto simp: issueSession_def run_bnd run_simps run_check hstore_def sv_db_def split: sum.splits go_error.splits)
  with m have "?m (se_env se) (n, d) = (Inr (token, csrf), n', d')" by simp
  then show ?thesis by (rule CreateSession_ok) (use r in auto)
qed

lemma login_attempt_run:
  assumes f: "finish (login_attempt r inp key) se sv = (resp, sv')" and "sp_status resp = 200"
  shows "fst (throttle_blocked (sv_loginThrottle sv) (clock (se_env se) (fst (sv_store sv)) + epoch) key) \<le> 0
    \<and> (\<exists>u n n' s d'. Authenticate (li_Username inp) (li_Password inp) (se_env se) (n, sv_db sv) = (Inr (Some u), n', d')
         \<and> sv_db s = d' \<and> finish (login_succeeded r u key) se s = (resp, sv'))"
proof -
  obtain retry l where b: "throttle_blocked (sv_loginThrottle sv) (clock (se_env se) (fst (sv_store sv)) + epoch) key = (retry, l)"
    by (metis prod.exhaust)
  define s1 where "s1 = sv\<lparr>sv_store := (Suc (fst (sv_store sv)), snd (sv_store sv)), sv_loginThrottle := l\<rparr>"
  note f' = f [unfolded login_attempt_def finish_bnd [of "hthrottle g" for g] hthrottle_run b prod.case sum.case, folded s1_def]
  have "\<not> retry > 0"
  proof
    assume "retry > 0"
    with f' have "finish (loginRateLimited r (li_Username inp) retry) se s1 = (resp, sv')" by simp
    with assms(2) show False using rate_limited_run by blast
  qed
  with f' have f2: "finish (hbnd (hstore (Authenticate (li_Username inp) (li_Password inp))) (\<lambda>res.
      case res of Inl _ \<Rightarrow> login_failed r inp key | Inr None \<Rightarrow> login_failed r inp key | Inr (Some u) \<Rightarrow> login_succeeded r u key)) se s1 = (resp, sv')"
    by simp
  have ok: "\<not> refusal resp" using assms(2) by (simp add: refusal_def)
  obtain res s2 where a: "hstore (Authenticate (li_Username inp) (li_Password inp)) se s1 = (Inr res, s2)"
    and f3: "finish (case res of Inl _ \<Rightarrow> login_failed r inp key | Inr None \<Rightarrow> login_failed r inp key
       | Inr (Some u) \<Rightarrow> login_succeeded r u key) se s2 = (resp, sv')"
    using finish_past [OF f2 ok refuses_store] by blast
  obtain u where u: "res = Inr (Some u)"
    using f3 login_failed_run [of r inp key se s2 resp sv'] assms(2) by (auto split: sum.splits option.splits)
  have "Authenticate (li_Username inp) (li_Password inp) (se_env se) (sv_store s1) = (Inr (Some u), sv_store s2)"
    using a u by (auto intro: hstore_ok)
  with f3 u b \<open>\<not> retry > 0\<close> show ?thesis
    by (auto simp: s1_def sv_db_def intro!: exI [of _ u] exI [of _ s2]) (metis prod.collapse)
qed

lemma login_succeeded_run:
  assumes "finish (login_succeeded r u key) se s = (resp, sv')" and "sp_status resp = 200"
  shows "\<exists>cookies s1 s2 x. issueSession r u se s1 = (Inr cookies, s2)
    \<and> audit r None u ''LOGIN_SUCCESS'' ''auth'' [] ''success'' [] None se s2 = (x, sv') \<and> sp_cookies resp = cookies"
proof -
  have ok: "\<not> refusal resp" using assms(2) by (simp add: refusal_def)
  note g = assms(1) [unfolded login_succeeded_def]
  show ?thesis
  proof (rule finish_past [OF g ok refuses_simps(7)], rule finish_past [OF _ ok refuses_issueSession], assumption,
      rule finish_past [OF _ ok refuses_audit], assumption, goal_cases)
    case (1 x1 s1 cookies s2 y s3)
    then show ?case by (intro exI [of _ cookies] exI [of _ s1] exI [of _ s2] exI [of _ "Inr y"]) (auto simp: finish_ret)
  qed
qed

text \<open>
  C7: a login needs the password.  A login is answered with 200 only if the throttle does not block the pair of the user
  name and the client address, and a stored user with that name (up to letter case) is enabled and the
  password verifies against the stored record; the cookies then carry the token and the CSRF token of a
  new session of that user.
\<close>

theorem login_needs_password:
  assumes "Handle se (Public PLoginRoute) r sv = (resp, sv')" and "sp_status resp = 200"
  shows "\<exists>inp u token csrf. login_body r = Some inp \<and> blocked_for se r inp sv \<le> 0
    \<and> u \<in> set (db.users (sv_db sv)) \<and> nocase (ur_username u) (li_Username inp) \<and> ur_enabled u
    \<and> VerifyPassword (argon2 (se_env se)) (ur_password_hash u) (li_Password inp) = Some True
    \<and> sp_cookies resp = session_cookies (se_cfg se) token csrf
    \<and> (\<exists>s\<in>set (sessions (sv_db sv')). sr_user_id s = ur_id u \<and> sr_id_hash s = TokenHash (sha256 (se_env se)) token
          \<and> sr_csrf_hash s = TokenHash (sha256 (se_env se)) csrf)"
proof -
  have "finish (login r) se sv = (resp, sv')" using assms(1) by (simp add: Handle_def public_handler_def)
  then obtain inp where inp: "login_body r = Some inp"
    and f: "finish (login_attempt r inp (throttleKey (se_ToLower se) r inp)) se sv = (resp, sv')"
    using assms(2) by (auto simp: login_def login_body_def finish_stop finish_ask problemResponse_def respond_def
        split: option.splits if_splits)
  from login_attempt_run [OF f assms(2)] obtain u n n' s d' where
    b: "blocked_for se r inp sv \<le> 0"
    and a: "Authenticate (li_Username inp) (li_Password inp) (se_env se) (n, sv_db sv) = (Inr (Some u), n', d')"
    and g: "finish (login_succeeded r u (throttleKey (se_ToLower se) r inp)) se s = (resp, sv')"
    unfolding blocked_for_def by blast
  from login_succeeded_run [OF g assms(2)] obtain cookies s1 s2 x where i: "issueSession r u se s1 = (Inr cookies, s2)"
    and au: "audit r None u ''LOGIN_SUCCESS'' ''auth'' [] ''success'' [] None se s2 = (x, sv')" and resp: "sp_cookies resp = cookies"
    by blast
  from Authenticate_ok [OF a] issueSession_run [OF i] audit_sessions [OF au] b inp resp show ?thesis
    by (metis (no_types, lifting))
qed

text \<open>
  C20: a blocked login is not tried.  While the throttle blocks the pair of user name and client address, a login is
  answered with 429 whatever the password is: no cookie is set, and nothing changes in the database but
  the audit trail.
\<close>

theorem blocked_login_refused:
  assumes "login_body r = Some inp" and "length (li_Username inp) \<le> 64" and "length (li_Password inp) \<le> 1024"
    and "blocked_for se r inp sv > 0" and "Handle se (Public PLoginRoute) r sv = (resp, sv')"
  shows "sp_status resp = 429 \<and> sp_cookies resp = [] \<and> only_audit (sv_db sv) (sv_db sv')"
proof -
  have "finish (login_attempt r inp (throttleKey (se_ToLower se) r inp)) se sv = (resp, sv')"
    using assms(1-3,5) by (simp add: Handle_def public_handler_def login_def login_body_def finish_ask)
  moreover obtain retry l where
    b: "throttle_blocked (sv_loginThrottle sv) (clock (se_env se) (fst (sv_store sv)) + epoch) (throttleKey (se_ToLower se) r inp) = (retry, l)"
    by (metis prod.exhaust)
  moreover from b assms(4) have "retry > 0" by (simp add: blocked_for_def)
  moreover define s1 where "s1 = sv\<lparr>sv_store := (Suc (fst (sv_store sv)), snd (sv_store sv)), sv_loginThrottle := l\<rparr>"
  ultimately have f: "finish (loginRateLimited r (li_Username inp) retry) se s1 = (resp, sv')"
    by (simp add: login_attempt_def finish_bnd [of "hthrottle g" for g] hthrottle_run)
  have s1: "sv_db s1 = sv_db sv" by (simp add: s1_def sv_db_def)
  obtain s2 where a: "audit r None (anonymous (li_Username inp)) ''LOGIN_FAILED'' ''auth'' [] ''denied'' ''rate limited''
      (Some (JObj [(''retry_after_seconds'', JNum (nat_digits (retry_seconds retry)))])) se s1 = (Inr (), s2)"
    and o: "only_audit (sv_db s1) (sv_db s2)" by (rule audit_run)
  with f have "sv' = s2" "resp = respond 429 (PRetry (retry_seconds retry))"
    by (auto simp: loginRateLimited_def Let_def finish_bnd finish_ret)
  with o s1 show ?thesis by (auto simp: only_audit_def respond_def)
qed

section \<open>An example\<close>

text \<open>
  A server in the calm environment whose administrator has a password and is logged in under the token
  \<open>tok\<close> (unless the session is revoked), and a gateway that answers every request with an empty document.
\<close>

definition demo_config :: Config where
  "demo_config = \<lparr>cfg_ListenAddr = [], cfg_GatewayListenAddr = [], cfg_DBPath = [], cfg_StaticDir = [], cfg_GatewayURL = ''http://gw'',
     cfg_GatewaySecret = [], cfg_InstanceName = [], cfg_Environment = [], cfg_SessionTTL = 5 * second, cfg_TerminalIdle = 60 * second,
     cfg_LogTailDefault = 500, cfg_CookieSecure = True, cfg_SecretMasking = True, cfg_StaticEnabled = False, cfg_AllowedOrigins = [],
     cfg_MaxBodyBytes = 1024\<rparr>"

definition demo_env :: "unit senv" where
  "demo_env = \<lparr>se_env = calm_env, se_cfg = demo_config, se_http = (\<lambda>_ g. (Inr \<lparr>rs_status = 200, rs_body = [], rs_broken = False\<rparr>, g)),
     se_dial = (\<lambda>_ g. (Inr (), g)), se_send = (\<lambda>_ _ g. (Inr (), g)), se_decode = (\<lambda>_. Some JNull),
     se_unmarshal = (\<lambda>_. Some JNull), se_fmul = (\<lambda>_ _ _. 0), se_sprint = (\<lambda>_. []), se_ToLower = (\<lambda>s. s)\<rparr>"

definition demo_password :: string where "demo_password = ''correct horse 42''"

definition demo_hash :: string where
  "demo_hash = (case HashPassword (argon2 calm_env) (Some (replicate 16 CHR ''s'')) demo_password of
     Some (Inr h) \<Rightarrow> h | _ \<Rightarrow> [])"

definition demo_user :: user_row where
  "demo_user = admin_user\<lparr>ur_password_hash := demo_hash\<rparr>"

definition demo_db :: "string option \<Rightarrow> db" where
  "demo_db rv = (session_db rv)\<lparr>users := [demo_user], role_permissions := [(''role-admin'', ''container.inspect'')],
     permissions := [\<lparr>pr_name = ''container.inspect'', pr_category = [], pr_description = []\<rparr>]\<rparr>"

definition demo_server :: "string option \<Rightarrow> unit server" where
  "demo_server rv = New (0, demo_db rv) ()"

definition demo_request :: srequest where
  "demo_request = \<lparr>sq_cookie = Some ''tok'', sq_csrf_header = [], sq_csrf_query = [], sq_origin = [], sq_RemoteAddr = [], sq_UserAgent = [],
     sq_param = ''abc'', sq_query = (\<lambda>_. []), sq_body = \<lparr>bd_values = [JObj [(''username'', JStr ''root''), (''password'', JStr demo_password)]],
     bd_clean = True\<rparr>, sq_refusal = None, sq_events = []\<rparr>"

lemma demo_tables [simp]:
  "db.users (demo_db rv) = [demo_user]" "db.roles (demo_db rv) = [admin_role_row]" "user_roles (demo_db rv) = [local_scope ''u1'' ''role-admin'']"
  "db.permissions (demo_db rv) = [\<lparr>pr_name = ''container.inspect'', pr_category = [], pr_description = []\<rparr>]"
  "role_permissions (demo_db rv) = [(''role-admin'', ''container.inspect'')]" "sessions (demo_db rv) = [tok_session rv]" "policies (demo_db rv) = []"
  "policy_rules (demo_db rv) = []" "audit_events (demo_db rv) = []" "db.settings (demo_db rv) = []" "terminal_sessions (demo_db rv) = []"
  by (simp_all add: demo_db_def session_db_def)

lemma demo_parts [simp]: "sv_store (demo_server rv) = (0, demo_db rv)" "sv_db (demo_server rv) = demo_db rv" "sv_gateway (demo_server rv) = ()"
    "se_env demo_env = calm_env" "se_cfg demo_env = demo_config" "sq_cookie demo_request = Some ''tok''"
    "ur_id demo_user = ''u1''" "ur_username demo_user = ''root''" "ur_enabled demo_user" "ur_password_hash demo_user = demo_hash"
    "sv_loginThrottle (demo_server rv) = newLoginThrottle 5 (20 * 1000000000)"
  by (simp_all add: demo_server_def New_def sv_db_def demo_env_def demo_request_def demo_user_def admin_user_def)

lemma demo_good: "wf_db (sv_db (demo_server rv))" "admin_role (sv_db (demo_server rv))" "has_admin (sv_db (demo_server rv))"
  by (simp_all add: wf_db_def wf_parts builtin_role_def has_admin_def admin_rows_def admin_role_row_def tok_session_def)

theorem requests_keep_administrator_witness:
  "has_admin (sv_db (serve_requests [(demo_env, Protected PLogout, demo_request)] (demo_server None)))"
  using requests_keep_administrator [OF demo_good] by blast

theorem revoked_terminal_ends_witness:
  "\<exists>n. relay demo_request ''abc'' 60 [WatchdogTick, FromBrowser 1 ''x''] 0 demo_env (demo_server (Some []))
     = (Inr 0, (demo_server (Some []))\<lparr>sv_store := (n, demo_db (Some []))\<rparr>)"
  using revoked_terminal_ends [of demo_request "''tok''" demo_env "demo_server (Some [])" "''abc''" 60 "[FromBrowser 1 ''x'']" 0]
  by (simp add: revoked_def session_sat_def tok_session_def)

lemma demo_verifies: "VerifyPassword (argon2 calm_env) demo_hash demo_password = Some True"
proof -
  have h: "HashPassword (argon2 calm_env) (Some (replicate 16 CHR ''s'')) demo_password = Some (Inr demo_hash)"
    unfolding demo_hash_def by (simp add: HashPassword_def calm_env_def demo_password_def maxPasswordBytes_def)
  show ?thesis by (rule HashPassword_verifies [OF h]) (auto simp: calm_env_def demo_password_def)
qed

lemma demo_resolve:
  obtains sess n d where "ResolveSession ''tok'' calm_env (0, demo_db None) = (Inr sess, n, d)"
    "user_Permissions (session_User sess) = [''container.inspect'']" "policies d = []" "db.settings d = []"
proof -
  let ?u = "user_of demo_user (user_join ''u1'' (demo_db None))" and ?h = "TokenHash (sha256 calm_env) ''tok''"
  have p: "user_Permissions ?u = [''container.inspect'']"
    by (simp add: user_of_def user_join_def local_scope_def admin_role_row_def collect_row_def collect_rows_def)
  have "ResolveSession ''tok'' calm_env (0, demo_db None)
      = (Inr \<lparr>session_User = ?u, session_TokenHash = ?h, session_CSRFHash = [], session_ExpiresAt = rfc3339nano 3600000000000\<rparr>,
         6, update_session ?h (\<lambda>x. x\<lparr>sr_last_activity_at := rfc3339nano (Suc (Suc (Suc (Suc 0))))\<rparr>) (demo_db None))"
    using tok_live by (simp add: ResolveSession_def GetUser_def bnd_def attempt_def token_hash_def now_def query_row_def
        query_def exec_def ret_def modify_def tok_session_def)
  then show ?thesis by (rule that) (simp_all add: p update_session_def)
qed

lemma demo_query [simp]: "sq_query demo_request k = []" "sq_param demo_request = ''abc''" "se_sprint demo_env = (\<lambda>_. [])"
  by (simp_all add: demo_request_def demo_env_def)

lemma demo_inspectResource:
  "inspectResource ''abc'' demo_env ((demo_server rv)\<lparr>sv_store := st\<rparr>)
     = (Inr (Inr ([], resource_of [])), (demo_server rv)\<lparr>sv_store := st\<rparr>)"
  by (simp add: inspectResource_def ValidateContainerID_def container_char_def run_bnd run_simps gw_Raw_def hgateway_def gc_Raw_def
      gc_request_def demo_env_def dec_object_def)

lemma demo_inspect: "\<exists>resp sv' v risk sys prot. Handle demo_env (Protected GContainer) demo_request (demo_server None) = (resp, sv')
    \<and> sp_status resp = 200 \<and> sp_body resp = PInspect v risk sys prot"
proof -
  obtain sess n d where r: "ResolveSession ''tok'' calm_env (0, demo_db None) = (Inr sess, n, d)"
    and p: "user_Permissions (session_User sess) = [''container.inspect'']" and d: "policies d = []" "db.settings d = []"
    by (rule demo_resolve)
  let ?s = "(demo_server None)\<lparr>sv_store := (n, d)\<rparr>" and ?u = "session_User sess"
  have g: "Handle demo_env (Protected GContainer) demo_request (demo_server None)
      = finish (container demo_request sess) demo_env ?s"
    using r p by (simp add: Handle_def requireSession_def finish_bnd run_check hstore_def guarded_handler_def route_guards_def
        requirePermission_def run_simps rbac_Allowed_def handler_def)
  have a: "authorizeResourceWithAudit demo_request sess ''container.inspect'' ''abc'' True demo_env ?s
      = (Inr ([], resource_of []), (demo_server None)\<lparr>sv_store := (Suc n, d)\<rparr>)"
    using d p engine.no_policy [of ?u "''container.inspect''" "resource_of []"]
    by (simp add: rbac_Allowed_def immutable_def privileged_action_def authorizeResourceWithAudit_def run_bnd run_check run_simps demo_inspectResource hstore_def ListPolicies_def
        query_def exec_def bnd_def ret_def)
  let ?s1 = "(demo_server None)\<lparr>sv_store := (Suc n, d)\<rparr>" and ?s2 = "(demo_server None)\<lparr>sv_store := (Suc (Suc n), d)\<rparr>"
  obtain s3 where "audit demo_request (Some sess) ?u ''CONTAINER_INSPECT'' ''container'' ''abc'' ''success'' [] None demo_env ?s2 = (Inr (), s3)"
    by (rule audit_run)
  moreover have "settings_or_nil demo_env ?s1 = (Inr Map.empty, ?s2)"
    using d by (simp add: settings_or_nil_def run_bnd run_simps hstore_def Settings_def query_def exec_def)
  ultimately show ?thesis
    unfolding g using a
    by (simp add: container_def authorizeResource_def show_container_def finish_bnd finish_ret run_simps Let_def respond_def)
qed

theorem inspection_discloses_witness:
  "\<exists>resp sv' v risk sys prot sess st doc. Handle demo_env (Protected GContainer) demo_request (demo_server None) = (resp, sv')
    \<and> sp_body resp = PInspect v risk sys prot \<and> ResolveSession ''tok'' calm_env (0, demo_db None) = (Inr sess, st)
    \<and> authorized demo_env ((demo_server None)\<lparr>sv_store := st\<rparr>) (session_User sess) ''container.inspect'' ''abc'' doc
    \<and> risk = riskFromInspect (\<lambda>_. []) doc sys \<and> v = mask_fields doc"
proof -
  obtain resp sv' v risk sys prot where h: "Handle demo_env (Protected GContainer) demo_request (demo_server None) = (resp, sv')"
    and b: "sp_status resp = 200" "sp_body resp = PInspect v risk sys prot" using demo_inspect by blast
  have "\<not> masking_off demo_env (demo_server None)" by (simp add: masking_off_def demo_config_def setting_def)
  with inspection_discloses [OF h b] h b(2) show ?thesis
    by (auto split: if_splits)
qed

lemma demo_login_body: "login_body demo_request = Some \<lparr>li_Username = ''root'', li_Password = demo_password\<rparr>"
  by (simp add: login_body_def demo_request_def decode_body_def dec_login_def dec_struct_def dec_at_def dec_string_def)

text \<open>The server before anyone has logged in.\<close>

definition fresh_server :: "unit server" where
  "fresh_server = New (0, (demo_db None)\<lparr>sessions := []\<rparr>) ()"

lemma demo_authenticate:
  assumes "db.users d = [demo_user]"
  obtains x n' d' where "Authenticate ''root'' demo_password calm_env (n, d) = (Inr (Some x), n', d')" "user_ID x = ''u1''"
    "ur_id ` set (db.users d') = {''u1''}" "sessions d' = sessions d"
proof -
  have "\<exists>x n' d'. Authenticate ''root'' demo_password calm_env (n, d) = (Inr (Some x), n', d') \<and> user_ID x = ''u1''
      \<and> ur_id ` set (db.users d') = {''u1''} \<and> sessions d' = sessions d"
    using assms demo_verifies
    by (simp add: Authenticate_def GetUser_def bnd_def attempt_def query_row_def query_def exec_def nocase_def verify_password_def
        now_def modify_def update_user_def ret_def)
  then show ?thesis by (elim exE conjE) (rule that)
qed

lemma demo_issue:
  assumes "ur_id ` set (db.users (sv_db s)) = {''u1''}" and "sessions (sv_db s) = []" and "user_ID x = ''u1''"
  obtains cookies s' where "issueSession demo_request x demo_env s = (Inr cookies, s')"
proof -
  obtain n d where st: "sv_store s = (n, d)" by (cases "sv_store s")
  have "\<exists>token. random_token 32 calm_env (k, d) = (Inr token, Suc k, d)" for k
    by (simp add: random_token_def RandomToken_def)
  then obtain token where token: "\<And>k. random_token 32 calm_env (k, d) = (Inr (token k), Suc k, d)" by metis
  from assms st have d: "ur_id ` set (db.users d) = {''u1''}" "sessions d = []" by (simp_all add: sv_db_def)
  have "\<exists>cookies s'. issueSession demo_request x demo_env s = (Inr cookies, s')"
    using d assms(3) st by (simp add: issueSession_def run_bnd run_simps run_check hstore_def CreateSession_def bnd_def token
        time_Now_def token_hash_def checked_def exec_def ret_def insert_session_def)
  then show ?thesis using that by blast
qed

lemma demo_login: "\<exists>resp sv'. Handle demo_env (Public PLoginRoute) demo_request fresh_server = (resp, sv') \<and> sp_status resp = 200"
proof -
  let ?i = "\<lparr>li_Username = ''root'', li_Password = demo_password\<rparr>" and ?k = "throttleKey (se_ToLower demo_env) demo_request
    \<lparr>li_Username = ''root'', li_Password = demo_password\<rparr>"
  let ?d = "(demo_db None)\<lparr>sessions := []\<rparr>"
  define s1 where "s1 = fresh_server\<lparr>sv_store := (Suc 0, ?d)\<rparr>"
  have "Handle demo_env (Public PLoginRoute) demo_request fresh_server = finish (login_attempt demo_request ?i ?k) demo_env fresh_server"
    using demo_login_body by (simp add: Handle_def public_handler_def login_def login_body_def finish_ask demo_password_def)
  also have "... = finish (hbnd (hstore (Authenticate ''root'' demo_password)) (\<lambda>res. case res of
       Inl _ \<Rightarrow> login_failed demo_request ?i ?k | Inr None \<Rightarrow> login_failed demo_request ?i ?k
     | Inr (Some u) \<Rightarrow> login_succeeded demo_request u ?k)) demo_env s1"
    by (simp add: login_attempt_def finish_bnd [of "hthrottle f" for f] hthrottle_run throttle_blocked_def fresh_server_def New_def
        newLoginThrottle_def s1_def)
  finally have h: "Handle demo_env (Public PLoginRoute) demo_request fresh_server = ..." .
  obtain x n' d' where a: "Authenticate ''root'' demo_password calm_env (Suc 0, ?d) = (Inr (Some x), n', d')" "user_ID x = ''u1''"
    "ur_id ` set (db.users d') = {''u1''}" "sessions d' = sessions ?d" by (rule demo_authenticate [of ?d "Suc 0"]) simp
  define s2 where "s2 = s1\<lparr>sv_store := (n', d')\<rparr>"
  define s3 where "s3 = s2\<lparr>sv_loginThrottle := throttle_clear (sv_loginThrottle s2) ?k\<rparr>"
  have "hstore (Authenticate ''root'' demo_password) demo_env s1 = (Inr (Inr (Some x)), s2)"
    using a(1) by (simp add: hstore_def s1_def s2_def)
  moreover obtain cookies s4 where "issueSession demo_request x demo_env s3 = (Inr cookies, s4)"
    by (rule demo_issue [of s3 x]) (use a in \<open>simp_all add: s3_def s2_def sv_db_def\<close>)
  moreover obtain s5 where "audit demo_request None x ''LOGIN_SUCCESS'' ''auth'' [] ''success'' [] None demo_env s4 = (Inr (), s5)"
    by (rule audit_run)
  ultimately show ?thesis
    unfolding h by (simp add: finish_bnd login_succeeded_def hclear_def finish_ret flip: s3_def)
qed

theorem login_needs_password_witness:
  "\<exists>resp sv' token csrf. Handle demo_env (Public PLoginRoute) demo_request fresh_server = (resp, sv')
    \<and> sp_cookies resp = session_cookies demo_config token csrf
    \<and> (\<exists>s\<in>set (sessions (sv_db sv')). sr_user_id s = ''u1'' \<and> sr_id_hash s = TokenHash (sha256 calm_env) token)"
proof -
  obtain resp sv' where h: "Handle demo_env (Public PLoginRoute) demo_request fresh_server = (resp, sv')"
    and b: "sp_status resp = 200" using demo_login by blast
  have "db.users (sv_db fresh_server) = [demo_user]" by (simp add: fresh_server_def New_def sv_db_def)
  with login_needs_password [OF h b] h show ?thesis by fastforce
qed

text \<open>The same server while the administrator's name is blocked for the address of the request.\<close>

definition demo_blocked :: "unit server" where
  "demo_blocked = (demo_server None)\<lparr>sv_loginThrottle := \<lparr>lt_data = [(throttleKey (\<lambda>s. s) demo_request \<lparr>li_Username = ''root'', li_Password = demo_password\<rparr>, \<lparr>la_failures = 5, la_blockedUntil = epoch + 10, la_lastSeen = epoch\<rparr>)],
     lt_max = 5, lt_cooldown = 20 * 1000000000\<rparr>\<rparr>"

theorem blocked_login_refused_witness:
  "blocked_for demo_env demo_request \<lparr>li_Username = ''root'', li_Password = demo_password\<rparr> demo_blocked > 0
    \<and> sp_status (fst (Handle demo_env (Public PLoginRoute) demo_request demo_blocked)) = 429"
proof -
  let ?i = "\<lparr>li_Username = ''root'', li_Password = demo_password\<rparr>"
  have b: "blocked_for demo_env demo_request ?i demo_blocked > 0"
    by (simp add: blocked_for_def throttle_blocked_def demo_blocked_def demo_env_def time_sub_def minInt_def maxInt_def)
  show ?thesis
    using blocked_login_refused [OF demo_login_body _ _ b prod.collapse [symmetric]] b by (simp add: demo_password_def)
qed

end
