(* ===== verification/Store_Effects.thy ===== *)
theory Store_Effects
  imports Store_Accounts "HOL-Library.Multiset"
begin

text \<open>
  The effects of the operations of the store (\<open>src/backend/internal/database/database.go\<close>) against
  abstract specifications: the set of open sessions, accounts and passwords, the atomicity of updates,
  policies, settings and the audit trail.
\<close>

section \<open>The sessions as a set\<close>

text \<open>
  The abstract state is the set of the open sessions: token hash, user, CSRF hash and expiry.  The
  operations of the specification open a session, close those of a token and close those of a user.
\<close>

type_synonym open_session = "string \<times> string \<times> string \<times> string"

definition session_view :: "session_row \<Rightarrow> open_session" where
  "session_view s = (sr_id_hash s, sr_user_id s, sr_csrf_hash s, sr_expires_at s)"

definition open_rows :: "session_row list \<Rightarrow> open_session set" where
  "open_rows xs = set (map session_view (filter (\<lambda>s. sr_revoked_at s = None) xs))"

definition open_sessions :: "db \<Rightarrow> open_session set" where
  "open_sessions d = open_rows (sessions d)"

definition close_token :: "string \<Rightarrow> open_session set \<Rightarrow> open_session set" where
  "close_token h S = {x \<in> S. fst x \<noteq> h}"

definition close_user :: "string \<Rightarrow> open_session set \<Rightarrow> open_session set" where
  "close_user uid S = {x \<in> S. fst (snd x) \<noteq> uid}"

lemma open_sessions_update_user [simp]: "open_sessions (update_user uid f d) = open_sessions d"
  by (simp add: open_sessions_def update_user_def)

lemma open_rows_simps [simp]: "open_rows [] = {}"
  "open_rows (s # xs) = (if sr_revoked_at s = None then insert (session_view s) (open_rows xs) else open_rows xs)"
  "open_rows (xs @ ys) = open_rows xs \<union> open_rows ys"
  by (auto simp: open_rows_def)

lemma close_simps [simp]:
  "close_token h {} = {}" "close_token h (insert x S) = (if fst x = h then close_token h S else insert x (close_token h S))"
  "close_user uid {} = {}" "close_user uid (insert x S) = (if fst (snd x) = uid then close_user uid S else insert x (close_user uid S))"
  by (auto simp: close_token_def close_user_def)

lemma open_rows_revoke_token:
  "open_rows (update_where (\<lambda>s. sr_id_hash s = h) (\<lambda>s. s\<lparr>sr_revoked_at := Some t\<rparr>) xs) = close_token h (open_rows xs)"
  by (induction xs) (simp_all add: session_view_def del: not_None_eq)

lemma open_rows_revoke_user:
  "open_rows (update_where (\<lambda>s. sr_user_id s = uid \<and> sr_revoked_at s = None) (\<lambda>s. s\<lparr>sr_revoked_at := Some t\<rparr>) xs) = close_user uid (open_rows xs)"
  by (induction xs) (simp_all add: session_view_def del: not_None_eq)

lemma open_rows_touch: "open_rows (update_where c (\<lambda>s. s\<lparr>sr_last_activity_at := t\<rparr>) xs) = open_rows xs"
  by (induction xs) (simp_all add: session_view_def del: not_None_eq)

lemma open_sessions_revoke_token:
  "open_sessions (update_session h (\<lambda>s. s\<lparr>sr_revoked_at := Some t\<rparr>) d) = close_token h (open_sessions d)"
  by (simp add: open_sessions_def update_session_def open_rows_revoke_token)

lemma open_sessions_revoke_user: "open_sessions (revoke_active uid t d) = close_user uid (open_sessions d)"
  by (simp add: open_sessions_def revoke_active_def open_rows_revoke_user)

lemma open_sessions_touch: "open_sessions (update_session h (\<lambda>s. s\<lparr>sr_last_activity_at := t\<rparr>) d) = open_sessions d"
  by (simp add: open_sessions_def update_session_def open_rows_touch)

interpretation same_sessions: store_relation "\<lambda>d d'. sessions d' = sessions d"
  by unfold_locales auto

lemma same_sessions_assign: "rel_steps (\<lambda>d d'. sessions d' = sessions d) (assign_roles err uid rs)"
  unfolding assign_roles_def
  by (intro same_sessions.steps_intros same_sessions.steps_checked)
    (auto simp: assign_role_def insert_user_roles_def same_sessions.steps_intros split: if_splits)

lemma same_sessions_parts:
  "rel_steps (\<lambda>d d'. sessions d' = sessions d) (guard_last_admin uid enabled rs)"
  "rel_steps (\<lambda>d d'. sessions d' = sessions d) (update_enabled uid enabled)"
  "rel_steps (\<lambda>d d'. sessions d' = sessions d) (update_roles uid rs)"
  unfolding UpdateUser_parts
  by (auto simp: update_user_def clear_user_roles_def intro!: same_sessions.steps_intros same_sessions.steps_modify same_sessions_assign
      split: option.split)

lemma rel_stepsD: "rel_steps R m \<Longrightarrow> m e (n, d) = (r, n', d') \<Longrightarrow> R d d'"
  unfolding rel_steps_def by (metis snd_conv)

lemma open_sessions_UpdateUser:
  assumes "UpdateUser uid enabled rs password e (n, d) = (Inr (), n', d')"
  shows "open_sessions d' = (if password = [] then open_sessions d else close_user uid (open_sessions d))"
proof -
  from assms obtain k0 k1 k2 k3 d1 d2 d3 where
    "guard_last_admin uid enabled rs e (k0, d) = (Inr (), k1, d1)" "update_enabled uid enabled e (k1, d1) = (Inr (), k2, d2)"
    and p: "update_password uid password e (k2, d2) = (Inr (), k3, d3)"
    and "\<exists>k4. update_roles uid rs e (k3, d3) = (Inr (), k4, d')"
    by (auto simp: UpdateUser_def run_ok)
  then have "sessions d2 = sessions d" "sessions d' = sessions d3"
    by (metis rel_stepsD [OF same_sessions_parts(1)] rel_stepsD [OF same_sessions_parts(2)],
        metis rel_stepsD [OF same_sessions_parts(3)])
  moreover have "open_sessions d3 = (if password = [] then open_sessions d2 else close_user uid (open_sessions d2))"
    using p by (auto simp: update_password_def run_ok open_sessions_revoke_user split: if_splits)
  ultimately show ?thesis by (simp add: open_sessions_def)
qed

lemma case_no_row_ok:
  "(case r of Inl ErrNoRows \<Rightarrow> raise missing | Inl err \<Rightarrow> raise err | Inr x \<Rightarrow> f x) e s = (Inr y, s') \<longleftrightarrow>
     (\<exists>x. r = Inr x \<and> f x e s = (Inr y, s'))"
  by (auto simp: raise_ok split: sum.splits go_error.splits)

lemma checked_ID_ok: "checked_ID e (n, d) = (Inr i, n', d') \<longleftrightarrow> n' = Suc n \<and> d' = d \<and> ID (random e n 16) = Inr i"
  by (auto simp: checked_ID_def)

text \<open>The transaction of \<open>RecoverPassword\<close> after the user has been looked up.\<close>

definition recovery_tx :: "string \<Rightarrow> user_row go_result \<Rightarrow> string dbm" where
  "recovery_tx hash r = (case r of
       Inl ErrNoRows \<Rightarrow> raise (ErrNew ''user not found'')
     | Inl err \<Rightarrow> raise err
     | Inr u \<Rightarrow>
         if \<not> ur_enabled u then raise (ErrNew ''user is disabled; another administrator must enable it'')
         else bnd now (\<lambda>timestamp.
           bnd (modify (update_user (ur_id u) (\<lambda>x. x\<lparr>ur_password_hash := hash, ur_updated_at := timestamp\<rparr>))) (\<lambda>_.
           bnd (modify (revoke_active (ur_id u) timestamp)) (\<lambda>_.
           bnd checked_ID (\<lambda>auditID.
           bnd (checked (insert_audit
             \<lparr>au_id = auditID, au_timestamp = timestamp, au_user_id = Some (ur_id u), au_username = ur_username u,
              au_source_ip = ''local-host'', au_action = ''PASSWORD_RECOVERY'', au_resource_type = ''user'',
              au_resource_id = ur_id u, au_result = ''success'', au_reason = ''emergency host recovery'',
              au_session_id = [], au_metadata = ''{\"source\":\"host-cli\"}''\<rparr>)) (\<lambda>_.
           ret (ur_id u)))))))"

lemma RecoverPassword_split:
  "RecoverPassword username password = bnd (hash_password password) (\<lambda>hash.
     bnd (in_tx (bnd (attempt (query_row (\<lambda>d. find (\<lambda>u. nocase (ur_username u) username) (users d)))) (recovery_tx hash))) GetUser)"
  unfolding RecoverPassword_def recovery_tx_def ..

text \<open>What a successful recovery has done.\<close>

lemma RecoverPassword_ok:
  assumes "RecoverPassword username password e (n, d) = (Inr u, n', d')"
  obtains r h t a where "find (\<lambda>u. nocase (ur_username u) username) (users d) = Some r" "ur_enabled r" "user_ID u = ur_id r"
    "HashPassword (argon2 e) (random e n 16) password = Some (Inr h)"
    "d' = (revoke_active (ur_id r) t (update_user (ur_id r) (\<lambda>x. x\<lparr>ur_password_hash := h, ur_updated_at := t\<rparr>) d))
       \<lparr>audit_events := audit_events d @ [a]\<rparr>" "au_action a = ''PASSWORD_RECOVERY''" "au_user_id a = Some (ur_id r)"
proof -
  from assms [unfolded RecoverPassword_split] obtain h k uid where
    h: "hash_password password e (n, d) = (Inr h, Suc n, d)" and g: "\<exists>k'. GetUser uid e (k', d') = (Inr u, n', d')"
    and tx: "\<exists>k'. bnd (attempt (query_row (\<lambda>d. find (\<lambda>u. nocase (ur_username u) username) (users d)))) (recovery_tx h) e (k, d)
       = (Inr uid, k', d')"
    unfolding bnd_ok [of "hash_password password"] bnd_ok [of "in_tx m" GetUser for m]
    by (force simp: hash_password_ok GetUser_ok in_tx_ok)
  from tx obtain r t a where r: "find (\<lambda>u. nocase (ur_username u) username) (users d) = Some r" "ur_enabled r" "uid = ur_id r"
    and a: "insert_audit a (revoke_active (ur_id r) t (update_user (ur_id r) (\<lambda>x. x\<lparr>ur_password_hash := h, ur_updated_at := t\<rparr>) d)) = Some ((), d')"
      "au_action a = ''PASSWORD_RECOVERY''" "au_user_id a = Some (ur_id r)"
    by (auto simp: recovery_tx_def run_ok case_no_row_ok checked_ID_ok)
  from h have "HashPassword (argon2 e) (random e n 16) password = Some (Inr h)" by (simp add: hash_password_ok)
  with r a g show ?thesis
    by (intro that [of r h a t]) (auto simp: insert_audit_def revoke_active_def update_user_def GetUser_ok split: if_splits dest!: find_SomeD)
qed

lemma open_sessions_RecoverPassword:
  assumes "RecoverPassword username password e (n, d) = (Inr u, n', d')"
  shows "open_sessions d' = close_user (user_ID u) (open_sessions d)"
  using assms
proof (rule RecoverPassword_ok)
  fix r h t a
  let ?d = "update_user (ur_id r) (\<lambda>x. x\<lparr>ur_password_hash := h, ur_updated_at := t\<rparr>) d"
  assume "d' = (revoke_active (ur_id r) t ?d)\<lparr>audit_events := audit_events d @ [a]\<rparr>"
  then have "open_sessions d' = open_sessions (revoke_active (ur_id r) t ?d)" by (simp add: open_sessions_def)
  also have "... = close_user (ur_id r) (open_sessions d)"
    by (simp add: open_sessions_revoke_user)
  finally show "user_ID u = ur_id r \<Longrightarrow> ?thesis" by simp
qed

lemma ResolveSession_opens:
  "ResolveSession token e (n, d) = (Inr x, n', d') \<Longrightarrow> open_sessions d' = open_sessions d \<and> session_ExpiresAt x > rfc3339nano (clock e n)
     \<and> (session_TokenHash x, user_ID (session_User x), session_CSRFHash x, session_ExpiresAt x) \<in> open_sessions d"
  "ResolveSession token e (n, d) = (Inl err, n', d') \<Longrightarrow> open_sessions d' = open_sessions d"
proof -
  assume "ResolveSession token e (n, d) = (Inr x, n', d')"
  then obtain s u where "find (live_session (TokenHash (sha256 e) token) (rfc3339nano (clock e n))) (sessions d) = Some s"
    and u: "find (\<lambda>u. ur_id u = sr_user_id s) (users d) = Some u"
    and x: "x = \<lparr>session_User = user_of u (user_join (sr_user_id s) d), session_TokenHash = TokenHash (sha256 e) token,
      session_CSRFHash = sr_csrf_hash s, session_ExpiresAt = sr_expires_at s\<rparr>"
    and d': "d' = d \<or> d' = update_session (TokenHash (sha256 e) token) (\<lambda>x. x\<lparr>sr_last_activity_at := rfc3339nano (clock e (Suc (Suc (Suc (Suc n)))))\<rparr>) d"
    by (auto simp: ResolveSession_def run_ok GetUser_ok modify_def exec_def split: if_splits)
  then have "session_view s \<in> open_sessions d" "sr_id_hash s = TokenHash (sha256 e) token" "sr_expires_at s > rfc3339nano (clock e n)"
    by (auto simp: open_sessions_def open_rows_def live_session_def dest!: find_SomeD)
  moreover have "ur_id u = sr_user_id s" using u by (auto dest!: find_SomeD)
  ultimately show "open_sessions d' = open_sessions d \<and> session_ExpiresAt x > rfc3339nano (clock e n)
     \<and> (session_TokenHash x, user_ID (session_User x), session_CSRFHash x, session_ExpiresAt x) \<in> open_sessions d"
    using x d' by (auto simp: session_view_def open_sessions_touch)
qed (auto dest: ResolveSession_error)

text \<open>
  C28: the sessions refine a set.  Seen as the set of open sessions, a login adds the session of the returned
  tokens, a logout removes the sessions of the token, an invalidation, a password change and a recovery
  remove all sessions of the user, an update without a password and a lookup leave the set as it is, and
  a lookup that succeeds finds a member of the set.
\<close>

theorem sessions_refine_set:
  "(case CreateSession uid ip agent ttl e (n, d) of
      (Inr (token, csrf), n', d') \<Rightarrow> open_sessions d' = insert (TokenHash (sha256 e) token, uid, TokenHash (sha256 e) csrf,
         rfc3339nano (clock e (n + 2) + ttl)) (open_sessions d)
    | (Inl err, n', d') \<Rightarrow> d' = d)
   \<and> (case RevokeSession token e (n, d) of
      (Inr _, n', d') \<Rightarrow> open_sessions d' = close_token (TokenHash (sha256 e) token) (open_sessions d) | (Inl err, n', d') \<Rightarrow> d' = d)
   \<and> (case RevokeUserSessions uid e (n, d) of
      (Inr _, n', d') \<Rightarrow> open_sessions d' = close_user uid (open_sessions d) | (Inl err, n', d') \<Rightarrow> d' = d)
   \<and> (case UpdateUser uid enabled rs password e (n, d) of
      (Inr _, n', d') \<Rightarrow> open_sessions d' = (if password = [] then open_sessions d else close_user uid (open_sessions d))
    | (Inl err, n', d') \<Rightarrow> d' = d)
   \<and> (case RecoverPassword username password e (n, d) of
      (Inr u, n', d') \<Rightarrow> open_sessions d' = close_user (user_ID u) (open_sessions d) | (Inl err, n', d') \<Rightarrow> True)
   \<and> (case ResolveSession token e (n, d) of
      (Inr x, n', d') \<Rightarrow> open_sessions d' = open_sessions d \<and> session_ExpiresAt x > rfc3339nano (clock e n)
        \<and> (session_TokenHash x, user_ID (session_User x), session_CSRFHash x, session_ExpiresAt x) \<in> open_sessions d
    | (Inl err, n', d') \<Rightarrow> open_sessions d' = open_sessions d)"
proof (intro conjI, goal_cases)
  case 1
  show ?case
  proof (cases "CreateSession uid ip agent ttl e (n, d)")
    case (fields r n' d')
    show ?thesis
    proof (cases r)
      case (Inl err)
      with fields show ?thesis
        by (auto simp: CreateSession_def bnd_def random_token_def time_Now_def token_hash_def checked_def exec_def ret_def
            split: sum.splits if_splits option.splits)
    next
      case (Inr p)
      obtain token csrf where "p = (token, csrf)" by (cases p)
      with fields Inr have "CreateSession uid ip agent ttl e (n, d) = (Inr (token, csrf), n', d')" by simp
      then show ?thesis
        by (rule CreateSession_ok) (use fields Inr \<open>p = _\<close> in \<open>simp add: open_sessions_def session_view_def\<close>)
    qed
  qed
next
  case 2
  show ?case by (simp add: RevokeSession_def bnd_def now_def token_hash_def modify_def exec_def open_sessions_revoke_token)
next
  case 3
  show ?case by (simp add: RevokeUserSessions_def bnd_def now_def modify_def exec_def open_sessions_revoke_user)
next
  case 4
  show ?case
    using open_sessions_UpdateUser [of uid enabled rs password e n d] in_tx_error [of _ e n d]
    unfolding UpdateUser_def by (auto split: prod.split sum.split)
next
  case 5
  show ?case
    using open_sessions_RecoverPassword [of username password e n d] by (auto split: prod.split sum.split)
next
  case 6
  show ?case
    using ResolveSession_opens [of token e n d] by (auto split: prod.split sum.split)
qed

section \<open>Accounts\<close>

lemma CreateUser_ok:
  assumes "CreateUser username password rs enabled e (n, d) = (Inr x, n', d')"
  obtains h row where "ValidateUsername username" "HashPassword (argon2 e) (random e n 16) password = Some (Inr h)"
    "users d' = users d @ [row]" "ur_username row = username" "ur_password_hash row = h" "ur_enabled row = enabled" "user_ID x = ur_id row"
    "ur_id row \<notin> ur_id ` set (users d)" "\<forall>v\<in>set (users d). \<not> nocase (ur_username v) username"
    "sessions d' = sessions d"
proof -
  from assms have v: "ValidateUsername username" by (auto simp: CreateUser_def run_ok)
  from assms obtain h uid t d1 k k' k'' where h: "HashPassword (argon2 e) (random e n 16) password = Some (Inr h)"
    and i: "insert_user \<lparr>ur_id = uid, ur_username = username, ur_password_hash = h, ur_enabled = enabled,
        ur_created_at = t, ur_updated_at = t, ur_last_login_at = None, ur_last_activity_at = None\<rparr> d = Some ((), d1)"
    and a: "assign_roles (ErrQuoted ''unknown role'') uid rs e (k, d1) = (Inr (), k', d')"
    and g: "GetUser uid e (k'', d') = (Inr x, n', d')"
    by (auto simp: CreateUser_def run_ok new_ID_def GetUser_ok)
  have s: "users d' = users d1" "sessions d' = sessions d1"
    using assign_roles_ok [OF a] rel_stepsD [OF same_sessions_assign a] by auto
  from g have "user_ID x = uid" by (auto simp: GetUser_ok dest!: find_SomeD)
  with i s v h show ?thesis
    by (intro that [of h "\<lparr>ur_id = uid, ur_username = username, ur_password_hash = h, ur_enabled = enabled,
        ur_created_at = t, ur_updated_at = t, ur_last_login_at = None, ur_last_activity_at = None\<rparr>"])
      (auto simp: insert_user_def split: if_splits)
qed

lemma Authenticate_user:
  assumes "find (\<lambda>u. nocase (ur_username u) name) (users d) = Some u" and "ur_enabled u"
    and "VerifyPassword (argon2 e) (ur_password_hash u) password = Some True" and "\<And>k. \<not> engine_fails e k"
  shows "\<exists>y m' d'. Authenticate name password e (m, d) = (Inr (Some y), m', d') \<and> user_ID y = ur_id u"
proof -
  define f :: "user_row \<Rightarrow> user_row" where "f = (\<lambda>u. u\<lparr>ur_last_login_at := Some (rfc3339nano (clock e (Suc m))), ur_last_activity_at := Some (rfc3339nano (clock e (Suc (Suc m))))\<rparr>)"
  have "u \<in> set (users d)" using assms(1) by (auto dest: find_SomeD)
  then have "\<exists>v. find (\<lambda>v. ur_id v = ur_id u) (users (update_user (ur_id u) f d)) = Some v"
    by (auto simp: update_user_def update_where_def find_None_iff f_def simp flip: not_None_eq)
  then obtain v where v: "find (\<lambda>v. ur_id v = ur_id u) (users (update_user (ur_id u) f d)) = Some v" by blast
  then have "ur_id v = ur_id u" by (auto dest: find_SomeD)
  with v assms show ?thesis
    by (simp add: Authenticate_def GetUser_def bnd_def attempt_def query_row_def query_def exec_def verify_password_def
        now_def modify_def ret_def flip: f_def)
qed

text \<open>
  C30: a new user can log in.  If \<open>CreateUser\<close> succeeds for an enabled user, the password then authenticates this user under
  the user name in any letter case, on any later database call that the engine does not refuse.  Argon2id
  gives 32 bytes and the random source the 16 bytes it is asked for.
\<close>

theorem created_user_authenticates:
  assumes "CreateUser username password rs True e (n, d) = (Inr x, n', d')"
    and "random e n 16 = Some salt" and "length salt = 16"
    and argon2_length: "\<And>h. argon2 e password salt 3 65536 2 32 = Some h \<Longrightarrow> length h = 32"
    and "argon2 e' = argon2 e" and "\<And>k. \<not> engine_fails e' k" and "nocase username name"
  shows "\<exists>y m' d''. Authenticate name password e' (m, d') = (Inr (Some y), m', d'') \<and> user_ID y = user_ID x"
  using assms(1)
proof (rule CreateUser_ok)
  fix h row
  assume h: "HashPassword (argon2 e) (random e n 16) password = Some (Inr h)"
    and u: "users d' = users d @ [row]" "ur_username row = username" "ur_password_hash row = h" "ur_enabled row = True"
    "user_ID x = ur_id row" "\<forall>v\<in>set (users d). \<not> nocase (ur_username v) username"
  have "VerifyPassword (argon2 e') h password = Some True"
    using HashPassword_verifies [of "argon2 e" salt password h] h assms(2-5) by simp
  moreover have "find (\<lambda>u. nocase (ur_username u) name) (users d) = None"
    using u(6) assms(7) by (simp add: find_None_iff nocase_def)
  then have "find (\<lambda>u. nocase (ur_username u) name) (users d') = Some row"
    using u assms(7) by (simp add: find_append)
  ultimately show ?thesis
    using Authenticate_user [of name d' row e' password m] u assms(6) by simp
qed

lemma bnd_env:
  "bnd new_ID f e (n, d) = f (case ID (random e n 16) of Inr i \<Rightarrow> i | Inl _ \<Rightarrow> []) e (Suc n, d)"
  "bnd now g e (n, d) = g (rfc3339nano (clock e n)) e (Suc n, d)"
  "HashPassword (argon2 e) (random e n 16) p = Some (Inr h) \<Longrightarrow> bnd (hash_password p) k e (n, d) = k h e (Suc n, d)"
  by (simp_all add: bnd_def new_ID_def now_def hash_password_def)

lemma create_alice: "\<exists>x n' d'. CreateUser ''alice'' ''correct horse 42'' [] True calm_env (0, small_db) = (Inr x, n', d')"
proof -
  obtain h where h: "HashPassword (argon2 calm_env) (random calm_env 0 16) ''correct horse 42'' = Some (Inr h)"
    by (simp add: HashPassword_def calm_env_def maxPasswordBytes_def)
  define uid where "uid = hex_encode (replicate 16 (char_of (Suc 0)))"
  have i: "(case ID (random calm_env (Suc 0) 16) of Inl _ \<Rightarrow> [] | Inr i \<Rightarrow> i) = uid" by (simp add: ID_def uid_def)
  have "length uid \<noteq> length ''u1''" by (simp add: uid_def)
  then have uid: "uid \<noteq> ''u1''" by metis
  define u where "u = \<lparr>ur_id = uid, ur_username = ''alice'', ur_password_hash = h, ur_enabled = True, ur_created_at = rfc3339nano (Suc (Suc 0)),
    ur_updated_at = rfc3339nano (Suc (Suc 0)), ur_last_login_at = None, ur_last_activity_at = None\<rparr>"
  have ins: "insert_user u small_db = Some ((), small_db\<lparr>users := [admin_user, u]\<rparr>)"
    using uid by (simp add: insert_user_def u_def admin_user_def nocase_def fold_case_def)
  have iu: "ur_id u = uid" "ur_id admin_user = ''u1''" by (simp_all add: u_def admin_user_def)
  have v: "ValidateUsername ''alice''" by (simp add: ValidateUsername_iff container_char_def)
  have "CreateUser ''alice'' ''correct horse 42'' [] True calm_env (0, small_db)
      = bnd (in_tx (bnd (on_error (ErrNew ''username already exists'') (checked (insert_user u)))
          (\<lambda>_. assign_roles (ErrQuoted ''unknown role'') uid []))) (\<lambda>_. GetUser uid) calm_env (Suc (Suc (Suc 0)), small_db)"
    unfolding CreateUser_def using v h by (simp add: bnd_env ID_def u_def uid_def)
  moreover have "\<exists>x n' d'. ... = (Inr x, n', d')"
    using uid iu by (simp add: run_ok ins assign_roles_def GetUser_ok)
  ultimately show ?thesis by simp
qed

theorem created_user_authenticates_witness:
  "\<exists>x n' d' y m' d''. CreateUser ''alice'' ''correct horse 42'' [] True calm_env (0, small_db) = (Inr x, n', d')
     \<and> Authenticate ''ALICE'' ''correct horse 42'' calm_env (n', d') = (Inr (Some y), m', d'') \<and> user_ID y = user_ID x"
proof -
  obtain x n' d' where c: "CreateUser ''alice'' ''correct horse 42'' [] True calm_env (0, small_db) = (Inr x, n', d')"
    using create_alice by blast
  have "\<exists>y m' d''. Authenticate ''ALICE'' ''correct horse 42'' calm_env (n', d') = (Inr (Some y), m', d'') \<and> user_ID y = user_ID x"
    by (rule created_user_authenticates [OF c]) (auto simp: calm_env_def nocase_def fold_case_def)
  with c show ?thesis by blast
qed

text \<open>The operations that end with a transaction and read the user back.\<close>

lemma tx_then_GetUser:
  assumes "bnd (in_tx m) (\<lambda>y. GetUser (g y)) e (n, d) = (r, n', d')"
  shows "(\<exists>err. r = Inl err) \<and> d' = d \<or> (\<exists>y k k'. m e (Suc n, d) = (Inr y, k, d') \<and> GetUser (g y) e (k', d') = (r, n', d'))"
proof (cases "in_tx m e (n, d)")
  case (fields r1 n1 d1)
  show ?thesis
  proof (cases r1)
    case (Inl err)
    with fields assms show ?thesis by (auto simp: bnd_def dest: in_tx_error)
  next
    case (Inr y)
    with fields have "GetUser (g y) e (n1, d1) = (r, n', d')" using assms by (simp add: bnd_def)
    moreover from this have "d' = d1" by (rule GetUser_same)
    moreover from fields Inr obtain k where "m e (Suc n, d) = (Inr y, k, d1)" by (auto simp: in_tx_ok)
    ultimately show ?thesis by blast
  qed
qed

lemma insert_first_admin:
  assumes "bnd (on_error err1 (checked (insert_first_user u)))
      (\<lambda>n. if n \<noteq> 1 then raise err2 else bnd (checked (insert_user_roles (ur_id u) [''role-admin''])) (\<lambda>_. ret ())) e (n, d) = (Inr y, n', d')"
    and "ur_enabled u"
  shows "users d = [] \<and> users d' = [u] \<and> has_admin d'"
proof -
  from assms have "users d = []" "users d' = [u]" "local_scope (ur_id u) ''role-admin'' \<in> set (user_roles d')"
    by (auto simp: run_ok insert_first_user_def insert_user_roles_def split: if_splits)
  with assms(2) show ?thesis by (auto simp: has_admin_iff admin_rows_iff intro!: bexI [of _ "local_scope (ur_id u) ''role-admin''"])
qed

text \<open>
  The first administrator is created once.  \<open>BootstrapAdmin\<close> succeeds only on a database without users, and
  then its user is the only one, enabled and an administrator; if it fails, the database is as before (or
  the administrator is there, but could not be read back).
\<close>

lemma bootstrap_only_first:
  "case BootstrapAdmin username password e (n, d) of
     (Inr x, n', d') \<Rightarrow> users d = [] \<and> has_admin d'
       \<and> (\<exists>u. users d' = [u] \<and> ur_username u = username \<and> ur_enabled u \<and> user_ID x = ur_id u)
   | (Inl err, n', d') \<Rightarrow> d' = d \<or> users d = [] \<and> has_admin d'"
proof (cases "\<exists>h. ValidateUsername username \<and> HashPassword (argon2 e) (random e n 16) password = Some (Inr h)")
  case False
  then have "\<exists>err k. BootstrapAdmin username password e (n, d) = (Inl err, k, d)"
    by (auto simp: BootstrapAdmin_def raise_def bnd_def hash_password_def split: option.splits sum.splits)
  then show ?thesis by auto
next
  case True
  then obtain h where h: "ValidateUsername username" "HashPassword (argon2 e) (random e n 16) password = Some (Inr h)" by blast
  obtain r n' d' where run: "BootstrapAdmin username password e (n, d) = (r, n', d')" by (metis prod.exhaust)
  define uid where "uid = (case ID (random e (Suc n) 16) of Inr i \<Rightarrow> i | Inl _ \<Rightarrow> [])"
  define u where "u = \<lparr>ur_id = uid, ur_username = username, ur_password_hash = h, ur_enabled = True, ur_created_at = rfc3339nano (clock e (Suc (Suc n))),
    ur_updated_at = rfc3339nano (clock e (Suc (Suc n))), ur_last_login_at = None, ur_last_activity_at = None\<rparr>"
  have u: "ur_id u = uid" "ur_username u = username" "ur_enabled u" by (simp_all add: u_def)
  have "bnd (in_tx (bnd (on_error (ErrNew ''bootstrap unavailable'') (checked (insert_first_user u)))
      (\<lambda>n. if n \<noteq> 1 then raise (ErrNew ''bootstrap already completed'')
        else bnd (checked (insert_user_roles uid [''role-admin''])) (\<lambda>_. ret ())))) (\<lambda>_. GetUser uid) e (Suc (Suc (Suc n)), d) = (r, n', d')"
    using run h unfolding uid_def u_def by (simp add: BootstrapAdmin_def bnd_env)
  from tx_then_GetUser [OF this] have "(\<exists>err. r = Inl err) \<and> d' = d
      \<or> (\<exists>k. (users d = [] \<and> users d' = [u] \<and> has_admin d') \<and> GetUser uid e (k, d') = (r, n', d'))"
    using insert_first_admin [OF _ u(3), unfolded u(1)] by blast
  then show ?thesis
    unfolding run prod.case using u by (auto simp: GetUser_ok split: sum.split)
qed

section \<open>Settings\<close>

definition stored_settings :: "db \<Rightarrow> string \<rightharpoonup> string" where
  "stored_settings d = map_of (map (\<lambda>s. (st_key s, st_value s)) (settings d))"

lemma map_of_upsert:
  "map_of (map (\<lambda>s. (st_key s, st_value s)) (update_where (\<lambda>s. st_key s = k) (\<lambda>s. s\<lparr>st_value := v, st_updated_at := t\<rparr>) xs)) =
     (let m = map_of (map (\<lambda>s. (st_key s, st_value s)) xs) in if k \<in> st_key ` set xs then m(k \<mapsto> v) else m)"
  by (induction xs) (auto simp: Let_def fun_eq_iff)

lemma stored_upsert: "stored_settings (upsert_setting k v t d) = (stored_settings d)(k \<mapsto> v)"
proof (cases "k \<in> st_key ` set (settings d)")
  case True
  then show ?thesis by (simp add: stored_settings_def upsert_setting_def map_of_upsert Let_def)
next
  case False
  then have "stored_settings d k = None" by (force simp: stored_settings_def map_of_eq_None_iff)
  with False show ?thesis
    by (auto simp: stored_settings_def upsert_setting_def map_add_def fun_eq_iff split: option.split)
qed

lemma update_each_setting:
  assumes "each (\<lambda>(k, v). if \<not> setting_ok (k, v) then raise (ErrNew ''invalid setting'')
     else bnd now (\<lambda>t. modify (upsert_setting k v t))) m e (n, d) = (Inr (), n', d')" and "distinct (map fst m)"
  shows "(\<forall>kv\<in>set m. setting_ok kv) \<and> stored_settings d' = stored_settings d ++ map_of m"
  using assms
proof (induction m arbitrary: n d)
  case (Cons kv m)
  obtain k v where kv: "kv = (k, v)" by (cases kv)
  from Cons.prems kv obtain i t where ok: "setting_ok (k, v)" and rest: "each (\<lambda>(k, v). if \<not> setting_ok (k, v) then raise (ErrNew ''invalid setting'')
     else bnd now (\<lambda>t. modify (upsert_setting k v t))) m e (i, upsert_setting k v t d) = (Inr (), n', d')"
    by (auto simp: run_ok)
  have "(\<forall>kv\<in>set m. setting_ok kv) \<and> stored_settings d' = stored_settings (upsert_setting k v t d) ++ map_of m"
    using Cons.IH [OF rest] Cons.prems(2) by simp
  moreover have "map_of m k = None" using Cons.prems(2) kv by (simp add: map_of_eq_None_iff)
  ultimately show ?case
    using ok kv by (auto simp: stored_upsert map_add_def fun_eq_iff split: option.split)
qed (simp add: ret_ok)

text \<open>
  C33: settings can be read back.  A successful \<open>UpdateSettings\<close> has only known keys with values of at most 200 bytes, and
  afterwards \<open>Settings\<close> gives the new value for these keys and the old one for all others; a failed one
  leaves the database as it was.
\<close>

theorem settings_roundtrip:
  assumes "distinct (map fst m)" and "\<not> engine_fails e' k"
  shows "case UpdateSettings m e (n, d) of
      (Inr _, n', d') \<Rightarrow> (\<forall>kv\<in>set m. setting_ok kv)
        \<and> (\<exists>old. fst (Settings e' (k, d)) = Inr old \<and> fst (Settings e' (k, d')) = Inr (old ++ map_of m))
    | (Inl err, n', d') \<Rightarrow> d' = d"
proof (cases "UpdateSettings m e (n, d)")
  case (fields r n' d')
  have s: "fst (Settings e' (k, x)) = Inr (stored_settings x)" for x
    using assms(2) by (simp add: Settings_def query_def exec_def stored_settings_def)
  show ?thesis
  proof (cases r)
    case (Inl err)
    with fields show ?thesis by (auto simp: UpdateSettings_def dest: in_tx_error)
  next
    case (Inr u)
    with fields obtain i j where "each (\<lambda>(k, v). if \<not> setting_ok (k, v) then raise (ErrNew ''invalid setting'')
        else bnd now (\<lambda>t. modify (upsert_setting k v t))) m e (i, d) = (Inr (), j, d')"
      by (auto simp: UpdateSettings_def in_tx_ok)
    from update_each_setting [OF this assms(1)] fields Inr s show ?thesis by auto
  qed
qed

theorem settings_roundtrip_witness:
  "\<exists>n' d' old. UpdateSettings [(''environment'', ''PROD'')] calm_env (0, small_db) = (Inr (), n', d')
     \<and> fst (Settings calm_env (0, small_db)) = Inr old \<and> fst (Settings calm_env (0, d')) = Inr (old ++ map_of [(''environment'', ''PROD'')])"
proof -
  obtain n' d' where u: "UpdateSettings [(''environment'', ''PROD'')] calm_env (0, small_db) = (Inr (), n', d')"
    by (simp add: UpdateSettings_def in_tx_def bnd_def now_def modify_def exec_def ret_def setting_ok_def allowedSettings_def)
  with settings_roundtrip [where m = "[(''environment'', ''PROD'')]" and e' = calm_env and k = 0 and e = calm_env and n = 0 and d = small_db]
  show ?thesis by auto
qed

section \<open>Audit trail\<close>

lemma sort_desc_mset: "mset (sort_desc f xs) = mset xs"
  by (simp add: sort_desc_def)

lemma sort_desc_sorted: "sorted_wrt (\<lambda>a b. f b \<le> f a) (sort_desc f xs)"
proof -
  have "sorted_wrt (\<lambda>a b. f a \<le> f b) (sort_key f (rev xs))"
    using sorted_sort_key [of f "rev xs"] by (simp add: sorted_map)
  then show ?thesis by (simp add: sort_desc_def sorted_wrt_rev)
qed

lemma distinct_mset_map: "mset ys = mset xs \<Longrightarrow> distinct (map f xs) \<Longrightarrow> distinct (map f ys)"
  by (metis mset_eq_imp_distinct_iff mset_map)

text \<open>With unique identifiers the trim keeps the first part of the sorted trail.\<close>

lemma trim_audit_kept:
  assumes "distinct (map au_id (audit_events d))"
  shows "mset (audit_events (trim_audit keep d)) = mset (take keep (sort_desc au_timestamp (audit_events d)))"
proof -
  let ?s = "sort_desc au_timestamp (audit_events d)"
  let ?P = "\<lambda>a. au_id a \<notin> set (map au_id (drop keep ?s))"
  have "distinct (map au_id ?s)" using assms by (rule distinct_mset_map [OF sort_desc_mset])
  then have "distinct (map au_id (take keep ?s @ drop keep ?s))" by simp
  then have *: "\<forall>a\<in>set (take keep ?s). ?P a" by (simp only: map_append distinct_append set_map) blast
  have "filter ?P ?s = filter ?P (take keep ?s) @ filter ?P (drop keep ?s)" by (metis append_take_drop_id filter_append)
  also have "filter ?P (take keep ?s) = take keep ?s" using * by (simp only: filter_id_conv)
  also have "filter ?P (drop keep ?s) = []" by (simp add: filter_empty_conv)
  finally have "filter ?P ?s = take keep ?s" by simp
  moreover have "mset (filter ?P (audit_events d)) = mset (filter ?P ?s)" by (simp add: sort_desc_mset)
  ultimately show ?thesis by (simp add: trim_audit_def Let_def)
qed

text \<open>
  C32: the audit trail is bounded.  After every successful \<open>Audit\<close> there are at most 100000 events; only the new event is
  added, and an event is only dropped if every event that stays has a timestamp text at least as great.
\<close>

theorem audit_trail_bounded:
  assumes "wf_db d" and "Audit x e (n, d) = (Inr (), n', d')"
  shows "length (audit_events d') \<le> 100000
    \<and> (\<exists>a. set (audit_events d') \<subseteq> insert a (set (audit_events d)) \<and> au_action a = Prelude.truncate (event_Action x) 64
         \<and> (\<forall>b\<in>insert a (set (audit_events d)). b \<in> set (audit_events d') \<or> (\<forall>c\<in>set (audit_events d'). au_timestamp b \<le> au_timestamp c)))"
proof -
  from assms(2) obtain a d1 where i: "insert_audit a d = Some ((), d1)" and d': "d' = trim_audit 100000 d1"
    and act: "au_action a = Prelude.truncate (event_Action x) 64"
    by (auto simp: Audit_def Let_def run_ok new_ID_def maxAuditEvents_def audit_row_of_def split: if_splits)
  let ?s = "sort_desc au_timestamp (audit_events d1)"
  have d1: "audit_events d1 = audit_events d @ [a]" "au_id a \<notin> au_id ` set (audit_events d)"
    using i by (auto simp: insert_audit_def split: if_splits)
  have "distinct (map au_id (audit_events d1))" using assms(1) d1 by (simp add: wf_db_def wf_keys_def)
  from trim_audit_kept [OF this] have m: "mset (audit_events d') = mset (take 100000 ?s)" unfolding d' .
  then have l: "length (audit_events d') = length (take 100000 ?s)" and st: "set (audit_events d') = set (take 100000 ?s)"
    by (metis size_mset, metis set_mset_mset)
  have all: "set ?s = insert a (set (audit_events d))" using sort_desc_mset [of au_timestamp "audit_events d1"] d1
    by (metis append_Nil2 insert_is_Un list.simps(15) mset_eq_setD set_append sup_commute list.set(1) Un_insert_right)
  have "b \<in> set (take 100000 ?s) \<or> (\<forall>c\<in>set (take 100000 ?s). au_timestamp b \<le> au_timestamp c)" if "b \<in> set ?s" for b
  proof -
    from that have "b \<in> set (take 100000 ?s) \<or> b \<in> set (drop 100000 ?s)" by (metis Un_iff append_take_drop_id set_append)
    moreover have "sorted_wrt (\<lambda>a b. au_timestamp b \<le> au_timestamp a) (take 100000 ?s @ drop 100000 ?s)"
      by (simp add: sort_desc_sorted)
    ultimately show ?thesis unfolding sorted_wrt_append by blast
  qed
  moreover have "set (take 100000 ?s) \<subseteq> set ?s" by (rule set_take_subset)
  ultimately show ?thesis using l st all act by (intro conjI exI [of _ a]) auto
qed

text \<open>An event without identifier and time.\<close>

definition some_event :: AuditEvent where
  "some_event = \<lparr>event_ID = [], event_Timestamp = [], event_UserID = [], event_Username = ''root'', event_SourceIP = [], event_Action = ''LOGIN'',
     event_ResourceType = [], event_ResourceID = [], event_Result = [], event_Reason = [], event_SessionID = [], event_Metadata = []\<rparr>"

theorem audit_trail_bounded_witness:
  "\<exists>n' d'. Audit some_event calm_env (0, small_db) = (Inr (), n', d') \<and> length (audit_events d') \<le> 100000
     \<and> (\<exists>a. set (audit_events d') \<subseteq> insert a (set (audit_events small_db)) \<and> au_action a = ''LOGIN'')"
proof -
  have "\<exists>n' d'. Audit some_event calm_env (0, small_db) = (Inr (), n', d')"
    by (simp add: Audit_def bnd_def new_ID_def now_def checked_def modify_def exec_def insert_audit_def some_event_def Let_def)
  then obtain n' d' where a: "Audit some_event calm_env (0, small_db) = (Inr (), n', d')" by blast
  moreover have "Prelude.truncate (event_Action some_event) 64 = ''LOGIN''" by (simp add: some_event_def Prelude.truncate_def)
  ultimately show ?thesis using audit_trail_bounded [OF small_db_good(1) a] by auto
qed

section \<open>Policies\<close>

text \<open>What a rule says, apart from its identifiers and its position.\<close>

definition rule_view :: "PolicyRule \<Rightarrow> string \<times> string \<times> string \<times> string \<times> string \<times> string" where
  "rule_view r = (rule_Effect r, rule_Action r, rule_SubjectRoleID r, rule_MatchType r, Prelude.truncate (rule_MatchKey r) 128, rule_MatchValue r)"

lemma truncate_twice: "Prelude.truncate (Prelude.truncate s k) k = Prelude.truncate s k"
  by (simp add: Prelude.truncate_def)

lemma save_rules_rows:
  assumes "each (save_rule pid) (List.enumerate i rs) e (n, d) = (Inr (), n', d')"
  shows "\<exists>rows. policy_rules d' = policy_rules d @ rows \<and> policies d' = policies d \<and> map ru_priority rows = [i..<i + length rs]
    \<and> (\<forall>x\<in>set rows. ru_policy_id x = pid) \<and> map (\<lambda>x. rule_view (rule_of x)) rows = map rule_view rs"
  using assms
proof (induction rs arbitrary: i n d)
  case (Cons r rs)
  from Cons.prems obtain k d1 rid where
    1: "insert_rule \<lparr>ru_id = rid, ru_policy_id = pid, ru_effect = rule_Effect r, ru_action = rule_Action r,
          ru_subject_role_id = (if rule_SubjectRoleID r = [] then None else Some (rule_SubjectRoleID r)),
          ru_match_type = rule_MatchType r, ru_match_key = Prelude.truncate (rule_MatchKey r) 128,
          ru_match_value = rule_MatchValue r, ru_priority = i\<rparr> d = Some ((), d1)" (is "insert_rule ?x d = _")
    and 2: "each (save_rule pid) (List.enumerate (Suc i) rs) e (k, d1) = (Inr (), n', d')"
    by (auto simp: save_rule_def run_ok new_ID_def split: if_splits)
  define x where "x = ?x"
  have d1: "policy_rules d1 = policy_rules d @ [x]" "policies d1 = policies d"
    using 1 unfolding x_def by (auto simp: insert_rule_def split: if_splits)
  have x: "rule_view (rule_of x) = rule_view r" "ru_policy_id x = pid" "ru_priority x = i"
    by (simp_all add: x_def rule_view_def rule_of_def truncate_twice)
  from Cons.IH [OF 2] obtain rows where "policy_rules d' = policy_rules d1 @ rows" "policies d' = policies d1"
    "map ru_priority rows = [Suc i..<Suc i + length rs]" "\<forall>x\<in>set rows. ru_policy_id x = pid"
    "map (\<lambda>x. rule_view (rule_of x)) rows = map rule_view rs" by blast
  moreover have "[i..<i + length (r # rs)] = i # [Suc i..<Suc i + length rs]" by (simp add: upt_conv_Cons del: upt_Suc)
  ultimately show ?case using d1 x by (intro exI [of _ "x # rows"]) (simp del: upt_Suc)
qed (simp add: ret_ok)

lemma sort_desc_increasing:
  assumes "map f xs = [i..<j]"
  shows "sort_desc f xs = rev xs"
proof -
  have "sorted (map f xs)" "distinct (map f xs)" using assms by simp_all
  then have "sort_key f (rev xs) = xs" by (intro sort_key_inj_key_eq) (simp_all add: distinct_map)
  then show ?thesis by (simp add: sort_desc_def)
qed

lemma ListPolicies_run:
  assumes "\<And>k. \<not> engine_fails e k"
  shows "fst (ListPolicies e (n, d)) = Inr (map (\<lambda>p. policy_of p (rules_of_policy (po_id p) d)) (sort_key po_name (policies d)))"
proof -
  have "mapM (\<lambda>p. bnd (query (rules_of_policy (po_id p))) (\<lambda>xs. ret (policy_of p xs))) ps e (n, d)
      = (Inr (map (\<lambda>p. policy_of p (rules_of_policy (po_id p) d)) ps), n + length ps, d)" for ps n
    by (induction ps arbitrary: n) (simp_all add: run_ok assms)
  then have "\<exists>s. ListPolicies e (n, d) = (Inr (map (\<lambda>p. policy_of p (rules_of_policy (po_id p) d)) (sort_key po_name (policies d))), s)"
    by (simp add: ListPolicies_def run_ok assms)
  then show ?thesis by auto
qed

lemma upsert_policy_rows:
  assumes "upsert_policy r d = Some ((), d')"
  shows "(\<exists>x\<in>set (policies d'). po_id x = po_id r) \<and> (\<forall>x\<in>set (policies d'). po_id x = po_id r \<longrightarrow>
    po_name x = po_name r \<and> po_enabled x = po_enabled r \<and> po_description x = po_description r)"
proof (cases "po_id r \<in> po_id ` set (policies d)")
  case True
  then have "\<exists>x\<in>set (policies d). po_id x = po_id r" by (metis imageE)
  moreover have "policies d' = update_where (\<lambda>q. po_id q = po_id r) (\<lambda>q. q\<lparr>po_name := po_name r, po_description := po_description r,
      po_enabled := po_enabled r, po_updated_at := po_updated_at r\<rparr>) (policies d)"
    using assms unfolding upsert_policy_def if_P [OF True] by (simp split: if_split_asm) (metis db.select_convs(7) db.surjective db.update_convs(7))
  ultimately show ?thesis by (simp add: if_distrib [of po_id] cong: if_cong)
next
  case False
  then have "\<forall>x\<in>set (policies d). po_id x \<noteq> po_id r" by (metis imageI)
  with assms False show ?thesis by (simp add: upsert_policy_def split: if_splits) force
qed

text \<open>
  C34: a saved policy is listed, with its rules in the opposite order.  After a successful \<open>SavePolicy\<close>,
  \<open>ListPolicies\<close> has the policy under the returned identifier, with the saved name, flag and description (cut at 500
  bytes), and its rules say what the saved ones say (match keys cut at 128 bytes), but in reverse order.
\<close>

theorem saved_policy_listed:
  assumes "SavePolicy p e (n, d) = (Inr q, n', d')" and "\<And>k. \<not> engine_fails e' k"
  shows "\<exists>ps. fst (ListPolicies e' (m, d')) = Inr ps \<and> (\<exists>x\<in>set ps. policy_ID x = policy_ID q)
    \<and> (\<forall>x\<in>set ps. policy_ID x = policy_ID q \<longrightarrow> policy_Name x = policy_Name p \<and> policy_Enabled x = policy_Enabled p
         \<and> policy_Description x = Prelude.truncate (policy_Description p) 500
         \<and> map rule_view (policy_Rules x) = rev (map rule_view (policy_Rules p)))"
proof -
  from assms(1) obtain t d1 k k' where q: "q = p\<lparr>policy_ID := policy_ID q\<rparr>"
    and u: "upsert_policy \<lparr>po_id = policy_ID q, po_name = policy_Name p, po_description = Prelude.truncate (policy_Description p) 500,
        po_enabled = policy_Enabled p, po_created_at = t, po_updated_at = t\<rparr> d = Some ((), d1)" (is "upsert_policy ?r d = _")
    and r: "each (save_rule (policy_ID q)) (List.enumerate 0 (policy_Rules p)) e (k, clear_rules (policy_ID q) d1) = (Inr (), k', d')"
    by (auto simp: SavePolicy_def run_ok new_ID_def split: if_splits)
  let ?pid = "policy_ID q"
  from save_rules_rows [OF r] obtain rows where rows: "policy_rules d' = policy_rules (clear_rules ?pid d1) @ rows"
    "map ru_priority rows = [0..<length (policy_Rules p)]" "\<forall>x\<in>set rows. ru_policy_id x = ?pid"
    "map (\<lambda>x. rule_view (rule_of x)) rows = map rule_view (policy_Rules p)" and pol: "policies d' = policies d1"
    by (auto simp: clear_rules_def)
  have "filter (\<lambda>x. ru_policy_id x = ?pid) (policy_rules d') = rows"
    using rows(1,3) by (simp add: clear_rules_def filter_empty_conv)
  then have rl: "rules_of_policy ?pid d' = rev rows" using rows(2) by (simp add: rules_of_policy_def sort_desc_increasing)
  have fields: "po_name x = policy_Name p \<and> po_enabled x = policy_Enabled p \<and> po_description x = Prelude.truncate (policy_Description p) 500"
    if "x \<in> set (policies d')" "po_id x = ?pid" for x
    using upsert_policy_rows [OF u] that unfolding pol by simp
  have ex: "\<exists>x\<in>set (policies d'). po_id x = ?pid"
    using upsert_policy_rows [OF u] unfolding pol by simp
  have rv: "map (\<lambda>x. rule_view (rule_of x)) (rev rows) = rev (map rule_view (policy_Rules p))"
    by (simp only: rev_map [symmetric] rows(4))
  show ?thesis
    unfolding ListPolicies_run [of e', OF assms(2)] using ex fields rl rv by (auto simp: policy_of_def comp_def)
qed

text \<open>A policy with two rules.\<close>

definition two_rules :: Policy where
  "two_rules = \<lparr>policy_ID = ''p1'', policy_Name = ''p'', policy_Description = [], policy_Enabled = True,
     policy_Rules = [\<lparr>rule_ID = ''r1'', rule_PolicyID = [], rule_Effect = ''deny'', rule_Action = ''container.exec'', rule_SubjectRoleID = [],
         rule_MatchType = ''name'', rule_MatchKey = [], rule_MatchValue = ''db*'', rule_Priority = 0\<rparr>,
       \<lparr>rule_ID = ''r2'', rule_PolicyID = [], rule_Effect = ''allow'', rule_Action = ''container.exec'', rule_SubjectRoleID = [],
         rule_MatchType = ''name'', rule_MatchKey = [], rule_MatchValue = ''*'', rule_Priority = 0\<rparr>]\<rparr>"

definition exec_db :: db where
  "exec_db = small_db\<lparr>permissions := [\<lparr>pr_name = ''container.exec'', pr_category = [], pr_description = []\<rparr>]\<rparr>"

lemma trimSpace_p: "trimSpace ''p'' = ''p''"
  by code_simp

lemma save_two_rules: "\<exists>q n' d'. SavePolicy two_rules calm_env (0, exec_db) = (Inr q, n', d') \<and> policy_ID q = ''p1''"
  by (simp add: SavePolicy_def two_rules_def trimSpace_p bnd_def now_def in_tx_def checked_def modify_def exec_def ret_def
      upsert_policy_def clear_rules_def save_rule_def insert_rule_def exec_db_def enumerate_simps contains_def)

theorem saved_policy_listed_witness:
  "\<exists>n' d' ps. SavePolicy two_rules calm_env (0, exec_db) = (Inr two_rules, n', d') \<and> fst (ListPolicies calm_env (n', d')) = Inr ps
     \<and> (\<exists>x\<in>set ps. policy_ID x = ''p1'' \<and> map rule_MatchValue (policy_Rules x) = [''*'', ''db*''])"
proof -
  obtain q n' d' where run: "SavePolicy two_rules calm_env (0, exec_db) = (Inr q, n', d')" and q: "policy_ID q = ''p1''"
    using save_two_rules by blast
  from run have "q = two_rules" by (auto simp: SavePolicy_def run_ok two_rules_def)
  moreover from saved_policy_listed [OF run, of calm_env n'] q obtain ps x where "fst (ListPolicies calm_env (n', d')) = Inr ps"
    "x \<in> set ps" "policy_ID x = ''p1''" and v: "map rule_view (policy_Rules x) = rev (map rule_view (policy_Rules two_rules))" by auto
  moreover have "map rule_MatchValue xs = map (\<lambda>(a, b, c, d, f, g). g) (map rule_view xs)" for xs by (simp add: rule_view_def)
  then have "map rule_MatchValue (policy_Rules x) = map (\<lambda>(a, b, c, d, f, g). g) (rev (map rule_view (policy_Rules two_rules)))"
    by (simp only: v)
  then have "map rule_MatchValue (policy_Rules x) = [''*'', ''db*'']" by (simp add: rule_view_def two_rules_def)
  ultimately show ?thesis using run by (intro exI [of _ n'] exI [of _ d'] exI [of _ ps]) auto
qed

lemma zero_ID: "(case ID (Some (replicate 16 (char_of (0::nat)))) of Inl _ \<Rightarrow> [] | Inr i \<Rightarrow> i) \<noteq> ''role-admin''"
proof -
  have "length (hex_encode (replicate 16 (char_of (0::nat)))) \<noteq> length ''role-admin''" by simp
  then show ?thesis unfolding ID_def option.case sum.case by metis
qed

lemma grant_permissions:
  assumes "\<And>k. \<not> engine_fails e k"
  shows "(\<exists>n' d'. each (\<lambda>p. on_error (ErrQuoted ''unknown permission'' p) (checked (insert_role_permission rid p))) ps e (n, d) = (Inr (), n', d')
        \<and> set ps \<subseteq> pr_name ` set (permissions d))
     \<or> (\<exists>p\<in>set ps. \<exists>s. each (\<lambda>p. on_error (ErrQuoted ''unknown permission'' p) (checked (insert_role_permission rid p))) ps e (n, d)
        = (Inl (ErrQuoted ''unknown permission'' p), s))"
proof (induction ps arbitrary: n d)
  case Nil
  then show ?case by (simp add: ret_def)
next
  case (Cons p ps)
  show ?case
  proof (cases "insert_role_permission rid p d")
    case None
    then show ?thesis using assms by (simp add: bnd_def on_error_def attempt_def checked_def exec_def raise_def)
  next
    case (Some r)
    then obtain d1 where d1: "insert_role_permission rid p d = Some ((), d1)" by (cases r) auto
    then have p: "p \<in> pr_name ` set (permissions d)" "permissions d1 = permissions d" by (auto simp: insert_role_permission_def split: if_splits)
    have step: "each (\<lambda>p. on_error (ErrQuoted ''unknown permission'' p) (checked (insert_role_permission rid p))) (p # ps) e (n, d)
        = each (\<lambda>p. on_error (ErrQuoted ''unknown permission'' p) (checked (insert_role_permission rid p))) ps e (Suc n, d1)"
      using assms d1 by (simp add: bnd_def on_error_def attempt_def checked_def exec_def ret_def)
    show ?thesis unfolding step using Cons.IH [of "Suc n" d1] p by auto
  qed
qed

text \<open>The transaction fails on the first permission that the catalog does not have, and is rolled back.\<close>

lemma replace_permissions_unknown:
  assumes "\<And>k. \<not> engine_fails e k" and "\<not> set ps \<subseteq> pr_name ` set (permissions d)"
  shows "\<exists>p\<in>set ps. \<exists>n'. replace_permissions rid ps e (n, d) = (Inl (ErrQuoted ''unknown permission'' p), n', d)"
proof -
  have "permissions (clear_role_permissions rid d) = permissions d" by (simp add: clear_role_permissions_def)
  with grant_permissions [where e = e and rid = rid and ps = ps and n = "Suc (Suc n)" and d = "clear_role_permissions rid d", OF assms(1)] assms(2)
  obtain p s where p: "p \<in> set ps" and run: "each (\<lambda>p. on_error (ErrQuoted ''unknown permission'' p) (checked (insert_role_permission rid p))) ps
      e (Suc (Suc n), clear_role_permissions rid d) = (Inl (ErrQuoted ''unknown permission'' p), s)" by auto
  obtain n' d' where "s = (n', d')" by (cases s)
  with run have "replace_permissions rid ps e (n, d) = (Inl (ErrQuoted ''unknown permission'' p), n', d)"
    using assms(1) by (simp add: replace_permissions_def in_tx_def bnd_def modify_def exec_def)
  with p show ?thesis by blast
qed

text \<open>The requests that \<open>SaveRole\<close> can carry out on the table of roles: a new role with a free name and identifier, or a role that may get the name.\<close>

definition role_savable :: "Role \<Rightarrow> env \<Rightarrow> store \<Rightarrow> bool" where
  "role_savable r e s \<longleftrightarrow> trimSpace (role_Name r) \<noteq> [] \<and> length (role_Name r) \<le> 64 \<and>
     (case s of (n, d) \<Rightarrow>
       if role_ID r = [] then (\<exists>i. ID (random e n 16) = Inr i \<and> i \<notin> rr_id ` set (roles d)) \<and> (\<forall>q\<in>set (roles d). \<not> nocase (rr_name q) (role_Name r))
       else (\<exists>q. find (\<lambda>q. rr_id q = role_ID r) (roles d) = Some q \<and> (rr_builtin q \<longrightarrow> rr_name q = role_Name r))
         \<and> (\<forall>q\<in>set (roles d). rr_id q \<noteq> role_ID r \<longrightarrow> \<not> nocase (rr_name q) (role_Name r)))"

text \<open>
  C35: an error of \<open>SaveRole\<close> does not mean that nothing was saved.  If a role that could be saved names a
  permission that is not in the catalog, \<open>SaveRole\<close> returns the error \<open>unknown permission\<close> for one of the
  permissions, but the role is in the database with the new name and description, created or renamed, while the permissions of
  all roles are as before.
\<close>

theorem refused_role_is_stored:
  assumes "role_savable r e (n, d)" and "\<forall>k. \<not> engine_fails e k"
    and "\<not> set (role_Permissions r) \<subseteq> pr_name ` set (permissions d)"
  shows "\<exists>p\<in>set (role_Permissions r). \<exists>n' d'. SaveRole r e (n, d) = (Inl (ErrQuoted ''unknown permission'' p), n', d')
    \<and> role_permissions d' = role_permissions d
    \<and> (\<exists>q\<in>set (roles d'). rr_name q = role_Name r \<and> rr_description q = Prelude.truncate (role_Description r) 500
         \<and> (if role_ID r = [] then rr_id q \<notin> rr_id ` set (roles d) else rr_id q = role_ID r))"
proof (cases "role_ID r = []")
  case True
  with assms(1) obtain i where i: "ID (random e n 16) = Inr i" "i \<notin> rr_id ` set (roles d)"
    and name: "trimSpace (role_Name r) \<noteq> []" "length (role_Name r) \<le> 64" "\<forall>q\<in>set (roles d). \<not> nocase (rr_name q) (role_Name r)"
    by (auto simp: role_savable_def)
  define q where "q = \<lparr>rr_id = i, rr_name = role_Name r, rr_description = Prelude.truncate (role_Description r) 500,
    rr_builtin = False, rr_created_at = rfc3339nano (clock e (Suc n))\<rparr>"
  let ?d = "d\<lparr>roles := roles d @ [q]\<rparr>"
  have ins: "insert_role q d = Some ((), ?d)" using i name by (auto simp: insert_role_def q_def)
  have "\<not> set (role_Permissions r) \<subseteq> pr_name ` set (permissions ?d)" using assms(3) by simp
  with replace_permissions_unknown [where e = e and d = ?d and n = "Suc (Suc (Suc n))" and rid = i] assms(2)
  obtain p n' where p: "p \<in> set (role_Permissions r)"
    and run: "replace_permissions i (role_Permissions r) e (Suc (Suc (Suc n)), ?d) = (Inl (ErrQuoted ''unknown permission'' p), n', ?d)" by blast
  have "SaveRole r e (n, d) = (Inl (ErrQuoted ''unknown permission'' p), n', ?d)"
    using True i name assms(2) ins run unfolding q_def
    by (simp add: SaveRole_def bnd_def new_ID_def now_def on_error_def attempt_def checked_def exec_def ret_def)
  with p show ?thesis using True i by (auto intro!: bexI [of _ p] simp: q_def)
next
  case False
  with assms(1) obtain q where q: "find (\<lambda>q. rr_id q = role_ID r) (roles d) = Some q" "rr_builtin q \<longrightarrow> rr_name q = role_Name r"
    and name: "trimSpace (role_Name r) \<noteq> []" "length (role_Name r) \<le> 64"
      "\<forall>q\<in>set (roles d). rr_id q \<noteq> role_ID r \<longrightarrow> \<not> nocase (rr_name q) (role_Name r)"
    by (auto simp: role_savable_def)
  let ?f = "\<lambda>x. x\<lparr>rr_name := role_Name r, rr_description := Prelude.truncate (role_Description r) 500\<rparr>"
  let ?d = "d\<lparr>roles := update_where (\<lambda>x. rr_id x = role_ID r) ?f (roles d)\<rparr>"
  have ren: "rename_role (role_ID r) (role_Name r) (Prelude.truncate (role_Description r) 500) d = Some ((), ?d)"
    using name by (auto simp: rename_role_def)
  have "\<not> set (role_Permissions r) \<subseteq> pr_name ` set (permissions ?d)" using assms(3) by simp
  with replace_permissions_unknown [where e = e and d = ?d and n = "Suc (Suc n)" and rid = "role_ID r"] assms(2)
  obtain p n' where p: "p \<in> set (role_Permissions r)"
    and run: "replace_permissions (role_ID r) (role_Permissions r) e (Suc (Suc n), ?d) = (Inl (ErrQuoted ''unknown permission'' p), n', ?d)" by blast
  have "SaveRole r e (n, d) = (Inl (ErrQuoted ''unknown permission'' p), n', ?d)"
    using False q name assms(2) ren run
    by (cases "rr_builtin q") (simp_all add: SaveRole_def bnd_def query_row_def checked_def exec_def ret_def)
  moreover from q(1) have "q \<in> set (roles d)" "rr_id q = role_ID r" by (auto simp: find_Some_iff)
  then have "?f q \<in> set (roles ?d)" by (force simp: update_where_def)
  ultimately show ?thesis using p False \<open>rr_id q = role_ID r\<close>
    by (intro bexI [of _ p] exI [of _ n'] exI [of _ ?d] conjI bexI [of _ "?f q"]) simp_all
qed


theorem refused_role_is_stored_witness:
  "\<exists>n' d'. SaveRole \<lparr>role_ID = [], role_Name = ''p'', role_Description = [], role_Builtin = False, role_Permissions = [''nope'']\<rparr>
      calm_env (0, small_db) = (Inl (ErrQuoted ''unknown permission'' ''nope''), n', d') \<and> ''p'' \<in> rr_name ` set (roles d')"
proof -
  let ?r = "\<lparr>role_ID = [], role_Name = ''p'', role_Description = [], role_Builtin = False, role_Permissions = [''nope'']\<rparr>"
  obtain i where i: "ID (random calm_env 0 16) = Inr i" by (simp add: ID_def)
  with zero_ID have "i \<noteq> ''role-admin''" by simp
  with i have "role_savable ?r calm_env (0, small_db)"
    by (simp add: role_savable_def trimSpace_p admin_role_row_def nocase_def fold_case_def ascii_lower_def)
  from refused_role_is_stored [OF this] obtain n' d' q where
    "SaveRole ?r calm_env (0, small_db) = (Inl (ErrQuoted ''unknown permission'' ''nope''), n', d')" "q \<in> set (roles d')" "rr_name q = ''p''"
    by auto
  then show ?thesis by (intro exI [of _ n'] exI [of _ d'] conjI image_eqI [of _ _ q]) simp_all
qed

lemma GetUser_present:
  assumes "uid \<in> ur_id ` set (users d)" and "\<And>k. \<not> engine_fails e k"
  shows "GetUser uid e (n, d) \<noteq> (Inl err, n', d')"
proof -
  have "find (\<lambda>u. ur_id u = uid) (users d) \<noteq> None" using assms(1) by (auto simp: find_None_iff)
  then show ?thesis using assms(2) by (auto simp: GetUser_def bnd_def query_row_def query_def exec_def ret_def)
qed

lemma CreateUser_error:
  assumes "CreateUser username password rs enabled e (n, d) = (Inl err, n', d')"
  shows "d' = d \<or> (\<exists>k. engine_fails e k)"
proof (cases "\<exists>h. ValidateUsername username \<and> HashPassword (argon2 e) (random e n 16) password = Some (Inr h)")
  case False
  with assms show ?thesis
    by (auto simp: CreateUser_def raise_def bnd_def hash_password_def split: option.splits sum.splits if_splits)
next
  case True
  then obtain h where h: "ValidateUsername username" "HashPassword (argon2 e) (random e n 16) password = Some (Inr h)" by blast
  define uid where "uid = (case ID (random e (Suc n) 16) of Inr i \<Rightarrow> i | Inl _ \<Rightarrow> [])"
  define u where "u = \<lparr>ur_id = uid, ur_username = username, ur_password_hash = h, ur_enabled = enabled, ur_created_at = rfc3339nano (clock e (Suc (Suc n))),
    ur_updated_at = rfc3339nano (clock e (Suc (Suc n))), ur_last_login_at = None, ur_last_activity_at = None\<rparr>"
  let ?m = "bnd (on_error (ErrNew ''username already exists'') (checked (insert_user u))) (\<lambda>_. assign_roles (ErrQuoted ''unknown role'') uid rs)"
  have present: "uid \<in> ur_id ` set (users d1)" if "?m e (i, d) = (Inr y, k, d1)" for i y k d1
  proof -
    from that obtain d0 j where "insert_user u d = Some ((), d0)" "assign_roles (ErrQuoted ''unknown role'') uid rs e (j, d0) = (Inr (), k, d1)"
      by (auto simp: run_ok)
    then show ?thesis using assign_roles_ok by (fastforce simp: insert_user_def u_def split: if_splits)
  qed
  have "bnd (in_tx ?m) (\<lambda>_. GetUser uid) e (Suc (Suc (Suc n)), d) = (Inl err, n', d')"
    using assms h unfolding uid_def u_def by (simp add: CreateUser_def bnd_env)
  from tx_then_GetUser [OF this] present show ?thesis by (metis GetUser_present)
qed

lemma RecoverPassword_error:
  assumes "RecoverPassword username password e (n, d) = (Inl err, n', d')"
  shows "d' = d \<or> (\<exists>k. engine_fails e k)"
proof (cases "\<exists>h. HashPassword (argon2 e) (random e n 16) password = Some (Inr h)")
  case False
  with assms show ?thesis
    by (auto simp: RecoverPassword_def bnd_def hash_password_def split: option.splits sum.splits if_splits)
next
  case True
  then obtain h where h: "HashPassword (argon2 e) (random e n 16) password = Some (Inr h)" by blast
  let ?m = "bnd (attempt (query_row (\<lambda>d. find (\<lambda>u. nocase (ur_username u) username) (users d)))) (recovery_tx h)"
  have present: "uid \<in> ur_id ` set (users d1)" if "?m e (i, d) = (Inr uid, k, d1)" for i uid k d1
  proof -
    from that obtain r t a where r: "find (\<lambda>u. nocase (ur_username u) username) (users d) = Some r" "uid = ur_id r"
      and a: "insert_audit a (revoke_active (ur_id r) t (update_user (ur_id r) (\<lambda>x. x\<lparr>ur_password_hash := h, ur_updated_at := t\<rparr>) d)) = Some ((), d1)"
      by (auto simp: recovery_tx_def run_ok case_no_row_ok checked_ID_ok)
    have "users d1 = users (update_user (ur_id r) (\<lambda>x. x\<lparr>ur_password_hash := h, ur_updated_at := t\<rparr>) d)"
      using a by (auto simp: insert_audit_def revoke_active_def split: if_splits)
    then have "ur_id ` set (users d1) = ur_id ` set (users d)" by (simp add: update_user_def)
    with r show ?thesis by (auto dest: find_SomeD)
  qed
  have "bnd (in_tx ?m) GetUser e (Suc n, d) = (Inl err, n', d')"
    using assms h unfolding RecoverPassword_split by (simp add: bnd_env)
  from tx_then_GetUser [OF this] present show ?thesis by (metis GetUser_present)
qed

text \<open>
  C31: failed updates change nothing.  If \<open>UpdateUser\<close>, \<open>SavePolicy\<close> or \<open>UpdateSettings\<close> returns an error, whatever
  caused it, the database is as before; \<open>CreateUser\<close> and \<open>RecoverPassword\<close> leave it as before unless
  the engine has failed.
\<close>

theorem failed_update_changes_nothing:
  "(case UpdateUser uid enabled rs password e (n, d) of (Inl err, n', d') \<Rightarrow> d' = d | (Inr _, n', d') \<Rightarrow> True)
   \<and> (case SavePolicy p e (n, d) of (Inl err, n', d') \<Rightarrow> d' = d | (Inr _, n', d') \<Rightarrow> True)
   \<and> (case UpdateSettings m e (n, d) of (Inl err, n', d') \<Rightarrow> d' = d | (Inr _, n', d') \<Rightarrow> True)
   \<and> (case CreateUser username password roleNames en e (n, d) of (Inl err, n', d') \<Rightarrow> d' = d \<or> (\<exists>k. engine_fails e k) | (Inr _, n', d') \<Rightarrow> True)
   \<and> (case RecoverPassword username password e (n, d) of (Inl err, n', d') \<Rightarrow> d' = d \<or> (\<exists>k. engine_fails e k) | (Inr _, n', d') \<Rightarrow> True)"
proof (intro conjI, goal_cases)
  case 1
  show ?case by (auto simp: UpdateUser_def split: prod.split sum.split dest: in_tx_error)
next
  case 2
  show ?case
    by (auto simp: SavePolicy_def bnd_def raise_def ret_def now_def new_ID_def split: prod.splits sum.splits if_splits dest: in_tx_error)
next
  case 3
  show ?case by (auto simp: UpdateSettings_def split: prod.split sum.split dest: in_tx_error)
next
  case 4
  show ?case using CreateUser_error [of username password roleNames en e n d] by (auto split: prod.split sum.split)
next
  case 5
  show ?case using RecoverPassword_error [of username password e n d] by (auto split: prod.split sum.split)
qed

end
