(* ===== verification/Store_Open.thy ===== *)
theory Store_Open
  imports Store_Effects
begin

text \<open>
  Opening the database and when operations succeed: what \<open>Open\<close> leaves alone, the role it creates, the
  settings that \<open>EnsureSettings\<close> adds, and that both, and a recovery, succeed where the engine does not
  fail (\<open>src/backend/internal/database/database.go\<close>).
\<close>

section \<open>What opening the database leaves alone\<close>

definition opened :: "db \<Rightarrow> db \<Rightarrow> bool" where
  "opened d d' \<longleftrightarrow> users d' = users d \<and> sessions d' = sessions d \<and> user_roles d' = user_roles d \<and> audit_events d' = audit_events d
     \<and> (\<forall>k. k \<noteq> ''auth_provider'' \<longrightarrow> stored_settings d' k = stored_settings d k)"

interpretation open_frame: store_relation opened
  by unfold_locales (auto simp: opened_def)

lemma stored_insert_ignore:
  "stored_settings (insert_ignore_setting s d) = (case stored_settings d (st_key s) of
     None \<Rightarrow> (stored_settings d)(st_key s \<mapsto> st_value s) | Some _ \<Rightarrow> stored_settings d)"
proof -
  have "st_key s \<in> st_key ` set (settings d) \<longleftrightarrow> stored_settings d (st_key s) \<noteq> None"
    by (auto simp: stored_settings_def map_of_eq_None_iff image_image simp del: not_None_eq)
  then show ?thesis
    by (auto simp: insert_ignore_setting_def stored_settings_def map_of_append fun_eq_iff map_add_def split: option.split)
qed

lemma opened_statements:
  "opened d (upsert_permission p d)" "opened d (insert_ignore_role r d)"
  "insert_ignore_role_permission rid q d = Some (x, d') \<Longrightarrow> opened d d'"
  "st_key s = ''auth_provider'' \<Longrightarrow> opened d (insert_ignore_setting s d)"
  by (auto simp: opened_def upsert_permission_def insert_ignore_role_def insert_ignore_role_permission_def insert_ignore_setting_def
      stored_settings_def map_of_append map_add_def split: prod.splits if_splits option.splits)

lemma opened_Open: "rel_steps opened Open"
  unfolding Open_def seed_def
proof (intro open_frame.steps_intros open_frame.steps_modify open_frame.R_refl opened_statements(1,4))
  fix r
  show "rel_steps opened (seed_role r)"
    unfolding seed_role_def
    by (cases r) (auto intro!: open_frame.steps_intros open_frame.steps_modify open_frame.steps_checked opened_statements(2) intro: opened_statements(3))
qed simp

lemma find_update_where:
  "(\<And>x. P (f x) = P x) \<Longrightarrow> find P (update_where c f xs) = map_option (\<lambda>x. if c x then f x else x) (find P xs)"
  by (induction xs) auto

lemma EnsureSettings_stored:
  "EnsureSettings m e (n, d) = (Inr (), n', d') \<Longrightarrow>
     stored_settings d' k = (case stored_settings d k of None \<Rightarrow> map_of m k | Some v \<Rightarrow> Some v)"
proof (induction m arbitrary: n d)
  case (Cons kv m)
  obtain k' v where kv: "kv = (k', v)" by (cases kv)
  from Cons.prems obtain t n1 where "EnsureSettings m e (n1, insert_ignore_setting \<lparr>st_key = k', st_value = v, st_updated_at = t\<rparr> d) = (Inr (), n', d')"
    by (auto simp: EnsureSettings_def kv run_ok)
  from Cons.IH [OF this] show ?case
    by (auto simp: stored_insert_ignore kv split: option.splits)
qed (auto simp: EnsureSettings_def ret_ok split: option.split)

text \<open>The seed creates the built-in administrator role in an empty database.\<close>

lemma same_roles_permissions:
  "each (\<lambda>p. checked (insert_ignore_role_permission rid p)) ps e (n, d) = (Inr (), n', d') \<Longrightarrow> roles d' = roles d"
  by (induction ps arbitrary: n d) (auto simp: run_ok insert_ignore_role_permission_def split: if_splits)

lemma seed_role_new:
  assumes "seed_role (rid, name, desc, perms) e (n, d) = (Inr (), n', d')"
    and "\<forall>q\<in>set (roles d). rr_id q \<noteq> rid \<and> \<not> nocase (rr_name q) name"
  shows "\<exists>r. roles d' = roles d @ [r] \<and> rr_id r = rid \<and> rr_name r = name \<and> rr_builtin r"
proof -
  from assms(1) obtain t where
    "roles d' = roles (insert_ignore_role \<lparr>rr_id = rid, rr_name = name, rr_description = desc, rr_builtin = True, rr_created_at = t\<rparr> d)"
    by (auto simp: seed_role_def run_ok dest!: same_roles_permissions)
  with assms(2) show ?thesis by (auto simp: insert_ignore_role_def)
qed

lemma same_roles_catalog:
  "each (\<lambda>p. modify (upsert_permission p)) ps e (n, d) = (Inr (), n', d') \<Longrightarrow> roles d' = roles d"
  by (induction ps arbitrary: n d) (auto simp: run_ok upsert_permission_def split: prod.splits if_splits)

lemma Open_admin_role:
  assumes "Open e (n, d) = (Inr (), n', d')" and "wf_db d" and "roles d = [] \<or> admin_role d"
  shows "admin_role d'"
proof (cases "admin_role d")
  case True
  with rel_stepsD [OF builtin.steps_Open assms(1)] assms(2) show ?thesis by (simp add: keeps_builtin_def)
next
  case False
  from assms(1) obtain k k' d1 d2 where s: "each seed_role builtin_roles e (k, d1) = (Inr (), k', d2)" "roles d1 = []" "roles d' = roles d2"
    using False assms(3) unfolding Open_def seed_def
    by (auto simp: run_ok insert_ignore_setting_def dest!: same_roles_catalog)
  from s(1) obtain n3 n4 d3 d4 where 1: "seed_role (builtin_roles ! 0) e (k, d1) = (Inr (), n3, d3)"
    and 2: "seed_role (builtin_roles ! 1) e (n3, d3) = (Inr (), n4, d4)" and 3: "seed_role (builtin_roles ! 2) e (n4, d4) = (Inr (), k', d2)"
    unfolding builtin_roles_def each.simps bnd_ok ret_ok split_paired_Ex by simp blast
  obtain a where a: "roles d3 = [a]" "rr_id a = ''role-viewer''" "rr_name a = ''Viewer''"
    using seed_role_new [OF 1 [unfolded builtin_roles_def, simplified]] s(2) by auto
  obtain b where b: "roles d4 = [a, b]" "rr_id b = ''role-developer''" "rr_name b = ''Developer''"
    using seed_role_new [OF 2 [unfolded builtin_roles_def, simplified]] a by (auto simp: nocase_def fold_case_def)
  obtain c where "roles d2 = [a, b, c]" "rr_id c = ''role-admin''" "rr_name c = ''Admin''" "rr_builtin c"
    using seed_role_new [OF 3 [unfolded builtin_roles_def, simplified]] a b by (auto simp: nocase_def fold_case_def)
  with s(3) show ?thesis by (simp add: builtin_role_def)
qed

section \<open>Opening succeeds\<close>

text \<open>No other role has the name of a built-in one.\<close>

definition builtin_names_free :: "db \<Rightarrow> bool" where
  "builtin_names_free d \<longleftrightarrow> (\<forall>r\<in>set builtin_roles. \<forall>q\<in>set (roles d). nocase (rr_name q) (fst (snd r)) \<longrightarrow> rr_id q = fst r)"

definition catalog_stored :: "db \<Rightarrow> bool" where
  "catalog_stored d \<longleftrightarrow> set (map fst PermissionCatalog) \<subseteq> pr_name ` set (permissions d)"

lemma each_modify:
  "(\<And>k. \<not> engine_fails e k) \<Longrightarrow> each (\<lambda>x. modify (f x)) xs e (n, d) = (Inr (), n + length xs, fold f xs d)"
  by (induction xs arbitrary: n d) (simp_all add: ret_def bnd_def modify_def exec_def)

lemma upsert_permission_names: "pr_name ` set (permissions (upsert_permission p d)) = insert (fst p) (pr_name ` set (permissions d))"
  by (cases p) (auto simp: upsert_permission_def image_update_where)

lemma upsert_permission_roles: "roles (upsert_permission p d) = roles d"
  by (cases p) (simp add: upsert_permission_def)

lemma fold_upsert_permission:
  "pr_name ` set (permissions (fold upsert_permission ps d)) = set (map fst ps) \<union> pr_name ` set (permissions d)
   \<and> roles (fold upsert_permission ps d) = roles d"
  by (induction ps arbitrary: d) (simp_all add: upsert_permission_names upsert_permission_roles)

lemma each_role_permission:
  assumes "\<And>k. \<not> engine_fails e k" and "rid \<in> rr_id ` set (roles d)" and "set ps \<subseteq> pr_name ` set (permissions d)"
  shows "\<exists>n' d'. each (\<lambda>p. checked (insert_ignore_role_permission rid p)) ps e (n, d) = (Inr (), n', d')
    \<and> roles d' = roles d \<and> permissions d' = permissions d"
  using assms(2,3)
proof (induction ps arbitrary: n d)
  case (Cons p ps)
  then have "\<exists>d1. insert_ignore_role_permission rid p d = Some ((), d1) \<and> roles d1 = roles d \<and> permissions d1 = permissions d"
    by (simp add: insert_ignore_role_permission_def)
  then obtain d1 where d1: "insert_ignore_role_permission rid p d = Some ((), d1)" "roles d1 = roles d" "permissions d1 = permissions d"
    by blast
  with Cons.IH [of d1 "Suc n"] Cons.prems assms(1) show ?case
    by (auto simp: bnd_def checked_def exec_def)
qed (simp add: ret_def)

lemma builtin_permissions: "(rid, name, desc, ps) \<in> set builtin_roles \<Longrightarrow> set ps \<subseteq> set (map fst PermissionCatalog)"
  by (auto simp: builtin_roles_def PermissionCatalog_def)

lemma builtin_names: "r \<in> set builtin_roles \<Longrightarrow> q \<in> set builtin_roles \<Longrightarrow> nocase (fst (snd r)) (fst (snd q)) \<Longrightarrow> fst r = fst q"
  by (auto simp: builtin_roles_def nocase_def fold_case_def)

lemma insert_builtin_role:
  assumes "builtin_names_free d" and "(rid, name, desc, ps) \<in> set builtin_roles" and "rr_id r = rid" and "rr_name r = name"
  shows "rid \<in> rr_id ` set (roles (insert_ignore_role r d)) \<and> builtin_names_free (insert_ignore_role r d)
    \<and> permissions (insert_ignore_role r d) = permissions d"
proof -
  have "rid \<in> rr_id ` set (roles d)" if "q \<in> set (roles d)" "nocase (rr_name q) name" for q
    using assms(1,2) that by (force simp: builtin_names_free_def)
  then have "rid \<in> rr_id ` set (roles (insert_ignore_role r d))"
    using assms(3,4) by (auto simp: insert_ignore_role_def)
  moreover have "builtin_names_free (insert_ignore_role r d)"
    using assms builtin_names [OF assms(2)] by (auto simp: insert_ignore_role_def builtin_names_free_def)
  ultimately show ?thesis by (simp add: insert_ignore_role_def)
qed

lemma seed_role_succeeds:
  assumes "\<And>k. \<not> engine_fails e k" and "builtin_names_free d" and "catalog_stored d" and "r \<in> set builtin_roles"
  shows "\<exists>n' d'. seed_role r e (n, d) = (Inr (), n', d') \<and> builtin_names_free d' \<and> catalog_stored d'"
proof -
  obtain rid name desc ps where r: "r = (rid, name, desc, ps)" by (cases r)
  define q where "q = \<lparr>rr_id = rid, rr_name = name, rr_description = desc, rr_builtin = True, rr_created_at = rfc3339nano (clock e n)\<rparr>"
  let ?d = "insert_ignore_role q d"
  have i: "rid \<in> rr_id ` set (roles ?d)" "builtin_names_free ?d" "permissions ?d = permissions d"
    using insert_builtin_role [OF assms(2) assms(4) [unfolded r], of q] by (simp_all add: q_def)
  have "set (if name = ''Admin'' then ps @ map fst PermissionCatalog else ps) \<subseteq> pr_name ` set (permissions ?d)"
    using builtin_permissions [OF assms(4) [unfolded r]] assms(3) unfolding i(3) catalog_stored_def by auto
  from each_role_permission [OF assms(1) i(1) this, of "Suc (Suc n)"] i show ?thesis
    using assms(1,3) unfolding r seed_role_def
    by (auto simp: bnd_def now_def modify_def exec_def q_def builtin_names_free_def catalog_stored_def)
qed

lemma each_seed_role:
  assumes "\<And>k. \<not> engine_fails e k" and "builtin_names_free d" and "catalog_stored d" and "set rs \<subseteq> set builtin_roles"
  shows "\<exists>n' d'. each seed_role rs e (n, d) = (Inr (), n', d')"
  using assms(2-4)
proof (induction rs arbitrary: n d)
  case (Cons r rs)
  then obtain n1 d1 where "seed_role r e (n, d) = (Inr (), n1, d1)" "builtin_names_free d1" "catalog_stored d1"
    using seed_role_succeeds [OF assms(1), of d r n] by auto
  with Cons.IH [of d1 n1] Cons.prems show ?case by (auto simp: bnd_def)
qed (simp add: ret_def)

lemma Open_succeeds:
  assumes "\<And>k. \<not> engine_fails e k" and "builtin_names_free d"
  shows "\<exists>n' d'. Open e (n, d) = (Inr (), n', d')"
proof -
  let ?d = "fold upsert_permission PermissionCatalog d"
  have "builtin_names_free ?d" "catalog_stored ?d"
    using assms(2) fold_upsert_permission [of PermissionCatalog d] by (simp_all add: builtin_names_free_def catalog_stored_def)
  then obtain n1 d1 where "each seed_role builtin_roles e (Suc (Suc n) + length PermissionCatalog, ?d) = (Inr (), n1, d1)"
    using each_seed_role [OF assms(1)] by blast
  then show ?thesis
    using assms(1) by (simp add: Open_def seed_def on_error_def attempt_def bnd_def modify_def exec_def in_tx_def each_modify [unfolded modify_def exec_def]
        ret_def now_def)
qed

lemma EnsureSettings_succeeds:
  assumes "\<And>k. \<not> engine_fails e k" and "\<forall>kv\<in>set m. setting_ok kv"
  shows "\<exists>n' d'. EnsureSettings m e (n, d) = (Inr (), n', d')"
  using assms(2)
proof (induction m arbitrary: n d)
  case (Cons kv m)
  have "EnsureSettings (kv # m) e (n, d)
      = EnsureSettings m e (Suc (Suc n), insert_ignore_setting \<lparr>st_key = fst kv, st_value = snd kv, st_updated_at = rfc3339nano (clock e n)\<rparr> d)"
    using Cons.prems assms(1) by (cases kv) (simp add: EnsureSettings_def bnd_def now_def modify_def exec_def)
  with Cons show ?case by simp
qed (simp add: EnsureSettings_def ret_def)

lemma GetUser_succeeds:
  assumes "\<And>k. \<not> engine_fails e k" and "u \<in> set (users d)"
  shows "\<exists>x n' d'. GetUser (ur_id u) e (n, d) = (Inr x, n', d')"
proof -
  have "find (\<lambda>v. ur_id v = ur_id u) (users d) \<noteq> None" using assms(2) by (auto simp: find_None_iff)
  then show ?thesis using assms(1) by (auto simp: GetUser_ok)
qed

lemma RecoverPassword_succeeds:
  assumes "\<And>k. \<not> engine_fails e k" and "find (\<lambda>u. nocase (ur_username u) name) (users d) = Some u" and "ur_enabled u"
    and "HashPassword (argon2 e) (random e n 16) p = Some (Inr hash)" and "\<And>k. \<exists>i. ID (random e k 16) = Inr i" and "audit_events d = []"
  shows "\<exists>x n' d'. RecoverPassword name p e (n, d) = (Inr x, n', d')"
proof -
  obtain i where i: "ID (random e (Suc (Suc (Suc (Suc (Suc (Suc n)))))) 16) = Inr i" using assms(5) by blast
  define t where "t = rfc3339nano (clock e (Suc (Suc (Suc n))))"
  define f :: "user_row \<Rightarrow> user_row" where "f = (\<lambda>x. x\<lparr>ur_password_hash := hash, ur_updated_at := t\<rparr>)"
  define d1 where "d1 = revoke_active (ur_id u) t (update_user (ur_id u) f d)"
  have e: "audit_events d1 = []" using assms(6) by (simp add: d1_def revoke_active_def update_user_def)
  have "ur_id u \<in> ur_id ` set (users d)" using find_SomeD [OF assms(2)] by simp
  moreover have "ur_id ` set (users d1) = ur_id ` set (users d)"
    by (simp add: d1_def revoke_active_def update_user_def image_update_where f_def)
  ultimately obtain v where v: "v \<in> set (users d1)" "ur_id v = ur_id u" by (metis image_iff)
  have "\<exists>n2 a. in_tx (bnd (attempt (query_row (\<lambda>d. find (\<lambda>u. nocase (ur_username u) name) (users d)))) (recovery_tx hash)) e (Suc n, d)
      = (Inr (ur_id u), n2, d1\<lparr>audit_events := [a]\<rparr>)"
    using assms(1-3) i e
    by (simp add: in_tx_def bnd_def attempt_def query_row_def exec_def recovery_tx_def now_def modify_def checked_ID_def checked_def
        insert_audit_def ret_def flip: t_def f_def d1_def) blast
  then obtain n2 a where tx: "in_tx (bnd (attempt (query_row (\<lambda>d. find (\<lambda>u. nocase (ur_username u) name) (users d)))) (recovery_tx hash)) e (Suc n, d)
      = (Inr (ur_id u), n2, d1\<lparr>audit_events := [a]\<rparr>)" by blast
  have "\<exists>x n' d'. GetUser (ur_id u) e (n2, d1\<lparr>audit_events := [a]\<rparr>) = (Inr x, n', d')"
    using GetUser_succeeds [OF assms(1), of v "d1\<lparr>audit_events := [a]\<rparr>" n2] v by simp
  with tx assms(4) show ?thesis unfolding RecoverPassword_split by (simp add: bnd_def hash_password_def)
qed

end
