(* ===== verification/Go_Duration.thy ===== *)
theory Go_Duration
  imports Go_Lib Go_Time
begin

text \<open>
  The text of a duration.  The server writes its idle timeout into the settings with
  \<open>cfg.TerminalIdle.String()\<close> (\<open>src/backend/cmd/server/main.go\<close>) and reads it back with
  \<open>time.ParseDuration\<close> (\<open>terminalIdle\<close> of \<open>server.go\<close>).  This theory has \<open>Duration.String\<close> of Go's
  library and shows that the parser of \<open>Go_Lib\<close> reads back what it writes.
\<close>

section \<open>Duration.String\<close>

text \<open>\<open>fmtFrac\<close>: the text is written from its end; trailing zeros and an empty fraction are left out.\<close>

fun fmtFrac :: "nat \<Rightarrow> nat \<Rightarrow> bool \<Rightarrow> string \<Rightarrow> string \<times> nat" where
  "fmtFrac 0 v print buf = (if print then CHR ''.'' # buf else buf, v)"
| "fmtFrac (Suc i) v print buf =
     (let digit = v mod 10; print = (print \<or> digit \<noteq> 0)
      in fmtFrac i (v div 10) print (if print then char_of (48 + digit) # buf else buf))"

definition fmt_fraction :: "nat \<Rightarrow> nat \<Rightarrow> string \<Rightarrow> string" where
  "fmt_fraction prec u unit = (case fmtFrac prec u False unit of (buf, v) \<Rightarrow> nat_digits v @ buf)"

definition fmt_seconds :: "nat \<Rightarrow> string" where
  "fmt_seconds u = (case fmtFrac 9 u False ''s'' of (buf, u) \<Rightarrow>
     let buf = nat_digits (u mod 60) @ buf; u = u div 60
     in if u = 0 then buf
        else let buf = nat_digits (u mod 60) @ ''m'' @ buf; u = u div 60
             in if u = 0 then buf else nat_digits u @ ''h'' @ buf)"

definition micro :: string where "micro = [CHR 0xC2, CHR 0xB5, CHR ''s'']"

definition duration_String :: "int \<Rightarrow> string" where
  "duration_String d =
     (let u = nat \<bar>d\<bar>;
          text = (if u < 1000000000 then
                    if u = 0 then ''0s''
                    else if u < 1000 then fmt_fraction 0 u ''ns''
                    else if u < 1000000 then fmt_fraction 3 u micro
                    else fmt_fraction 6 u ''ms''
                  else fmt_seconds u)
      in if d < 0 then CHR ''-'' # text else text)"

section \<open>Reading digits\<close>

lemma digits_val_snoc: "digits_val (ds @ [c]) = 10 * digits_val ds + digit_val c"
  by (simp add: digits_val_def)

lemma digits_val_pad: "digits_val (pad k n) = n mod 10 ^ k"
proof (induction k arbitrary: n)
  case (Suc k)
  then show ?case
    by (simp add: digits_val_snoc mod_mult2_eq)
qed (simp add: digits_val_def)

lemma pad_digits: "list_all isDigit (pad k n)"
  by (induction k arbitrary: n) simp_all

text \<open>The value after some more digits is at least the value before, times ten if there is a digit.\<close>

abbreviation read_digits :: "nat \<Rightarrow> string \<Rightarrow> nat" where
  "read_digits x ds \<equiv> foldl (\<lambda>v c. 10 * v + digit_val c) x ds"

lemma read_digits_ge: "x \<le> read_digits x ds"
proof (induction ds arbitrary: x)
  case (Cons c ds)
  have "x \<le> 10 * x + digit_val c" by simp
  also have "\<dots> \<le> read_digits (10 * x + digit_val c) ds" by (rule Cons.IH)
  finally show ?case by simp
qed simp

lemma leadingInt_digits:
  assumes "list_all isDigit ds" and "read_digits x ds \<le> 2 ^ 63" and "\<not> isDigit c"
  shows "leadingInt (ds @ c # t) x = Some (read_digits x ds, c # t)"
  using assms(1,2)
proof (induction ds arbitrary: x)
  case Nil
  with assms(3) show ?case by simp
next
  case (Cons d ds)
  have "10 * x + digit_val d \<le> 2 ^ 63"
    using read_digits_ge [of "10 * x + digit_val d" ds] Cons.prems(2) by simp
  moreover from this have "\<not> 2 ^ 63 div 10 < x" by simp
  ultimately show ?case
    using Cons by (simp add: Let_def mult.commute)
qed

lemma leadingFraction_digits:
  assumes "list_all isDigit ds" and "read_digits x ds \<le> 10 ^ 9" and "\<not> isDigit c"
  shows "leadingFraction (ds @ c # t) x k False = (read_digits x ds, k + length ds, c # t)"
  using assms(1,2)
proof (induction ds arbitrary: x k)
  case Nil
  with assms(3) show ?case by simp
next
  case (Cons d ds)
  have "10 * x + digit_val d \<le> 10 ^ 9"
    using read_digits_ge [of "10 * x + digit_val d" ds] Cons.prems(2) by simp
  moreover from this have "\<not> (2 ^ 63 - 1) div 10 < x" by simp
  ultimately show ?case
    using Cons by (simp add: Let_def mult.commute)
qed

section \<open>Reading a component\<close>

text \<open>A unit and what may follow it.\<close>

definition unit_text :: "string \<Rightarrow> nat \<Rightarrow> string \<Rightarrow> bool" where
  "unit_text u unit rest \<longleftrightarrow> u \<noteq> [] \<and> list_all (\<lambda>c. \<not> number_byte c) u \<and> map_of durationUnits u = Some unit
     \<and> (rest = [] \<or> number_byte (hd rest))"

lemma unit_text_split:
  assumes "unit_text u unit rest"
  shows "takeWhile (\<lambda>c. \<not> number_byte c) (u @ rest) = u" "dropWhile (\<lambda>c. \<not> number_byte c) (u @ rest) = rest"
proof -
  have u: "\<forall>c\<in>set u. \<not> number_byte c" using assms by (simp add: unit_text_def list_all_iff)
  have "takeWhile (\<lambda>c. \<not> number_byte c) rest = []" "dropWhile (\<lambda>c. \<not> number_byte c) rest = rest"
    using assms by (cases rest; simp add: unit_text_def)+
  with u show "takeWhile (\<lambda>c. \<not> number_byte c) (u @ rest) = u" "dropWhile (\<lambda>c. \<not> number_byte c) (u @ rest) = rest"
    by (simp_all add: takeWhile_append2 dropWhile_append2)
qed

lemma unit_pos: "map_of durationUnits u = Some unit \<Longrightarrow> 0 < unit"
  by (simp add: durationUnits_def split: if_splits)

lemma isDigit_nat_digits: "isDigit (hd (nat_digits v))"
  using nat_digits_digits [of v] nat_digits_nonempty [of v] by (cases "nat_digits v") auto

lemma number_byte_nat_digits: "number_byte (hd (nat_digits v))"
  by (simp add: number_byte_def isDigit_nat_digits)

lemma duration_part_whole:
  assumes "unit_text u unit rest" and "v * unit \<le> 2 ^ 63"
  shows "duration_part fmul (nat_digits v @ u @ rest) = Some (v * unit, rest)"
proof -
  from assms(1) obtain c t where u: "u = c # t" "\<not> number_byte c" by (cases u) (auto simp: unit_text_def)
  then have c: "\<not> isDigit c" "c \<noteq> CHR ''.''" by (auto simp: number_byte_def)
  have m: "map_of durationUnits u = Some unit" using assms(1) by (simp add: unit_text_def)
  have "v \<le> v * unit" using unit_pos [OF m] by simp
  with assms(2) have "v \<le> 2 ^ 63" by linarith
  then have "leadingInt (nat_digits v @ u @ rest) 0 = Some (v, u @ rest)"
    using leadingInt_digits [of "nat_digits v" 0 c "t @ rest"] c digits_val_nat_digits [of v]
    by (simp add: u nat_digits_digits flip: digits_val_def)
  moreover have "v \<le> 2 ^ 63 div unit" using assms(2) unit_pos [OF m] by (simp add: less_eq_div_iff_mult_less_eq)
  ultimately show ?thesis
    using unit_text_split [OF assms(1)] m c
    by (simp add: duration_part_def Let_def number_byte_nat_digits u)
qed

lemma duration_part_fraction:
  assumes "unit_text u unit rest" and "0 < f" and "f < 10 ^ k" and "k \<le> 9"
    and "v * unit + fmul f unit k \<le> 2 ^ 63"
  shows "duration_part fmul (nat_digits v @ CHR ''.'' # pad k f @ u @ rest) = Some (v * unit + fmul f unit k, rest)"
proof -
  from assms(1) obtain c t where u: "u = c # t" "\<not> number_byte c" by (cases u) (auto simp: unit_text_def)
  then have c: "\<not> isDigit c" by (auto simp: number_byte_def)
  have m: "map_of durationUnits u = Some unit" using assms(1) by (simp add: unit_text_def)
  have "v \<le> v * unit" using unit_pos [OF m] by simp
  with assms(5) have "v \<le> 2 ^ 63" by linarith
  then have l: "leadingInt (nat_digits v @ CHR ''.'' # pad k f @ u @ rest) 0 = Some (v, CHR ''.'' # pad k f @ u @ rest)"
    using leadingInt_digits [of "nat_digits v" 0 "CHR ''.''" "pad k f @ u @ rest"] digits_val_nat_digits [of v]
    by (simp add: nat_digits_digits flip: digits_val_def)
  have "(10 :: nat) ^ k \<le> 10 ^ 9" using assms(4) by (intro power_increasing) auto
  then have fr: "leadingFraction (pad k f @ u @ rest) 0 0 False = (f, k, u @ rest)"
    using leadingFraction_digits [of "pad k f" 0 c "t @ rest" 0] c digits_val_pad [of k f] assms(3)
    by (simp add: u pad_digits flip: digits_val_def)
  have "v \<le> 2 ^ 63 div unit" using assms(5) unit_pos [OF m] by (simp add: less_eq_div_iff_mult_less_eq)
  moreover have "u \<noteq> []" using u by simp
  moreover have "k \<noteq> 0" using assms(2,3) by (cases k) auto
  ultimately show ?thesis
    using unit_text_split [OF assms(1)] m assms(2,5) \<open>u \<noteq> []\<close>
    by (simp add: duration_part_def Let_def number_byte_nat_digits l fr)
qed

section \<open>The round trip\<close>

lemma pad_mod: "pad i (v mod 10 ^ i) = pad i v"
proof (induction i arbitrary: v)
  case (Suc i)
  have "v mod 10 ^ Suc i div 10 = v div 10 mod 10 ^ i" by (simp add: mod_mult2_eq)
  moreover have "v mod 10 ^ Suc i mod 10 = v mod 10" by (simp add: mod_mult2_eq)
  ultimately show ?case using Suc [of "v div 10"] by simp
qed simp

lemma fmtFrac_print: "fmtFrac i v True buf = (CHR ''.'' # pad i v @ buf, v div 10 ^ i)"
  by (induction i arbitrary: v buf) (simp_all add: Let_def div_mult2_eq)

lemma fmtFrac_text:
  "v mod 10 ^ i = 0 \<and> fmtFrac i v False buf = (buf, v div 10 ^ i)
   \<or> (\<exists>k f. k \<le> i \<and> 0 < f \<and> f < 10 ^ k \<and> v mod 10 ^ i = f * 10 ^ (i - k)
        \<and> fmtFrac i v False buf = (CHR ''.'' # pad k f @ buf, v div 10 ^ i))"
proof (induction i arbitrary: v)
  case (Suc i)
  show ?case
  proof (cases "v mod 10 = 0")
    case True
    have m: "v mod 10 ^ Suc i = v div 10 mod 10 ^ i * 10" using True by (simp add: mod_mult2_eq)
    have d: "v div 10 ^ Suc i = v div 10 div 10 ^ i" by (simp add: div_mult2_eq)
    have t: "fmtFrac (Suc i) v False buf = fmtFrac i (v div 10) False buf" using True by (simp add: Let_def)
    from Suc [of "v div 10"] show ?thesis
    proof (elim disjE exE conjE, goal_cases)
      case 1
      then show ?case unfolding t d m by simp
    next
      case (2 k f)
      then show ?case unfolding t d m by (intro disjI2 exI [of _ k] exI [of _ f]) (simp add: Suc_diff_le)
    qed
  next
    case False
    then have "fmtFrac (Suc i) v False buf = (CHR ''.'' # pad (Suc i) v @ buf, v div 10 ^ Suc i)"
      by (simp add: fmtFrac_print Let_def div_mult2_eq)
    then have "fmtFrac (Suc i) v False buf = (CHR ''.'' # pad (Suc i) (v mod 10 ^ Suc i) @ buf, v div 10 ^ Suc i)"
      by (simp only: pad_mod)
    moreover have "0 < v mod 10 ^ Suc i" using False by (simp add: mod_mult2_eq)
    ultimately show ?thesis
      by (intro disjI2 exI [of _ "Suc i"] exI [of _ "v mod 10 ^ Suc i"]) (simp del: fmtFrac.simps pad.simps power_Suc)
  qed
qed simp

text \<open>Floating-point products are exact while the operands and the result are integers below \<open>2 ^ 53\<close>.\<close>

definition exact_products :: "(nat \<Rightarrow> nat \<Rightarrow> nat \<Rightarrow> nat) \<Rightarrow> bool" where
  "exact_products fmul \<longleftrightarrow> (\<forall>f unit k. 10 ^ k dvd unit \<and> unit < 2 ^ 53 \<and> f * (unit div 10 ^ k) < 2 ^ 53
     \<longrightarrow> fmul f unit k = f * (unit div 10 ^ k))"

lemma ten_power_le: "i \<le> 9 \<Longrightarrow> (10 :: nat) ^ i \<le> 1000000000"
  using power_increasing [of i 9 "10 :: nat"] by simp

lemma duration_part_fmtFrac:
  assumes "exact_products fmul" and "unit_text u (10 ^ i) rest" and "i \<le> 9" and "q * 10 ^ i + v mod 10 ^ i \<le> 2 ^ 63"
  shows "duration_part fmul (nat_digits q @ fst (fmtFrac i v False (u @ rest))) = Some (q * 10 ^ i + v mod 10 ^ i, rest)"
  using fmtFrac_text [of v i "u @ rest"]
proof (elim disjE exE conjE, goal_cases)
  case 1
  then show ?case using duration_part_whole [OF assms(2), of q] assms(4) by simp
next
  case (2 k f)
  have p: "(10 :: nat) ^ i div 10 ^ k = 10 ^ (i - k)" using 2(1) by (simp add: power_diff)
  have "f * 10 ^ (i - k) < 10 ^ i" using 2(4) by (metis mod_less_divisor zero_less_numeral zero_less_power)
  then have "f * 10 ^ (i - k) < 2 ^ 53" "(10 :: nat) ^ i < 2 ^ 53" using ten_power_le [OF assms(3)] by simp_all
  then have "fmul f (10 ^ i) k = f * 10 ^ (i - k)"
    using assms(1) 2(1) unfolding exact_products_def p [symmetric] by (simp add: le_imp_power_dvd)
  then show ?case
    using duration_part_fraction [OF assms(2) 2(2,3), of q fmul] 2 assms(3,4) by simp
qed

lemma duration_sum_step:
  assumes "duration_part fmul s = Some (w, rest)" and "s \<noteq> []" and "d + w \<le> 2 ^ 63"
  shows "duration_sum fmul s d = duration_sum fmul rest (d + w)"
  using assms by (subst duration_sum.simps) (simp add: Let_def)

lemma snd_fmtFrac: "snd (fmtFrac i v False buf) = v div 10 ^ i"
  using fmtFrac_text [of v i buf] by auto

lemma unit_texts:
  "unit_text ''ns'' 1 []" "unit_text micro 1000 []" "unit_text ''ms'' 1000000 []" "unit_text ''s'' 1000000000 []"
  "unit_text ''m'' (60 * 1000000000) (nat_digits v @ s)" "unit_text ''h'' (3600 * 1000000000) (nat_digits v @ s)"
  by (simp_all add: unit_text_def micro_def durationUnits_def number_byte_nat_digits) (simp_all add: number_byte_def)

lemma sum_fraction:
  assumes "exact_products fmul" and "unit_text u (10 ^ i) []" and "i \<le> 9" and "d + (q * 10 ^ i + v mod 10 ^ i) \<le> 2 ^ 63"
  shows "duration_sum fmul (nat_digits q @ fst (fmtFrac i v False u)) d = Some (d + (q * 10 ^ i + v mod 10 ^ i))"
  using duration_sum_step [of fmul "nat_digits q @ fst (fmtFrac i v False u)" _ "[]" d]
    duration_part_fmtFrac [OF assms(1-3), of q v] assms(4) by (simp add: duration_sum.simps)

lemma sum_whole:
  assumes "unit_text u unit rest" and "d + v * unit \<le> 2 ^ 63"
  shows "duration_sum fmul (nat_digits v @ u @ rest) d = duration_sum fmul rest (d + v * unit)"
  using duration_sum_step [OF duration_part_whole [OF assms(1)], of v d fmul] assms(2) by simp

lemma sum_fmt_fraction:
  assumes "exact_products fmul" and "unit_text u (10 ^ i) []" and "i \<le> 9" and "v \<le> 2 ^ 63"
  shows "duration_sum fmul (fmt_fraction i v u) 0 = Some v"
  using sum_fraction [OF assms(1-3), of 0 "v div 10 ^ i" v] assms(4) div_mult_mod_eq [of v "10 ^ i"]
  by (simp add: fmt_fraction_def case_prod_beta snd_fmtFrac)

lemma sum_fmt_seconds:
  assumes "exact_products fmul" and "u \<le> 2 ^ 63"
  shows "duration_sum fmul (fmt_seconds u) 0 = Some u"
proof -
  let ?t = "\<lambda>q. nat_digits q @ fst (fmtFrac 9 u False ''s'')"
  define s where "s = u div 1000000000"
  define m where "m = s div 60"
  have s: "duration_sum fmul (?t q) d = Some (d + (q * 1000000000 + u mod 1000000000))"
    if "d + (q * 1000000000 + u mod 1000000000) \<le> 2 ^ 63" for q d
    using sum_fraction [OF assms(1), of "''s''" 9 d q u] that unit_texts(4) by simp
  have eq: "u = m * 60000000000 + (s mod 60 * 1000000000 + u mod 1000000000)"
  proof -
    have "u = s * 1000000000 + u mod 1000000000" unfolding s_def by simp
    moreover have "s = m * 60 + s mod 60" unfolding m_def by simp
    ultimately show ?thesis by linarith
  qed
  have eq': "m = m div 60 * 60 + m mod 60" by simp
  have shape: "fmt_seconds u = (if m = 0 then ?t (s mod 60) else if m div 60 = 0 then nat_digits (m mod 60) @ ''m'' @ ?t (s mod 60)
      else nat_digits (m div 60) @ ''h'' @ nat_digits (m mod 60) @ ''m'' @ ?t (s mod 60))"
    by (simp add: fmt_seconds_def case_prod_beta snd_fmtFrac Let_def s_def m_def)
  have minutes: "duration_sum fmul (nat_digits (m mod 60) @ ''m'' @ ?t (s mod 60)) d = Some u"
    if "d = m div 60 * 3600000000000" for d
  proof -
    have total: "d + m mod 60 * 60000000000 + (s mod 60 * 1000000000 + u mod 1000000000) = u"
      using that eq eq' by linarith
    then have "d + m mod 60 * 60000000000 \<le> 2 ^ 63" using assms(2) by linarith
    then show ?thesis
      using sum_whole [OF unit_texts(5), of d "m mod 60" fmul "s mod 60" "fst (fmtFrac 9 u False ''s'')"]
        s [of "d + m mod 60 * 60000000000" "s mod 60"] assms(2) by (simp add: total)
  qed
  have hours: "0 + m div 60 * (3600 * 1000000000) \<le> 2 ^ 63"
    using eq eq' assms(2) by linarith
  show ?thesis
    unfolding shape
    using s [of 0 "s mod 60"] minutes [of 0] minutes [of "m div 60 * 3600000000000"] eq assms(2)
      sum_whole [OF unit_texts(6) hours, of fmul "m mod 60" "''m'' @ ?t (s mod 60)"]
    by simp
qed

lemma lone_zero: "duration_part fmul ''0'' = None"
  by (simp add: duration_part_def number_byte_def Let_def digit_val_def)

lemma nat_digits_0: "nat_digits 0 = ''0''"
  by code_simp

lemma parse_unsigned:
  assumes "duration_sum fmul t 0 = Some v" and "t \<noteq> [] \<and> isDigit (hd t)"
  shows "v \<le> 2 ^ 63 - 1 \<Longrightarrow> parseDuration fmul t = Some (int v)" "parseDuration fmul (CHR ''-'' # t) = Some (- int v)"
proof -
  have h: "t \<noteq> []" "hd t \<noteq> CHR ''-''" "hd t \<noteq> CHR ''+''" using assms(2) isDigit_not_sign by auto
  have z: "t \<noteq> ''0''"
    using assms(1) lone_zero [of fmul] by (auto simp: duration_sum.simps [of fmul "''0''"])
  show "v \<le> 2 ^ 63 - 1 \<Longrightarrow> parseDuration fmul t = Some (int v)" "parseDuration fmul (CHR ''-'' # t) = Some (- int v)"
    using assms(1) h z by (simp_all add: parseDuration_def Let_def)
qed

text \<open>
  \<open>time.ParseDuration\<close> reads back every value of a \<open>time.Duration\<close> from the text that \<open>String\<close> prints
  for it, provided that floating-point products that are integers below \<open>2 ^ 53\<close> are exact, as the
  arithmetic of binary64 has it.
\<close>

lemma duration_text_roundtrip:
  assumes "exact_products fmul" and "minInt \<le> d" and "d \<le> maxInt"
  shows "parseDuration fmul (duration_String d) = Some d"
proof -
  define u where "u = nat \<bar>d\<bar>"
  define t where "t = (if u < 1000000000 then if u = 0 then ''0s'' else if u < 1000 then fmt_fraction 0 u ''ns''
    else if u < 1000000 then fmt_fraction 3 u micro else fmt_fraction 6 u ''ms'' else fmt_seconds u)"
  have u: "u \<le> 2 ^ 63" using assms(2,3) by (simp add: u_def minInt_def maxInt_def)
  have zero: "duration_sum fmul ''0s'' 0 = Some 0"
    using sum_whole [OF unit_texts(4), of 0 0 fmul] by (simp add: nat_digits_0) (simp add: duration_sum.simps)
  have "duration_sum fmul t 0 = Some u"
    using zero sum_fmt_fraction [OF assms(1) _ _ u, of "''ns''" 0] sum_fmt_fraction [OF assms(1) _ _ u, of micro 3]
      sum_fmt_fraction [OF assms(1) _ _ u, of "''ms''" 6] sum_fmt_seconds [OF assms(1) u] unit_texts(1-3)
    by (simp add: t_def)
  moreover have "t \<noteq> [] \<and> isDigit (hd t)"
    by (simp add: t_def fmt_fraction_def fmt_seconds_def case_prod_beta Let_def isDigit_nat_digits)
  ultimately have "u \<le> 2 ^ 63 - 1 \<Longrightarrow> parseDuration fmul t = Some (int u)" "parseDuration fmul (CHR ''-'' # t) = Some (- int u)"
    using parse_unsigned by blast+
  moreover have "duration_String d = (if d < 0 then CHR ''-'' # t else t)"
    unfolding duration_String_def Let_def t_def u_def by (rule refl)
  ultimately show ?thesis using assms(3) by (auto simp: u_def maxInt_def)
qed

text \<open>The conversion in exact arithmetic.\<close>

definition exact_fmul :: "nat \<Rightarrow> nat \<Rightarrow> nat \<Rightarrow> nat" where
  "exact_fmul f unit k = f * unit div 10 ^ k"

lemma exact_fmul_exact: "exact_products exact_fmul"
  by (simp add: exact_products_def exact_fmul_def div_mult_swap)

end
