(* ===== verification/Gateway_Service.thy ===== *)
theory Gateway_Service
  imports Go_Lib
begin

text \<open>
  The Docker side of the gateway (\<open>src/backend/internal/gateway/service.go\<close>).

  The Docker client library is a parameter: a record of answers, each a function of the number of
  steps the gateway has taken so far (the engine may answer the same request differently later).
  Every call is also appended to a trace, so that what the gateway asks the engine to do is part of
  its state.  A JSON text is given by the value it parses to, \<^const>\<open>None\<close> if it is not JSON.
\<close>

section \<open>The client library\<close>

datatype docker_call =
    CPing
  | CInfo
  | CContainerList
  | CContainerInspect string
  | CContainerStats string
  | CContainerLogs string int bool
  | CContainerRestart string nat
  | CExecCreate string "string list" bool
  | CExecAttach string bool
  | CExecInspect string
  | CExecResize string nat nat
  | CExecWrite string string

record moby =
  mb_ping :: "nat \<Rightarrow> unit go_result"
  mb_info :: "nat \<Rightarrow> json option go_result"
  mb_list :: "nat \<Rightarrow> json option go_result"
  mb_inspect :: "nat \<Rightarrow> string \<Rightarrow> json option go_result"
  mb_stats :: "nat \<Rightarrow> string \<Rightarrow> string go_result"
  mb_logs :: "nat \<Rightarrow> string \<Rightarrow> int \<Rightarrow> bool \<Rightarrow> string go_result"
  mb_tty :: "nat \<Rightarrow> string \<Rightarrow> bool go_result"
  mb_stdcopy :: "string \<Rightarrow> string"
  mb_restart :: "nat \<Rightarrow> string \<Rightarrow> unit go_result"
  mb_exec_create :: "nat \<Rightarrow> string \<Rightarrow> string list \<Rightarrow> bool \<Rightarrow> string go_result"
  mb_exec_attach :: "nat \<Rightarrow> string \<Rightarrow> bool \<Rightarrow> unit go_result"
  mb_exec_inspect :: "nat \<Rightarrow> string \<Rightarrow> int go_result"
  mb_exec_resize :: "nat \<Rightarrow> string \<Rightarrow> nat \<Rightarrow> nat \<Rightarrow> unit go_result"
  mb_exec_write :: "nat \<Rightarrow> string \<Rightarrow> string \<Rightarrow> unit go_result"

text \<open>The engine side of the gateway's state: the steps taken and the calls made.\<close>

record engine =
  en_step :: nat
  en_calls :: "docker_call list"

type_synonym 'a dock = "engine \<Rightarrow> 'a go_result \<times> engine"

definition docker :: "docker_call \<Rightarrow> (nat \<Rightarrow> 'a go_result) \<Rightarrow> 'a dock" where
  "docker c answer s = (answer (en_step s), s\<lparr>en_step := Suc (en_step s), en_calls := en_calls s @ [c]\<rparr>)"

section \<open>MobyService\<close>

definition Ping :: "moby \<Rightarrow> unit dock" where
  "Ping m = docker CPing (mb_ping m)"

definition Info :: "moby \<Rightarrow> json option dock" where
  "Info m = docker CInfo (mb_info m)"

definition List :: "moby \<Rightarrow> json option dock" where
  "List m = docker CContainerList (mb_list m)"

definition Inspect :: "moby \<Rightarrow> string \<Rightarrow> json option dock" where
  "Inspect m cid = docker (CContainerInspect cid) (\<lambda>n. mb_inspect m n cid)"

definition Stats :: "moby \<Rightarrow> string \<Rightarrow> string dock" where
  "Stats m cid = docker (CContainerStats cid) (\<lambda>n. mb_stats m n cid)"

text \<open>The log stream is passed on as it is for a TTY and demultiplexed otherwise.\<close>

definition Logs :: "moby \<Rightarrow> string \<Rightarrow> int \<Rightarrow> bool \<Rightarrow> string dock" where
  "Logs m cid tail follow s =
     (case docker (CContainerLogs cid tail follow) (\<lambda>n. mb_logs m n cid tail follow) s of
        (Inl err, s) \<Rightarrow> (Inl err, s)
      | (Inr r, s) \<Rightarrow>
          (case docker (CContainerInspect cid) (\<lambda>n. mb_tty m n cid) s of
             (Inr True, s) \<Rightarrow> (Inr r, s)
           | (_, s) \<Rightarrow> (Inr (mb_stdcopy m r), s)))"

definition Restart :: "moby \<Rightarrow> string \<Rightarrow> unit dock" where
  "Restart m cid = docker (CContainerRestart cid 10) (\<lambda>n. mb_restart m n cid)"

definition candidates :: "string list" where
  "candidates = [''/bin/bash'', ''/bin/sh'', ''/bin/ash'']"

text \<open>One turn of the probe loop: does the candidate run in the container?\<close>

definition probe :: "moby \<Rightarrow> string \<Rightarrow> string \<Rightarrow> engine \<Rightarrow> bool \<times> engine" where
  "probe m cid candidate s =
     (case docker (CExecCreate cid [candidate, ''-c'', ''exit 0''] False)
             (\<lambda>n. mb_exec_create m n cid [candidate, ''-c'', ''exit 0''] False) s of
        (Inl _, s) \<Rightarrow> (False, s)
      | (Inr execID, s) \<Rightarrow>
          (case docker (CExecAttach execID False) (\<lambda>n. mb_exec_attach m n execID False) s of
             (Inl _, s) \<Rightarrow> (False, s)
           | (Inr _, s) \<Rightarrow>
               (case docker (CExecInspect execID) (\<lambda>n. mb_exec_inspect m n execID) s of
                  (Inl _, s) \<Rightarrow> (False, s)
                | (Inr exitCode, s) \<Rightarrow> (exitCode = 0, s))))"

fun probe_loop :: "moby \<Rightarrow> string \<Rightarrow> string list \<Rightarrow> engine \<Rightarrow> string option \<times> engine" where
  "probe_loop m cid [] s = (None, s)"
| "probe_loop m cid (c # cs) s = (case probe m cid c s of
       (True, s) \<Rightarrow> (Some c, s)
     | (False, s) \<Rightarrow> probe_loop m cid cs s)"

definition exec_create_tty :: "moby \<Rightarrow> string \<Rightarrow> string \<Rightarrow> (string \<times> string) dock" where
  "exec_create_tty m cid shell s =
     (case docker (CExecCreate cid [shell] True) (\<lambda>n. mb_exec_create m n cid [shell] True) s of
        (Inl err, s) \<Rightarrow> (Inl err, s)
      | (Inr execID, s) \<Rightarrow> (Inr (execID, shell), s))"

definition CreateExec :: "moby \<Rightarrow> string \<Rightarrow> string \<Rightarrow> (string \<times> string) dock" where
  "CreateExec m cid shell s =
     (if shell = ''auto'' then
        (case probe_loop m cid candidates s of
           (None, s) \<Rightarrow> (Inl (ErrNew ''no supported shell found''), s)
         | (Some detected, s) \<Rightarrow> exec_create_tty m cid detected s)
      else exec_create_tty m cid shell s)"

definition AttachExec :: "moby \<Rightarrow> string \<Rightarrow> unit dock" where
  "AttachExec m execID = docker (CExecAttach execID True) (\<lambda>n. mb_exec_attach m n execID True)"

definition ResizeExec :: "moby \<Rightarrow> string \<Rightarrow> nat \<Rightarrow> nat \<Rightarrow> unit dock" where
  "ResizeExec m execID cols rows = docker (CExecResize execID cols rows) (\<lambda>n. mb_exec_resize m n execID cols rows)"

section \<open>Labels\<close>

text \<open>Decode into a \<open>map[string]string\<close>: \<open>null\<close> empties the map, a value that is no string is an error.\<close>

fun decode_entries :: "(string \<times> json) list \<Rightarrow> (string \<rightharpoonup> string) \<Rightarrow> (string \<rightharpoonup> string) option" where
  "decode_entries [] m = Some m"
| "decode_entries ((k, JStr v) # xs) m = decode_entries xs (m(k \<mapsto> v))"
| "decode_entries ((k, JNull) # xs) m = decode_entries xs (m(k \<mapsto> []))"
| "decode_entries ((k, _) # xs) m = None"

definition decode_map :: "json \<Rightarrow> (string \<rightharpoonup> string) \<Rightarrow> (string \<rightharpoonup> string) option" where
  "decode_map v m = (case v of JNull \<Rightarrow> Some Map.empty | JObj xs \<Rightarrow> decode_entries xs m | _ \<Rightarrow> None)"

text \<open>Decode into a struct with one field: \<open>null\<close> changes nothing, other members are ignored.\<close>

fun decode_field :: "string \<Rightarrow> (json \<Rightarrow> 'a \<Rightarrow> 'a option) \<Rightarrow> (string \<times> json) list \<Rightarrow> 'a \<Rightarrow> 'a option" where
  "decode_field name dec [] x = Some x"
| "decode_field name dec ((k, v) # xs) x =
     (if fold_name k = fold_name name
      then (case dec v x of None \<Rightarrow> None | Some y \<Rightarrow> decode_field name dec xs y)
      else decode_field name dec xs x)"

definition decode_struct :: "string \<Rightarrow> (json \<Rightarrow> 'a \<Rightarrow> 'a option) \<Rightarrow> json \<Rightarrow> 'a \<Rightarrow> 'a option" where
  "decode_struct name dec v x = (case v of JNull \<Rightarrow> Some x | JObj xs \<Rightarrow> decode_field name dec xs x | _ \<Rightarrow> None)"

definition labels_of :: "json option \<Rightarrow> (string \<rightharpoonup> string) option" where
  "labels_of raw = (case raw of None \<Rightarrow> None
     | Some v \<Rightarrow> decode_struct ''Config'' (decode_struct ''Labels'' decode_map) v Map.empty)"

definition hasEnabledLabel :: "json option \<Rightarrow> string \<Rightarrow> bool" where
  "hasEnabledLabel raw label = (case labels_of raw of None \<Rightarrow> False
     | Some m \<Rightarrow> equalFold (case m label of None \<Rightarrow> [] | Some v \<Rightarrow> v) ''true'')"

definition IsSystem :: "json option \<Rightarrow> bool" where
  "IsSystem raw = hasEnabledLabel raw ''dockerview.system''"

definition IsProtected :: "json option \<Rightarrow> bool" where
  "IsProtected raw = hasEnabledLabel raw ''dockerview.protected''"

definition ValidateShell :: "string \<Rightarrow> string option" where
  "ValidateShell s =
     (if s = [] \<or> s = ''auto'' then Some ''auto''
      else if s = ''/bin/sh'' \<or> s = ''/bin/bash'' \<or> s = ''/bin/ash'' then Some s else None)"

definition ValidateResize :: "nat \<Rightarrow> nat \<Rightarrow> bool" where
  "ValidateResize cols rows \<longleftrightarrow> cols \<ge> 10 \<and> cols \<le> 500 \<and> rows \<ge> 5 \<and> rows \<le> 300"

section \<open>What the service asks the engine to do\<close>

definition approved_shells :: "string set" where
  "approved_shells = {''/bin/bash'', ''/bin/sh'', ''/bin/ash''}"

text \<open>
  The calls that creating a terminal in the container \<open>cid\<close> may make: run or probe a shell of \<open>S\<close> there and look
  at the outcome of a probe.
\<close>

fun exec_call :: "string \<Rightarrow> string set \<Rightarrow> docker_call \<Rightarrow> bool" where
  "exec_call cid S (CExecCreate c cmd tty) \<longleftrightarrow>
     c = cid \<and> (\<exists>sh\<in>S. cmd = (if tty then [sh] else [sh, ''-c'', ''exit 0'']))"
| "exec_call cid S (CExecAttach execID tty) \<longleftrightarrow> \<not> tty"
| "exec_call cid S (CExecInspect execID) \<longleftrightarrow> True"
| "exec_call cid S _ \<longleftrightarrow> False"

lemma exec_call_mono: "exec_call cid S x \<Longrightarrow> S \<subseteq> S' \<Longrightarrow> exec_call cid S' x"
  by (cases x) auto

lemma probe_calls:
  "\<exists>cs. en_calls (snd (probe m cid c s)) = en_calls s @ cs \<and> (\<forall>x\<in>set cs. exec_call cid {c} x)"
  by (auto simp: probe_def docker_def split: sum.splits prod.splits)

lemma probe_loop_calls:
  "\<exists>xs. en_calls (snd (probe_loop m cid cs s)) = en_calls s @ xs \<and> (\<forall>x\<in>set xs. exec_call cid (set cs) x)"
proof (induction cs arbitrary: s)
  case (Cons c cs)
  obtain b s' where p: "probe m cid c s = (b, s')" by (cases "probe m cid c s")
  obtain ys where ys: "en_calls s' = en_calls s @ ys" "\<forall>x\<in>set ys. exec_call cid {c} x"
    using probe_calls [of m cid c s] p by auto
  obtain xs where xs: "en_calls (snd (probe_loop m cid cs s')) = en_calls s' @ xs" "\<forall>x\<in>set xs. exec_call cid (set cs) x"
    using Cons.IH [of s'] by blast
  show ?case
  proof (cases b)
    case True
    with p ys show ?thesis by (intro exI [of _ ys]) (auto intro: exec_call_mono)
  next
    case False
    with p ys xs show ?thesis by (intro exI [of _ "ys @ xs"]) (auto intro: exec_call_mono)
  qed
qed simp

lemma probe_loop_candidate: "fst (probe_loop m cid cs s) = Some sh \<Longrightarrow> sh \<in> set cs"
  by (induction cs arbitrary: s) (auto split: prod.splits bool.splits)

lemma candidates_approved: "set candidates = approved_shells"
  by (auto simp: candidates_def approved_shells_def)

lemma exec_create_tty_calls:
  "en_calls (snd (exec_create_tty m cid sh s)) = en_calls s @ [CExecCreate cid [sh] True]"
  by (simp add: exec_create_tty_def docker_def split: sum.split)

text \<open>
  Creating a terminal with an approved shell or \<open>auto\<close> runs nothing but approved shells, all of them in the
  given container.
\<close>

lemma CreateExec_calls:
  assumes "shell = ''auto'' \<or> shell \<in> approved_shells"
  shows "\<exists>xs. en_calls (snd (CreateExec m cid shell s)) = en_calls s @ xs \<and> (\<forall>x\<in>set xs. exec_call cid approved_shells x)"
proof (cases "shell = ''auto''")
  case True
  obtain r s' where p: "probe_loop m cid candidates s = (r, s')" by (cases "probe_loop m cid candidates s")
  obtain xs where xs: "en_calls s' = en_calls s @ xs" "\<forall>x\<in>set xs. exec_call cid approved_shells x"
    using probe_loop_calls [of m cid candidates s] p unfolding candidates_approved by auto
  show ?thesis
  proof (cases r)
    case None
    with True p xs show ?thesis by (auto simp: CreateExec_def)
  next
    case (Some sh)
    then have "sh \<in> approved_shells" using probe_loop_candidate [of m cid candidates s sh] p candidates_approved by simp
    with Some True p xs show ?thesis
      by (intro exI [of _ "xs @ [CExecCreate cid [sh] True]"]) (auto simp: CreateExec_def exec_create_tty_calls)
  qed
next
  case False
  with assms show ?thesis by (auto simp: CreateExec_def exec_create_tty_calls)
qed

lemma ValidateShell_approved: "ValidateShell s = Some sh \<Longrightarrow> sh = ''auto'' \<or> sh \<in> approved_shells"
  by (auto simp: ValidateShell_def approved_shells_def split: if_splits)

end
