(* ===== verification/Gateway.thy ===== *)
theory Gateway
  imports Gateway_Service "HOL-Library.AList"
begin

text \<open>
  The request handlers of the gateway (\<open>src/backend/internal/gateway/handler.go\<close>): authentication, the
  guards around restarts and terminals, and the one-time tickets that connect a terminal.

  The router has resolved the request to an operation and its URL parameters; \<open>Serve\<close> applies the
  middleware of the route table and runs the handler.  The body of a request is the list of JSON
  values in it and whether anything else follows them.  The WebSocket library is a parameter: whether
  it refuses the handshake, and the messages the peer sends before the connection ends.
\<close>

section \<open>Requests, responses and state\<close>

record ticket =
  tk_ExecID :: string
  tk_ContainerID :: string
  tk_Expires :: nat
  tk_Used :: bool

record gateway =
  gw_Secret :: string
  gw_tickets :: "(string \<times> ticket) list"
  gw_engine :: engine

record genv =
  ge_docker :: moby
  ge_clock :: "nat \<Rightarrow> nat"
  ge_random :: "nat \<Rightarrow> nat \<Rightarrow> string option"
  ge_parse :: "string \<Rightarrow> json option"

datatype ws_message = WText string | WBinary string | WOther string

record grequest =
  gr_secret :: string
  gr_id :: string
  gr_ticket :: string
  gr_tail :: string
  gr_follow :: string
  gr_body :: body
  gr_origin :: string
  gr_refusal :: "nat option"
  gr_messages :: "ws_message list"

datatype gbody = GProblem string string | GStatus string | GRaw "json option" | GText string | GTicket string string | GUpgraded | GRefused

record gresponse =
  gs_status :: nat
  gs_body :: gbody

datatype groute = RHealth | RReady | RInfo | RList | RInspect | RStats | RLogs | RRestart | RExec | RAttach

definition NewHandler :: "string \<Rightarrow> gateway" where
  "NewHandler secret = \<lparr>gw_Secret = secret, gw_tickets = [], gw_engine = \<lparr>en_step = 0, en_calls = []\<rparr>\<rparr>"

definition problem :: "nat \<Rightarrow> string \<Rightarrow> string \<Rightarrow> gresponse" where
  "problem status code message = \<lparr>gs_status = status, gs_body = GProblem code message\<rparr>"

text \<open>The text of an error, as far as \<open>dockerProblem\<close> looks at it.\<close>

fun error_text :: "go_error \<Rightarrow> string" where
  "error_text (ErrNew m) = m"
| "error_text (ErrQuoted m a) = m @ a"
| "error_text ErrNoRows = ''sql: no rows in result set''"
| "error_text ErrLastAdmin = ''the last enabled administrator cannot be disabled or demoted''"
| "error_text (ErrEngine m) = m"
| "error_text (ErrPanic m) = m"

definition dockerProblem :: "go_error \<Rightarrow> gresponse" where
  "dockerProblem err = (let low = toLower (error_text err) in
     if contains low ''not found'' \<or> contains low ''no such container''
     then problem 404 ''CONTAINER_NOT_FOUND'' ''Container not found''
     else problem 502 ''DOCKER_ERROR'' ''Docker operation failed'')"

text \<open>Run an engine operation or read the clock or the random source inside a handler.\<close>

definition run_docker :: "'a dock \<Rightarrow> gateway \<Rightarrow> 'a go_result \<times> gateway" where
  "run_docker op h = (case op (gw_engine h) of (r, s) \<Rightarrow> (r, h\<lparr>gw_engine := s\<rparr>))"

definition tick :: "(nat \<Rightarrow> 'a) \<Rightarrow> gateway \<Rightarrow> 'a \<times> gateway" where
  "tick f h = (f (en_step (gw_engine h)), h\<lparr>gw_engine := (gw_engine h)\<lparr>en_step := Suc (en_step (gw_engine h))\<rparr>\<rparr>)"

section \<open>Handlers\<close>

definition inspectRaw :: "genv \<Rightarrow> grequest \<Rightarrow> gateway \<Rightarrow> (json option \<times> string) go_result \<times> gateway" where
  "inspectRaw e r h =
     (if \<not> ValidateContainerID (gr_id r) then (Inl (ErrNew ''invalid container''), h)
      else case run_docker (Inspect (ge_docker e) (gr_id r)) h of
          (Inl err, h) \<Rightarrow> (Inl err, h)
        | (Inr raw, h) \<Rightarrow> (Inr (raw, gr_id r), h))"

definition ready :: "genv \<Rightarrow> gateway \<Rightarrow> gresponse \<times> gateway" where
  "ready e h = (case run_docker (Ping (ge_docker e)) h of
       (Inl _, h) \<Rightarrow> (problem 503 ''DOCKER_UNAVAILABLE'' ''Docker Engine unavailable'', h)
     | (Inr _, h) \<Rightarrow> (\<lparr>gs_status = 200, gs_body = GStatus ''ready''\<rparr>, h))"

definition info :: "genv \<Rightarrow> gateway \<Rightarrow> gresponse \<times> gateway" where
  "info e h = (case run_docker (Info (ge_docker e)) h of
       (Inl err, h) \<Rightarrow> (dockerProblem err, h)
     | (Inr raw, h) \<Rightarrow> (\<lparr>gs_status = 200, gs_body = GRaw raw\<rparr>, h))"

definition list_containers :: "genv \<Rightarrow> gateway \<Rightarrow> gresponse \<times> gateway" where
  "list_containers e h = (case run_docker (Gateway_Service.List (ge_docker e)) h of
       (Inl err, h) \<Rightarrow> (dockerProblem err, h)
     | (Inr raw, h) \<Rightarrow> (\<lparr>gs_status = 200, gs_body = GRaw raw\<rparr>, h))"

definition inspect :: "genv \<Rightarrow> grequest \<Rightarrow> gateway \<Rightarrow> gresponse \<times> gateway" where
  "inspect e r h = (case inspectRaw e r h of
       (Inl err, h) \<Rightarrow> (dockerProblem err, h)
     | (Inr (raw, _), h) \<Rightarrow> (\<lparr>gs_status = 200, gs_body = GRaw raw\<rparr>, h))"

definition stats :: "genv \<Rightarrow> grequest \<Rightarrow> gateway \<Rightarrow> gresponse \<times> gateway" where
  "stats e r h = (case inspectRaw e r h of
       (Inl err, h) \<Rightarrow> (dockerProblem err, h)
     | (Inr (_, cid), h) \<Rightarrow>
         (case run_docker (Stats (ge_docker e) cid) h of
            (Inl err, h) \<Rightarrow> (dockerProblem err, h)
          | (Inr text, h) \<Rightarrow> (\<lparr>gs_status = 200, gs_body = GText (take (4 * 1024 * 1024) text)\<rparr>, h)))"

definition logs :: "genv \<Rightarrow> grequest \<Rightarrow> gateway \<Rightarrow> gresponse \<times> gateway" where
  "logs e r h = (case inspectRaw e r h of
       (Inl err, h) \<Rightarrow> (dockerProblem err, h)
     | (Inr (_, cid), h) \<Rightarrow>
         (let tail = ParseBoundedInt (gr_tail r) 500 1 5000; follow = (gr_follow r = ''true'')
          in case run_docker (Logs (ge_docker e) cid tail follow) h of
            (Inl err, h) \<Rightarrow> (dockerProblem err, h)
          | (Inr text, h) \<Rightarrow> (\<lparr>gs_status = 200, gs_body = GText text\<rparr>, h)))"

definition restart :: "genv \<Rightarrow> grequest \<Rightarrow> gateway \<Rightarrow> gresponse \<times> gateway" where
  "restart e r h = (case inspectRaw e r h of
       (Inl err, h) \<Rightarrow> (dockerProblem err, h)
     | (Inr (raw, cid), h) \<Rightarrow>
         if IsSystem raw then (problem 403 ''SYSTEM_CONTAINER'' ''System containers cannot be restarted'', h)
         else if IsProtected raw then (problem 403 ''PROTECTED_CONTAINER'' ''Protected containers cannot be restarted'', h)
         else (case run_docker (Restart (ge_docker e) cid) h of
            (Inl err, h) \<Rightarrow> (dockerProblem err, h)
          | (Inr _, h) \<Rightarrow> (\<lparr>gs_status = 202, gs_body = GStatus ''restarting''\<rparr>, h)))"

text \<open>
  \<open>decode\<close> of \<open>{"shell": ...}\<close>: exactly one JSON value, an object with no other member (or \<open>null\<close>), the
  member a string or \<open>null\<close>.
\<close>

definition decode :: "body \<Rightarrow> string option" where
  "decode b = decode_body (dec_struct [(''shell'', dec_string)]) [] b"

text \<open>\<open>cleanupTickets\<close> reads the clock for every ticket it looks at that is not used.\<close>

fun cleanupTickets :: "(nat \<Rightarrow> nat) \<Rightarrow> nat \<Rightarrow> (string \<times> ticket) list \<Rightarrow> nat \<times> (string \<times> ticket) list" where
  "cleanupTickets clk n [] = (n, [])"
| "cleanupTickets clk n ((k, v) # ts) =
     (if tk_Used v then cleanupTickets clk n ts
      else if clk n > tk_Expires v then cleanupTickets clk (Suc n) ts
      else (case cleanupTickets clk (Suc n) ts of (n', ts') \<Rightarrow> (n', (k, v) # ts')))"

definition cleanup :: "genv \<Rightarrow> gateway \<Rightarrow> gateway" where
  "cleanup e h = (case cleanupTickets (ge_clock e) (en_step (gw_engine h)) (gw_tickets h) of
     (n, ts) \<Rightarrow> h\<lparr>gw_tickets := ts, gw_engine := (gw_engine h)\<lparr>en_step := n\<rparr>\<rparr>)"

definition ticketSeconds :: nat where "ticketSeconds = 30 * 1000000000"

text \<open>The end of \<open>createExec\<close>: draw a token and store the ticket under the mutex.\<close>

definition issue_ticket :: "genv \<Rightarrow> string \<Rightarrow> string \<Rightarrow> string \<Rightarrow> gateway \<Rightarrow> gresponse \<times> gateway" where
  "issue_ticket e cid execID resolvedShell h =
     (case tick (\<lambda>n. case RandomToken (ge_random e n 24) of Inr t \<Rightarrow> t | Inl _ \<Rightarrow> []) h of
       (token, h) \<Rightarrow>
         (case tick (ge_clock e) (cleanup e h) of
           (now, h) \<Rightarrow>
             (\<lparr>gs_status = 201, gs_body = GTicket token resolvedShell\<rparr>,
              h\<lparr>gw_tickets := AList.update token
                  \<lparr>tk_ExecID = execID, tk_ContainerID = cid, tk_Expires = now + ticketSeconds, tk_Used = False\<rparr>
                  (gw_tickets h)\<rparr>)))"

definition createExec :: "genv \<Rightarrow> grequest \<Rightarrow> gateway \<Rightarrow> gresponse \<times> gateway" where
  "createExec e r h = (case inspectRaw e r h of
       (Inl err, h) \<Rightarrow> (dockerProblem err, h)
     | (Inr (raw, cid), h) \<Rightarrow>
         if IsSystem raw then (problem 403 ''SYSTEM_CONTAINER'' ''System containers cannot be accessed with exec'', h)
         else if IsProtected raw then (problem 403 ''PROTECTED_CONTAINER'' ''Protected containers cannot be accessed with exec'', h)
         else (case decode (gr_body r) of
            None \<Rightarrow> (problem 400 ''INVALID_REQUEST'' ''Invalid request'', h)
          | Some wanted \<Rightarrow>
             (case ValidateShell wanted of
                None \<Rightarrow> (problem 400 ''INVALID_SHELL'' ''Only approved interactive shells are allowed'', h)
              | Some shell \<Rightarrow>
                 (case run_docker (CreateExec (ge_docker e) cid shell) h of
                    (Inl err, h) \<Rightarrow> (dockerProblem err, h)
                  | (Inr (execID, resolvedShell), h) \<Rightarrow>
                     issue_ticket e cid execID resolvedShell h))))"

text \<open>The part of \<open>attach\<close> under the mutex: look the ticket up and use it.\<close>

definition take_ticket :: "genv \<Rightarrow> string \<Rightarrow> gateway \<Rightarrow> ticket option \<times> gateway" where
  "take_ticket e token h = (case map_of (gw_tickets h) token of
       None \<Rightarrow> (None, h)
     | Some t \<Rightarrow>
         if tk_Used t then (None, h)
         else (case tick (ge_clock e) h of (now, h) \<Rightarrow>
           if now > tk_Expires t then (None, h)
           else (Some t, h\<lparr>gw_tickets := AList.update token (t\<lparr>tk_Used := True\<rparr>) (gw_tickets h)\<rparr>)))"

text \<open>The control message: a struct with the members \<open>type\<close>, \<open>cols\<close> and \<open>rows\<close>; other members are ignored.\<close>

record control =
  ctl_Type :: string
  ctl_Cols :: nat
  ctl_Rows :: nat

definition decode_uint :: "json \<Rightarrow> nat \<Rightarrow> nat option" where
  "decode_uint v old = (case v of
       JNull \<Rightarrow> Some old
     | JNum t \<Rightarrow> (case parse_digits t of None \<Rightarrow> None | Some n \<Rightarrow> if n < 2 ^ 64 then Some n else None)
     | _ \<Rightarrow> None)"

fun decode_control_fields :: "(string \<times> json) list \<Rightarrow> control \<Rightarrow> control option" where
  "decode_control_fields [] c = Some c"
| "decode_control_fields ((k, v) # xs) c =
     (if fold_name k = ''type'' then
        (case v of JStr s \<Rightarrow> decode_control_fields xs (c\<lparr>ctl_Type := s\<rparr>) | JNull \<Rightarrow> decode_control_fields xs c | _ \<Rightarrow> None)
      else if fold_name k = ''cols'' then
        (case decode_uint v (ctl_Cols c) of None \<Rightarrow> None | Some n \<Rightarrow> decode_control_fields xs (c\<lparr>ctl_Cols := n\<rparr>))
      else if fold_name k = ''rows'' then
        (case decode_uint v (ctl_Rows c) of None \<Rightarrow> None | Some n \<Rightarrow> decode_control_fields xs (c\<lparr>ctl_Rows := n\<rparr>))
      else decode_control_fields xs c)"

definition decode_control :: "genv \<Rightarrow> string \<Rightarrow> control option" where
  "decode_control e msg =
     (let zero = \<lparr>ctl_Type = [], ctl_Cols = 0, ctl_Rows = 0\<rparr> in
      case ge_parse e msg of
        Some (JObj xs) \<Rightarrow> decode_control_fields xs zero
      | Some JNull \<Rightarrow> Some zero
      | _ \<Rightarrow> None)"

definition resize_of :: "genv \<Rightarrow> string \<Rightarrow> control option" where
  "resize_of e msg = (case decode_control e msg of
     Some c \<Rightarrow> if ctl_Type c = ''resize'' then Some c else None | None \<Rightarrow> None)"

definition maxMessage :: nat where "maxMessage = 16 * 1024"

definition write_exec :: "moby \<Rightarrow> string \<Rightarrow> string \<Rightarrow> unit dock" where
  "write_exec m execID msg = docker (CExecWrite execID msg) (\<lambda>n. mb_exec_write m n execID msg)"

text \<open>Pass a message on to the terminal; the flag says whether the loop goes on.\<close>

definition forward :: "genv \<Rightarrow> string \<Rightarrow> string \<Rightarrow> gateway \<Rightarrow> bool \<times> gateway" where
  "forward e execID msg h =
     (if length msg > maxMessage then (False, h)
      else case run_docker (write_exec (ge_docker e) execID msg) h of
          (Inl _, h) \<Rightarrow> (False, h)
        | (Inr _, h) \<Rightarrow> (True, h))"

fun attach_loop :: "genv \<Rightarrow> string \<Rightarrow> ws_message list \<Rightarrow> gateway \<Rightarrow> gateway" where
  "attach_loop e execID [] h = h"
| "attach_loop e execID (WOther msg # ms) h = attach_loop e execID ms h"
| "attach_loop e execID (WText msg # ms) h =
     (case resize_of e msg of
        Some c \<Rightarrow> attach_loop e execID ms
          (if ValidateResize (ctl_Cols c) (ctl_Rows c)
           then snd (run_docker (ResizeExec (ge_docker e) execID (ctl_Cols c) (ctl_Rows c)) h) else h)
      | None \<Rightarrow> (case forward e execID msg h of (go, h) \<Rightarrow> if go then attach_loop e execID ms h else h))"
| "attach_loop e execID (WBinary msg # ms) h =
     (case forward e execID msg h of (go, h) \<Rightarrow> if go then attach_loop e execID ms h else h)"

text \<open>
  The handshake: the library refuses it with a status of its own, or with 403 if the request has an
  \<open>Origin\<close> header (\<open>CheckOrigin\<close>).
\<close>

definition upgrade_refusal :: "grequest \<Rightarrow> nat option" where
  "upgrade_refusal r = (case gr_refusal r of Some st \<Rightarrow> Some st | None \<Rightarrow> if gr_origin r = [] then None else Some 403)"

definition attach :: "genv \<Rightarrow> grequest \<Rightarrow> gateway \<Rightarrow> gresponse \<times> gateway" where
  "attach e r h = (case take_ticket e (gr_ticket r) h of
       (None, h) \<Rightarrow> (problem 404 ''INVALID_TICKET'' ''Terminal ticket is invalid or expired'', h)
     | (Some t, h) \<Rightarrow>
         (case upgrade_refusal r of
            Some st \<Rightarrow> (\<lparr>gs_status = st, gs_body = GRefused\<rparr>, h)
          | None \<Rightarrow>
             (case run_docker (AttachExec (ge_docker e) (tk_ExecID t)) h of
                (Inl _, h) \<Rightarrow> (\<lparr>gs_status = 101, gs_body = GUpgraded\<rparr>, h)
              | (Inr _, h) \<Rightarrow> (\<lparr>gs_status = 101, gs_body = GUpgraded\<rparr>, attach_loop e (tk_ExecID t) (gr_messages r) h))))"

section \<open>The router\<close>

definition auth :: "(gateway \<Rightarrow> gresponse \<times> gateway) \<Rightarrow> grequest \<Rightarrow> gateway \<Rightarrow> gresponse \<times> gateway" where
  "auth next r h =
     (if \<not> ConstantTimeSecret (gw_Secret h) (gr_secret r)
      then (problem 401 ''UNAUTHORIZED'' ''Invalid gateway credentials'', h) else next h)"

definition Serve :: "genv \<Rightarrow> groute \<Rightarrow> grequest \<Rightarrow> gateway \<Rightarrow> gresponse \<times> gateway" where
  "Serve e route r h = (case route of
       RHealth \<Rightarrow> (\<lparr>gs_status = 200, gs_body = GStatus ''ok''\<rparr>, h)
     | RReady \<Rightarrow> ready e h
     | RInfo \<Rightarrow> auth (info e) r h
     | RList \<Rightarrow> auth (list_containers e) r h
     | RInspect \<Rightarrow> auth (inspect e r) r h
     | RStats \<Rightarrow> auth (stats e r) r h
     | RLogs \<Rightarrow> auth (logs e r) r h
     | RRestart \<Rightarrow> auth (restart e r) r h
     | RExec \<Rightarrow> auth (createExec e r) r h
     | RAttach \<Rightarrow> auth (attach e r) r h)"

section \<open>Authentication\<close>

lemma ConstantTimeSecret_iff: "ConstantTimeSecret expected actual \<longleftrightarrow> actual = expected \<and> 32 \<le> length expected"
  by (auto simp: ConstantTimeSecret_def constantTimeCompare_iff)

text \<open>
  A request to anything but the two probes that does not carry the gateway's secret, or any such
  request if the secret is shorter than 32 bytes, is answered with 401 and changes nothing: no call
  reaches Docker and no ticket is touched.
\<close>

lemma gateway_requires_secret:
  assumes "route \<noteq> RHealth" and "route \<noteq> RReady" and "gr_secret r \<noteq> gw_Secret h \<or> length (gw_Secret h) < 32"
  shows "Serve e route r h = (problem 401 ''UNAUTHORIZED'' ''Invalid gateway credentials'', h)"
  using assms by (cases route) (auto simp: Serve_def auth_def ConstantTimeSecret_iff)

section \<open>What reaches the engine\<close>

abbreviation calls :: "gateway \<Rightarrow> docker_call list" where
  "calls h \<equiv> en_calls (gw_engine h)"

text \<open>Calls that act on a container rather than read from it.\<close>

fun acts_on :: "docker_call \<Rightarrow> string option" where
  "acts_on (CContainerRestart cid _) = Some cid"
| "acts_on (CExecCreate cid _ _) = Some cid"
| "acts_on _ = None"

fun bounded_call :: "docker_call \<Rightarrow> bool" where
  "bounded_call (CExecResize execID cols rows) \<longleftrightarrow> ValidateResize cols rows"
| "bounded_call (CExecWrite execID msg) \<longleftrightarrow> length msg \<le> maxMessage"
| "bounded_call (CContainerLogs cid tail follow) \<longleftrightarrow> 1 \<le> tail \<and> tail \<le> 5000"
| "bounded_call _ \<longleftrightarrow> True"

text \<open>A process is created for an approved shell, or to probe for one.\<close>

fun approved_call :: "docker_call \<Rightarrow> bool" where
  "approved_call (CExecCreate cid cmd tty) \<longleftrightarrow> (\<exists>sh\<in>approved_shells. cmd = (if tty then [sh] else [sh, ''-c'', ''exit 0'']))"
| "approved_call _ \<longleftrightarrow> True"

text \<open>
  A call made while serving \<open>r\<close> in state \<open>h\<close>: if it acts on a container, this is the one the request names,
  its identifier is valid and the inspection at the start of the request shows neither label.
\<close>

definition guarded_call :: "genv \<Rightarrow> grequest \<Rightarrow> gateway \<Rightarrow> docker_call \<Rightarrow> bool" where
  "guarded_call e r h c \<longleftrightarrow> approved_call c \<and> bounded_call c \<and>
     (\<forall>cid. acts_on c = Some cid \<longrightarrow> cid = gr_id r \<and> ValidateContainerID cid
        \<and> (\<exists>raw. mb_inspect (ge_docker e) (en_step (gw_engine h)) cid = Inr raw \<and> \<not> IsSystem raw \<and> \<not> IsProtected raw))"

definition only_calls :: "(docker_call \<Rightarrow> bool) \<Rightarrow> gateway \<Rightarrow> gateway \<Rightarrow> bool" where
  "only_calls ok h h' \<longleftrightarrow> (\<exists>cs. calls h' = calls h @ cs \<and> (\<forall>c\<in>set cs. ok c))"

lemma only_calls_refl [simp]: "only_calls ok h h"
  by (simp add: only_calls_def)

lemma only_calls_trans: "only_calls ok h h' \<Longrightarrow> only_calls ok h' h'' \<Longrightarrow> only_calls ok h h''"
  by (auto simp: only_calls_def)

lemma only_calls_tickets [simp]: "only_calls ok h (h'\<lparr>gw_tickets := ts\<rparr>) \<longleftrightarrow> only_calls ok h h'"
  by (simp add: only_calls_def)

lemma only_calls_tick [simp]: "only_calls ok h (snd (tick f h))"
  by (simp add: only_calls_def tick_def)

lemma only_calls_cleanup [simp]: "only_calls ok h (cleanup e h)"
  by (simp add: only_calls_def cleanup_def split: prod.split)

lemma only_calls_docker: "ok c \<Longrightarrow> only_calls ok h (snd (run_docker (docker c f) h))"
  by (simp add: only_calls_def run_docker_def docker_def)

lemma run_docker_step: "only_calls ok h (snd (run_docker op h)) \<Longrightarrow> run_docker op h = (x, h') \<Longrightarrow> only_calls ok h h'"
  by simp

lemma ParseBoundedInt_bounds: "lo \<le> fallback \<Longrightarrow> fallback \<le> hi \<Longrightarrow> lo \<le> ParseBoundedInt raw fallback lo hi \<and> ParseBoundedInt raw fallback lo hi \<le> hi"
  by (auto simp: ParseBoundedInt_def split: option.split)

lemma guarded_simple:
  "guarded_call e r h CPing" "guarded_call e r h CInfo" "guarded_call e r h CContainerList"
  "guarded_call e r h (CContainerInspect cid)" "guarded_call e r h (CContainerStats cid)"
  "guarded_call e r h (CExecAttach execID tty)" "guarded_call e r h (CExecInspect execID)"
  by (simp_all add: guarded_call_def)

lemma attach_loop_calls: "only_calls (guarded_call e r h0) h (attach_loop e execID ms h)"
proof (induction e execID ms h rule: attach_loop.induct)
  case (3 e execID msg ms h)
  show ?case
  proof (cases "resize_of e msg")
    case None
    obtain go h' where f: "forward e execID msg h = (go, h')" by (cases "forward e execID msg h")
    then have "only_calls (guarded_call e r h0) h h'"
      by (auto simp: forward_def write_exec_def guarded_call_def only_calls_docker split: if_splits prod.splits sum.splits
          elim!: run_docker_step [rotated])
    with 3 None f show ?thesis by (auto intro: only_calls_trans)
  next
    case (Some c)
    let ?h = "if ValidateResize (ctl_Cols c) (ctl_Rows c)
      then snd (run_docker (ResizeExec (ge_docker e) execID (ctl_Cols c) (ctl_Rows c)) h) else h"
    have "only_calls (guarded_call e r h0) h ?h"
      by (simp add: ResizeExec_def only_calls_docker guarded_call_def)
    with 3 Some show ?thesis by (auto intro: only_calls_trans)
  qed
next
  case (4 e execID msg ms h)
  obtain go h' where f: "forward e execID msg h = (go, h')" by (cases "forward e execID msg h")
  then have "only_calls (guarded_call e r h0) h h'"
    by (auto simp: forward_def write_exec_def guarded_call_def only_calls_docker split: if_splits prod.splits sum.splits
        elim!: run_docker_step [rotated])
  with 4 f show ?case by (auto intro: only_calls_trans)
qed simp_all

lemma inspectRaw_cases:
  obtains (invalid) err where "inspectRaw e r h = (Inl err, h)"
  | (failed) err h' where "inspectRaw e r h = (Inl err, h')" "only_calls (guarded_call e r h0) h h'" "gw_tickets h' = gw_tickets h"
  | (found) raw h' where "inspectRaw e r h = (Inr (raw, gr_id r), h')" "only_calls (guarded_call e r h0) h h'"
      "gw_tickets h' = gw_tickets h" "ValidateContainerID (gr_id r)"
      "mb_inspect (ge_docker e) (en_step (gw_engine h)) (gr_id r) = Inr raw"
proof (cases "ValidateContainerID (gr_id r)")
  case False
  then show ?thesis by (intro invalid) (simp add: inspectRaw_def)
next
  case True
  let ?h = "snd (run_docker (Inspect (ge_docker e) (gr_id r)) h)"
  have c: "only_calls (guarded_call e r h0) h ?h"
    by (simp add: Inspect_def only_calls_docker guarded_simple)
  have t: "gw_tickets ?h = gw_tickets h" by (simp add: Inspect_def run_docker_def docker_def)
  show ?thesis
  proof (cases "mb_inspect (ge_docker e) (en_step (gw_engine h)) (gr_id r)")
    case (Inl err)
    with True show ?thesis
      by (intro failed [OF _ c t]) (simp add: inspectRaw_def run_docker_def Inspect_def docker_def)
  next
    case (Inr raw)
    with True show ?thesis
      by (intro found [OF _ c t]) (simp_all add: inspectRaw_def run_docker_def Inspect_def docker_def)
  qed
qed

text \<open>The calls that a reading handler makes after the inspection.\<close>

lemma Stats_calls: "only_calls (guarded_call e r h0) h (snd (run_docker (Stats m cid) h))"
  by (simp add: Stats_def only_calls_docker guarded_simple)

lemma Logs_calls:
  assumes "1 \<le> tail" and "tail \<le> 5000"
  shows "only_calls (guarded_call e r h0) h (snd (run_docker (Logs m cid tail follow) h))"
proof -
  have "\<exists>cs. en_calls (snd (Logs m cid tail follow s)) = en_calls s @ cs \<and> (\<forall>c\<in>set cs. guarded_call e r h0 c)" for s
    using assms by (auto simp: Logs_def docker_def guarded_call_def split: sum.split prod.split bool.split)
  then show ?thesis by (auto simp: only_calls_def run_docker_def split: prod.split) (metis snd_conv)
qed

lemma Restart_calls:
  assumes "guarded_call e r h0 (CContainerRestart cid 10)"
  shows "only_calls (guarded_call e r h0) h (snd (run_docker (Restart m cid) h))"
  using assms by (simp add: Restart_def only_calls_docker)

lemma CreateExec_acts:
  assumes "shell = ''auto'' \<or> shell \<in> approved_shells"
    and "cid = gr_id r" "ValidateContainerID cid"
    and "mb_inspect (ge_docker e) (en_step (gw_engine h0)) cid = Inr raw" "\<not> IsSystem raw" "\<not> IsProtected raw"
  shows "only_calls (guarded_call e r h0) h (snd (run_docker (CreateExec m cid shell) h))"
proof -
  obtain xs where xs: "en_calls (snd (CreateExec m cid shell (gw_engine h))) = calls h @ xs"
    "\<forall>x\<in>set xs. exec_call cid approved_shells x"
    using CreateExec_calls [OF assms(1), of m cid "gw_engine h"] by blast
  have "guarded_call e r h0 x" if "x \<in> set xs" for x
    using bspec [OF xs(2) that] assms(2-) by (cases x) (simp_all add: guarded_call_def)
  with xs(1) show ?thesis by (auto simp: only_calls_def run_docker_def split: prod.split)
qed

text \<open>Every handler makes guarded calls only.\<close>

definition guarded :: "genv \<Rightarrow> grequest \<Rightarrow> (gateway \<Rightarrow> gresponse \<times> gateway) \<Rightarrow> gateway \<Rightarrow> bool" where
  "guarded e r handler h \<longleftrightarrow> only_calls (guarded_call e r h) h (snd (handler h))"

lemma run_docker_guarded:
  assumes "only_calls ok h0 h" and "only_calls ok h (snd (run_docker op h))"
    and "\<And>err h'. run_docker op h = (Inl err, h') \<Longrightarrow> only_calls ok h0 h' \<Longrightarrow> only_calls ok h0 (snd (f err h'))"
    and "\<And>x h'. run_docker op h = (Inr x, h') \<Longrightarrow> only_calls ok h0 h' \<Longrightarrow> only_calls ok h0 (snd (g x h'))"
  shows "only_calls ok h0 (snd (case run_docker op h of (Inl err, h) \<Rightarrow> f err h | (Inr x, h) \<Rightarrow> g x h))"
proof -
  obtain v h' where v: "run_docker op h = (v, h')" by (cases "run_docker op h")
  then have "only_calls ok h0 h'" using assms(1,2) only_calls_trans by (metis snd_conv)
  with v assms(3,4) show ?thesis by (cases v) auto
qed

lemma guarded_ready: "guarded e r (ready e) h"
  unfolding guarded_def ready_def
  by (rule run_docker_guarded) (simp_all add: Ping_def only_calls_docker guarded_simple)

lemma guarded_info: "guarded e r (info e) h" "guarded e r (list_containers e) h"
  unfolding guarded_def info_def list_containers_def
  by (rule run_docker_guarded; simp add: Info_def List_def only_calls_docker guarded_simple)+

lemma guarded_inspect: "guarded e r (inspect e r) h"
  unfolding guarded_def inspect_def by (cases rule: inspectRaw_cases [where e = e and r = r and h = h and ?h0.0 = h]) simp_all

lemma guarded_stats: "guarded e r (stats e r) h"
  unfolding guarded_def stats_def
  by (cases rule: inspectRaw_cases [where e = e and r = r and h = h and ?h0.0 = h]) (simp_all, rule run_docker_guarded, simp_all add: Stats_calls)

lemma guarded_logs: "guarded e r (logs e r) h"
proof (cases rule: inspectRaw_cases [where e = e and r = r and h = h and ?h0.0 = h])
  case (found raw h')
  have "1 \<le> ParseBoundedInt (gr_tail r) 500 1 5000 \<and> ParseBoundedInt (gr_tail r) 500 1 5000 \<le> 5000"
    by (rule ParseBoundedInt_bounds) simp_all
  with found show ?thesis unfolding guarded_def logs_def Let_def
    by (simp, intro run_docker_guarded) (simp_all add: Logs_calls)
qed (simp_all add: guarded_def logs_def)

lemma guarded_restart: "guarded e r (restart e r) h"
proof (cases rule: inspectRaw_cases [where e = e and r = r and h = h and ?h0.0 = h])
  case (found raw h')
  show ?thesis
  proof (cases "IsSystem raw \<or> IsProtected raw")
    case True
    with found show ?thesis by (auto simp: guarded_def restart_def)
  next
    case False
    with found have "guarded_call e r h (CContainerRestart (gr_id r) 10)" by (simp add: guarded_call_def)
    with False found show ?thesis unfolding guarded_def restart_def
      by (simp, intro run_docker_guarded) (simp_all add: Restart_calls)
  qed
qed (simp_all add: guarded_def restart_def)

lemma only_calls_after_tick: "only_calls ok h h' \<Longrightarrow> only_calls ok h (snd (tick f h'))"
  using only_calls_trans only_calls_tick by blast

lemma only_calls_after_cleanup: "only_calls ok h h' \<Longrightarrow> only_calls ok h (cleanup e h')"
  using only_calls_trans only_calls_cleanup by blast

lemma only_calls_issue: "only_calls ok h h' \<Longrightarrow> only_calls ok h (snd (issue_ticket e cid execID sh h'))"
  by (auto simp: issue_ticket_def case_prod_beta intro!: only_calls_after_tick only_calls_after_cleanup)

lemma guarded_createExec: "guarded e r (createExec e r) h"
proof (cases rule: inspectRaw_cases [where e = e and r = r and h = h and ?h0.0 = h])
  case (found raw h')
  show ?thesis
  proof (cases "IsSystem raw \<or> IsProtected raw \<or> decode (gr_body r) = None")
    case True
    with found show ?thesis by (auto simp: guarded_def createExec_def split: option.split)
  next
    case False
    then obtain wanted where w: "decode (gr_body r) = Some wanted" by auto
    show ?thesis
    proof (cases "ValidateShell wanted")
      case None
      with False found w show ?thesis by (simp add: guarded_def createExec_def)
    next
      case (Some shell)
      have "only_calls (guarded_call e r h) h' (snd (run_docker (CreateExec (ge_docker e) (gr_id r) shell) h'))"
        using CreateExec_acts [OF ValidateShell_approved [OF Some]] found False by blast
      with False found w Some show ?thesis unfolding guarded_def createExec_def
        by (simp, intro run_docker_guarded)
          (auto intro!: only_calls_issue)
    qed
  qed
qed (simp_all add: guarded_def createExec_def)

lemma take_ticket_calls: "only_calls ok h (snd (take_ticket e token h))"
  using only_calls_tick [of ok h "ge_clock e"]
  by (auto simp: take_ticket_def case_prod_beta split: option.split)

lemma guarded_attach: "guarded e r (attach e r) h"
proof -
  obtain t h' where t: "take_ticket e (gr_ticket r) h = (t, h')" by (cases "take_ticket e (gr_ticket r) h")
  have h': "only_calls (guarded_call e r h) h h'" using take_ticket_calls t by (metis snd_conv)
  show ?thesis
  proof (cases t)
    case None
    with t h' show ?thesis by (simp add: guarded_def attach_def)
  next
    case (Some tk)
    show ?thesis
    proof (cases "upgrade_refusal r")
      case None
      with t Some h' show ?thesis unfolding guarded_def attach_def
        by (simp, intro run_docker_guarded)
          (auto simp: AttachExec_def only_calls_docker guarded_simple intro: only_calls_trans attach_loop_calls)
    next
      case (Some st)
      with t \<open>t = Some tk\<close> h' show ?thesis by (simp add: guarded_def attach_def)
    qed
  qed
qed

lemmas guarded_handlers = guarded_ready guarded_info guarded_inspect guarded_stats guarded_logs guarded_restart
  guarded_createExec guarded_attach

text \<open>
  C6: every call that serving a request makes to Docker is guarded.  A restart or the creation of a
  process concerns the container that the request names, under a valid identifier, and the inspection
  made at the start of the same request carries neither the system nor the protected label; a created
  process is an approved interactive shell or the probe for one; a log request asks for 1 to 5000
  lines, a resize stays within 10 to 500 columns and 5 to 300 rows and a write within 16 KiB.
\<close>

theorem gateway_guards_docker:
  "\<exists>cs. en_calls (gw_engine (snd (Serve e route r h))) = en_calls (gw_engine h) @ cs \<and> list_all (guarded_call e r h) cs"
proof -
  have "only_calls (guarded_call e r h) h (snd (Serve e route r h))"
    using guarded_handlers [of e r h, unfolded guarded_def]
    by (cases route) (simp_all add: Serve_def auth_def)
  then show ?thesis by (simp add: only_calls_def list_all_iff)
qed

section \<open>Tickets\<close>

definition wf_gateway :: "gateway \<Rightarrow> bool" where
  "wf_gateway h \<longleftrightarrow> distinct (map fst (gw_tickets h))"

text \<open>What holds of the ticket under a token, if there is one, and stays true when the ticket is used.\<close>

definition ticket_sat :: "string \<Rightarrow> (ticket \<Rightarrow> bool) \<Rightarrow> gateway \<Rightarrow> bool" where
  "ticket_sat token P h \<longleftrightarrow> (case map_of (gw_tickets h) token of None \<Rightarrow> True | Some t \<Rightarrow> P t)"

definition use_stable :: "(ticket \<Rightarrow> bool) \<Rightarrow> bool" where
  "use_stable P \<longleftrightarrow> (\<forall>t. P t \<longrightarrow> P (t\<lparr>tk_Used := True\<rparr>))"

lemma cleanupTickets_sub:
  "distinct (map fst ts) \<Longrightarrow> distinct (map fst (snd (cleanupTickets clk n ts)))
    \<and> fst ` set (snd (cleanupTickets clk n ts)) \<subseteq> fst ` set ts
    \<and> map_of (snd (cleanupTickets clk n ts)) token \<in> {None, map_of ts token}"
proof (induction clk n ts rule: cleanupTickets.induct)
  case (2 clk n k v ts)
  have none: "map_of ts k = None" using 2(4) by (simp add: map_of_eq_None_iff)
  consider "tk_Used v" | "\<not> tk_Used v" "clk n > tk_Expires v" | "\<not> tk_Used v" "\<not> clk n > tk_Expires v" by blast
  then show ?case
    using 2 none by cases (auto simp: case_prod_beta)
qed simp

lemma cleanup_tickets:
  assumes "wf_gateway h"
  shows "wf_gateway (cleanup e h) \<and> map_of (gw_tickets (cleanup e h)) token \<in> {None, map_of (gw_tickets h) token}"
  using cleanupTickets_sub [of "gw_tickets h" "ge_clock e" "en_step (gw_engine h)" token] assms
  by (auto simp: wf_gateway_def cleanup_def split: prod.split)

lemma same_tickets [simp]:
  "gw_tickets (snd (run_docker op h)) = gw_tickets h" "gw_tickets (snd (tick f h)) = gw_tickets h"
  by (simp_all add: run_docker_def tick_def split: prod.split)

lemma run_docker_tickets: "run_docker op h = (x, h') \<Longrightarrow> gw_tickets h' = gw_tickets h"
  by (metis same_tickets(1) snd_conv)

lemma inspectRaw_tickets: "inspectRaw e r h = (x, h') \<Longrightarrow> gw_tickets h' = gw_tickets h"
  by (auto simp: inspectRaw_def split: if_splits prod.splits sum.splits dest: run_docker_tickets)

lemma attach_loop_tickets: "gw_tickets (attach_loop e execID ms h) = gw_tickets h"
  by (induction e execID ms h rule: attach_loop.induct)
    (auto simp: forward_def split: option.splits prod.splits if_splits sum.splits dest: run_docker_tickets)

text \<open>The handlers that leave the tickets alone.\<close>

lemma readers_tickets:
  "gw_tickets (snd (ready e h)) = gw_tickets h" "gw_tickets (snd (info e h)) = gw_tickets h"
  "gw_tickets (snd (list_containers e h)) = gw_tickets h" "gw_tickets (snd (inspect e r h)) = gw_tickets h"
  "gw_tickets (snd (stats e r h)) = gw_tickets h" "gw_tickets (snd (logs e r h)) = gw_tickets h"
  "gw_tickets (snd (restart e r h)) = gw_tickets h"
  by (auto simp: ready_def info_def list_containers_def inspect_def stats_def logs_def restart_def Let_def
      split: prod.splits sum.splits dest!: run_docker_tickets inspectRaw_tickets)

lemma issue_ticket_stores:
  assumes "issue_ticket e cid execID sh h = (resp, h')"
  obtains token h1 where "gw_tickets h1 = gw_tickets h" "resp = \<lparr>gs_status = 201, gs_body = GTicket token sh\<rparr>"
    "gw_tickets h' = AList.update token \<lparr>tk_ExecID = execID, tk_ContainerID = cid,
       tk_Expires = ge_clock e (en_step (gw_engine h') - 1) + ticketSeconds, tk_Used = False\<rparr> (gw_tickets (cleanup e h1))"
proof -
  let ?draw = "tick (\<lambda>n. case RandomToken (ge_random e n 24) of Inr t \<Rightarrow> t | Inl _ \<Rightarrow> []) h"
  show ?thesis
    by (rule that [of "snd ?draw" "fst ?draw"]) (use assms in \<open>auto simp: issue_ticket_def tick_def\<close>)
qed

text \<open>Either the request was refused and the tickets are as before, or a ticket was issued.\<close>

lemma createExec_cases:
  assumes "createExec e r h = (resp, h')"
  obtains (refused) "gw_tickets h' = gw_tickets h" "\<And>token sh. gs_body resp \<noteq> GTicket token sh"
  | (issued) h1 execID sh where "gw_tickets h1 = gw_tickets h" "issue_ticket e (gr_id r) execID sh h1 = (resp, h')"
  using assms
  by (auto simp: createExec_def problem_def dockerProblem_def inspectRaw_def Let_def
      split: prod.splits sum.splits option.splits if_splits dest!: run_docker_tickets)

lemma createExec_tickets:
  assumes "wf_gateway h" and "createExec e r h = (resp, h')"
  shows "wf_gateway h' \<and> (map_of (gw_tickets h') token \<in> {None, map_of (gw_tickets h) token}
    \<or> (\<exists>sh. gs_body resp = GTicket token sh))"
  using assms(2)
proof (cases rule: createExec_cases)
  case refused
  with assms(1) show ?thesis by (simp add: wf_gateway_def)
next
  case (issued h1 execID sh)
  from issued(2) obtain tok h2 t where h2: "gw_tickets h2 = gw_tickets h1" "gs_body resp = GTicket tok sh"
    "gw_tickets h' = AList.update tok t (gw_tickets (cleanup e h2))"
    by (rule issue_ticket_stores) simp
  have "wf_gateway h2" using assms(1) h2(1) issued(1) by (simp add: wf_gateway_def)
  from cleanup_tickets [OF this, of e token] h2 issued(1) show ?thesis
    by (auto simp: wf_gateway_def distinct_update update_conv')
qed

lemma take_ticket_Some:
  assumes "take_ticket e token h = (Some t, h')"
  shows "map_of (gw_tickets h) token = Some t \<and> \<not> tk_Used t \<and> ge_clock e (en_step (gw_engine h)) \<le> tk_Expires t
    \<and> gw_tickets h' = AList.update token (t\<lparr>tk_Used := True\<rparr>) (gw_tickets h)"
  using assms by (auto simp: take_ticket_def tick_def split: option.splits if_splits)

lemma take_ticket_None: "take_ticket e token h = (None, h') \<Longrightarrow> gw_tickets h' = gw_tickets h"
  by (auto simp: take_ticket_def tick_def split: option.splits if_splits)

lemma attach_tickets:
  "gw_tickets (snd (attach e r h)) = gw_tickets (snd (take_ticket e (gr_ticket r) h))"
  by (auto simp: attach_def attach_loop_tickets split: prod.splits sum.splits option.splits dest!: run_docker_tickets)

lemma attach_sat:
  assumes "wf_gateway h" and "use_stable P"
  shows "wf_gateway (snd (attach e r h)) \<and> (ticket_sat token P h \<longrightarrow> ticket_sat token P (snd (attach e r h)))"
proof -
  obtain t h' where t: "take_ticket e (gr_ticket r) h = (t, h')" by (cases "take_ticket e (gr_ticket r) h")
  show ?thesis
  proof (cases t)
    case None
    with t take_ticket_None [of e "gr_ticket r" h h'] assms(1) show ?thesis
      by (simp add: wf_gateway_def ticket_sat_def attach_tickets)
  next
    case (Some tk)
    have m: "map_of (gw_tickets h) (gr_ticket r) = Some tk"
      and u: "gw_tickets (snd (attach e r h)) = AList.update (gr_ticket r) (tk\<lparr>tk_Used := True\<rparr>) (gw_tickets h)"
      using t take_ticket_Some [of e "gr_ticket r" h tk h'] Some by (simp_all add: attach_tickets)
    have "ticket_sat token P (snd (attach e r h))" if "ticket_sat token P h"
      using that m assms(2) by (cases "token = gr_ticket r") (simp_all add: ticket_sat_def use_stable_def u update_conv')
    with assms(1) show ?thesis by (simp add: wf_gateway_def u distinct_update)
  qed
qed

text \<open>Serving a request keeps such a property unless the request issues a ticket under the token.\<close>

lemma Serve_sat:
  assumes "wf_gateway h" and "use_stable P"
  shows "wf_gateway (snd (Serve e route r h)) \<and>
    (ticket_sat token P h \<and> (\<forall>sh. gs_body (fst (Serve e route r h)) \<noteq> GTicket token sh) \<longrightarrow>
      ticket_sat token P (snd (Serve e route r h)))"
proof (cases route)
  case RExec
  show ?thesis
    using createExec_tickets [OF assms(1), of e r "fst (createExec e r h)" "snd (createExec e r h)" token] assms(1) RExec
    by (auto simp: Serve_def auth_def ticket_sat_def split: option.splits)
next
  case RAttach
  with attach_sat [OF assms, of e r token] assms(1) show ?thesis by (auto simp: Serve_def auth_def)
qed (use assms in \<open>simp_all add: Serve_def auth_def wf_gateway_def ticket_sat_def readers_tickets\<close>)

text \<open>A sequence of requests with their responses.\<close>

fun serve_all :: "genv \<Rightarrow> (groute \<times> grequest) list \<Rightarrow> gateway \<Rightarrow> gresponse list \<times> gateway" where
  "serve_all e [] h = ([], h)"
| "serve_all e ((route, r) # rs) h = (case Serve e route r h of (resp, h) \<Rightarrow>
     (case serve_all e rs h of (resps, h) \<Rightarrow> (resp # resps, h)))"

text \<open>None of the requests happens to be given the token for a new ticket.\<close>

definition not_reissued :: "genv \<Rightarrow> string \<Rightarrow> (groute \<times> grequest) list \<Rightarrow> gateway \<Rightarrow> bool" where
  "not_reissued e token rs h \<longleftrightarrow> list_all (\<lambda>resp. case gs_body resp of GTicket t _ \<Rightarrow> t \<noteq> token | _ \<Rightarrow> True) (fst (serve_all e rs h))"

lemma serve_all_sat:
  assumes "wf_gateway h" and "use_stable P" and "ticket_sat token P h" and "not_reissued e token rs h"
  shows "wf_gateway (snd (serve_all e rs h)) \<and> ticket_sat token P (snd (serve_all e rs h))"
  using assms(1,3,4)
proof (induction rs arbitrary: h)
  case (Cons x rs)
  obtain route r where x: "x = (route, r)" by (cases x)
  let ?h = "snd (Serve e route r h)"
  have "\<forall>sh. gs_body (fst (Serve e route r h)) \<noteq> GTicket token sh" and rest: "not_reissued e token rs ?h"
    using Cons.prems(3) by (auto simp: not_reissued_def x case_prod_beta)
  with Serve_sat [OF Cons.prems(1) assms(2), of e route r token] Cons.prems(2)
  have "wf_gateway ?h" "ticket_sat token P ?h" by auto
  from Cons.IH [OF this rest] show ?case by (simp add: x case_prod_beta)
qed simp

lemma attach_refused:
  assumes "ticket_sat (gr_ticket r) (\<lambda>t. tk_Used t \<or> ge_clock e (en_step (gw_engine h)) > tk_Expires t) h"
  shows "fst (attach e r h) = problem 404 ''INVALID_TICKET'' ''Terminal ticket is invalid or expired''
    \<and> en_calls (gw_engine (snd (attach e r h))) = en_calls (gw_engine h)"
  using assms by (auto simp: attach_def take_ticket_def ticket_sat_def tick_def split: option.splits)

text \<open>
  C13: a ticket connects at most one terminal.  If a request took the ticket, then after any further requests
  during which no new ticket happens to get the same random token, every other attempt to attach with
  it is refused with 404 and makes no call to Docker.
\<close>

theorem ticket_single_use:
  assumes "wf_gateway h" and "fst (take_ticket e (gr_ticket r) h) \<noteq> None"
    and "not_reissued e (gr_ticket r) rs (snd (attach e r h))"
    and "h' = snd (serve_all e rs (snd (attach e r h)))" and "gr_ticket r' = gr_ticket r"
  shows "fst (attach e' r' h') = problem 404 ''INVALID_TICKET'' ''Terminal ticket is invalid or expired''
    \<and> en_calls (gw_engine (snd (attach e' r' h'))) = en_calls (gw_engine h')"
proof -
  obtain t h1 where t: "take_ticket e (gr_ticket r) h = (Some t, h1)"
    using assms(2) by (cases "take_ticket e (gr_ticket r) h") auto
  have "ticket_sat (gr_ticket r) tk_Used (snd (attach e r h))"
    using take_ticket_Some [OF t] t by (simp add: ticket_sat_def attach_tickets update_conv')
  moreover have "wf_gateway (snd (attach e r h))"
    using attach_sat [OF assms(1), of "\<lambda>_. True" e r] by (simp add: use_stable_def)
  ultimately have "ticket_sat (gr_ticket r) tk_Used h'"
    using serve_all_sat [of _ tk_Used, OF _ _ _ assms(3)] assms(4) by (simp add: use_stable_def)
  then show ?thesis using assms(5) by (intro attach_refused) (auto simp: ticket_sat_def split: option.splits)
qed

text \<open>An engine on which everything succeeds, a request for a shell in a container and one to attach to it.\<close>

definition calm_docker :: moby where
  "calm_docker = \<lparr>mb_ping = (\<lambda>_. Inr ()), mb_info = (\<lambda>_. Inr None), mb_list = (\<lambda>_. Inr None), mb_inspect = (\<lambda>_ _. Inr None),
     mb_stats = (\<lambda>_ _. Inr []), mb_logs = (\<lambda>_ _ _ _. Inr []), mb_tty = (\<lambda>_ _. Inr True), mb_stdcopy = (\<lambda>s. s), mb_restart = (\<lambda>_ _. Inr ()),
     mb_exec_create = (\<lambda>_ _ _ _. Inr ''x1''), mb_exec_attach = (\<lambda>_ _ _. Inr ()), mb_exec_inspect = (\<lambda>_ _. Inr 0),
     mb_exec_resize = (\<lambda>_ _ _ _. Inr ()), mb_exec_write = (\<lambda>_ _ _. Inr ())\<rparr>"

definition calm_genv :: genv where
  "calm_genv = \<lparr>ge_docker = calm_docker, ge_clock = (\<lambda>n. n), ge_random = (\<lambda>_ _. Some []), ge_parse = (\<lambda>_. None)\<rparr>"

definition shell_request :: grequest where
  "shell_request = \<lparr>gr_secret = [], gr_id = ''abcdefabcdef'', gr_ticket = [], gr_tail = [], gr_follow = [],
     gr_body = \<lparr>bd_values = [JObj [(''shell'', JStr ''/bin/sh'')]], bd_clean = True\<rparr>, gr_origin = [], gr_refusal = None, gr_messages = []\<rparr>"

definition ticket_state :: gateway where
  "ticket_state = (NewHandler [])\<lparr>gw_tickets := [([], \<lparr>tk_ExecID = ''x1'', tk_ContainerID = ''c'', tk_Expires = 9, tk_Used = False\<rparr>)]\<rparr>"

theorem ticket_single_use_witness:
  "fst (attach calm_genv shell_request (snd (attach calm_genv shell_request ticket_state)))
     = problem 404 ''INVALID_TICKET'' ''Terminal ticket is invalid or expired''"
  using ticket_single_use [of ticket_state calm_genv shell_request "[]" _ shell_request calm_genv]
  by (simp add: ticket_state_def NewHandler_def wf_gateway_def take_ticket_def tick_def shell_request_def calm_genv_def not_reissued_def)

text \<open>The ticket that a successful \<open>createExec\<close> issues.\<close>

lemma createExec_issues:
  assumes "createExec e r h = (resp, h')" and "gs_body resp = GTicket token sh"
  shows "\<exists>execID. map_of (gw_tickets h') token = Some \<lparr>tk_ExecID = execID, tk_ContainerID = gr_id r,
    tk_Expires = ge_clock e (en_step (gw_engine h') - 1) + ticketSeconds, tk_Used = False\<rparr>"
  using assms(1)
proof (cases rule: createExec_cases)
  case refused
  with assms(2) show ?thesis by blast
next
  case (issued h1 execID sh')
  from issued(2) obtain tok h2 where "gs_body resp = GTicket tok sh'"
    "gw_tickets h' = AList.update tok \<lparr>tk_ExecID = execID, tk_ContainerID = gr_id r,
       tk_Expires = ge_clock e (en_step (gw_engine h') - 1) + ticketSeconds, tk_Used = False\<rparr> (gw_tickets (cleanup e h2))"
    by (rule issue_ticket_stores) simp
  with assms(2) show ?thesis by (simp add: update_conv')
qed

text \<open>
  C14: a ticket lives for thirty seconds.  Its issue ends with a reading \<open>T\<close> of the clock; after any further requests
  that are not given the same random token, an attachment that reads the clock later than thirty
  seconds after \<open>T\<close> is refused with 404 and makes no call to Docker.
\<close>

theorem ticket_expires:
  assumes "wf_gateway h" and "createExec e r h = (resp, h')" and "gs_body resp = GTicket token sh"
    and "T = ge_clock e (en_step (gw_engine h') - 1)"
    and "not_reissued e token rs h'" and "h'' = snd (serve_all e rs h')" and "gr_ticket r' = token"
    and "ge_clock e' (en_step (gw_engine h'')) > T + 30 * 1000000000"
  shows "fst (attach e' r' h'') = problem 404 ''INVALID_TICKET'' ''Terminal ticket is invalid or expired''
    \<and> en_calls (gw_engine (snd (attach e' r' h''))) = en_calls (gw_engine h'')"
proof -
  let ?P = "\<lambda>t. tk_Expires t = T + ticketSeconds"
  have "ticket_sat token ?P h'" using createExec_issues [OF assms(2,3)] assms(4) by (auto simp: ticket_sat_def)
  moreover have "wf_gateway h'" using createExec_tickets [OF assms(1,2)] by blast
  ultimately have "ticket_sat token ?P h''"
    using serve_all_sat [of h' ?P token e rs] assms(5,6) by (simp add: use_stable_def)
  then show ?thesis
    using assms(7,8) by (intro attach_refused) (auto simp: ticket_sat_def ticketSeconds_def split: option.splits)
qed

lemma calm_createExec:
  "\<exists>h. createExec calm_genv shell_request (NewHandler []) = (\<lparr>gs_status = 201, gs_body = GTicket [] ''/bin/sh''\<rparr>, h)
     \<and> ge_clock calm_genv (en_step (gw_engine h) - 1) < 99"
proof -
  have "ValidateContainerID ''abcdefabcdef''" "ValidateShell ''/bin/sh'' = Some ''/bin/sh''"
    by (simp_all add: ValidateContainerID_def container_char_def contains_def ValidateShell_def)
  then show ?thesis
    by (simp add: createExec_def inspectRaw_def run_docker_def shell_request_def calm_genv_def calm_docker_def Inspect_def docker_def
      NewHandler_def IsSystem_def IsProtected_def hasEnabledLabel_def labels_of_def decode_def decode_body_def dec_struct_def dec_string_def CreateExec_def exec_create_tty_def
      issue_ticket_def tick_def cleanup_def RandomToken_def b64_encode_def)
qed

theorem ticket_expires_witness:
  "fst (attach (calm_genv\<lparr>ge_clock := (\<lambda>n. 99000000000)\<rparr>) shell_request
     (snd (createExec calm_genv shell_request (NewHandler [])))) = problem 404 ''INVALID_TICKET'' ''Terminal ticket is invalid or expired''"
proof -
  obtain h where h: "createExec calm_genv shell_request (NewHandler []) = (\<lparr>gs_status = 201, gs_body = GTicket [] ''/bin/sh''\<rparr>, h)"
    "ge_clock calm_genv (en_step (gw_engine h) - 1) < 99" using calm_createExec by blast
  have "fst (attach (calm_genv\<lparr>ge_clock := (\<lambda>n. 99000000000)\<rparr>) shell_request h)
      = problem 404 ''INVALID_TICKET'' ''Terminal ticket is invalid or expired''"
    by (rule ticket_expires [OF _ h(1) _ refl, where rs = "[]", THEN conjunct1])
      (use h(2) in \<open>simp_all add: not_reissued_def wf_gateway_def NewHandler_def shell_request_def\<close>)
  with h show ?thesis by simp
qed

end
