(* ===== verification/Commands.thy ===== *)
theory Commands
  imports Server_Theorems Store_Open Go_Duration Gateway
begin

text \<open>
  The commands (\<open>src/backend/cmd/server/main.go\<close>, \<open>recovery.go\<close> and \<open>src/backend/cmd/gateway/main.go\<close>):
  the start of the server and of the gateway, the creation of the first administrator and the recovery
  of a password on the host.

  The host is a parameter: environment variables and files, the terminal, whether a write to the
  standard output fails, whether the directory of the database and the connection to it can be made, the
  order in which Go visits the entries of a map, and what the store needs.  A command changes the world:
  the databases on disk (a file that does not exist is the empty database, whose tables the schema
  creates), what was written and how many passwords were read.
\<close>

record host =
  ho_os :: osenv
  ho_env :: env
  ho_mkdir_fails :: "string \<Rightarrow> bool"
  ho_sqlOpen_fails :: "string \<Rightarrow> bool"
  ho_docker_fails :: bool
  ho_isTerminal :: bool
  ho_ReadPassword :: "nat \<Rightarrow> string option"
  ho_write_fails :: "nat \<Rightarrow> bool"
  ho_range :: "(string \<times> string) list \<Rightarrow> (string \<times> string) list"

record world =
  w_disk :: "string \<Rightarrow> db"
  w_step :: nat
  w_reads :: nat
  w_writes :: nat
  w_out :: string

type_synonym 'a cmd = "host \<Rightarrow> world \<Rightarrow> 'a go_result \<times> world"

definition cret :: "'a \<Rightarrow> 'a cmd" where
  "cret x = (\<lambda>h w. (Inr x, w))"

definition craise :: "go_error \<Rightarrow> 'a cmd" where
  "craise err = (\<lambda>h w. (Inl err, w))"

definition cbnd :: "'a cmd \<Rightarrow> ('a \<Rightarrow> 'b cmd) \<Rightarrow> 'b cmd" where
  "cbnd m f = (\<lambda>h w. case m h w of (Inl err, w') \<Rightarrow> (Inl err, w') | (Inr x, w') \<Rightarrow> f x h w')"

text \<open>A function of the host that may fail and changes nothing.\<close>

definition clift :: "(host \<Rightarrow> 'a go_result) \<Rightarrow> 'a cmd" where
  "clift f = (\<lambda>h w. (f h, w))"

definition ccheck :: "bool \<Rightarrow> go_error \<Rightarrow> unit cmd" where
  "ccheck ok err = (if ok then cret () else craise err)"

text \<open>\<open>_, _ = m\<close>: the result is dropped.\<close>

definition cignore :: "'a cmd \<Rightarrow> unit cmd" where
  "cignore m = (\<lambda>h w. (Inr (), snd (m h w)))"

definition fprint :: "string \<Rightarrow> unit cmd" where
  "fprint s = (\<lambda>h w. if ho_write_fails h (w_writes w) then (Inl (ErrEngine ''write''), w\<lparr>w_writes := Suc (w_writes w)\<rparr>)
     else (Inr (), w\<lparr>w_writes := Suc (w_writes w), w_out := w_out w @ s\<rparr>))"

section \<open>Arguments and passwords\<close>

text \<open>
  \<open>FlagSet.Parse\<close> for a set with one string flag: its value and the remaining arguments.  The usage
  that the package prints on an error is left out.
\<close>

fun flag_Parse :: "string \<Rightarrow> string list \<Rightarrow> string \<Rightarrow> (string \<times> string list) go_result" where
  "flag_Parse flag [] v = Inr (v, [])"
| "flag_Parse flag (s # args) v =
     (if length s < 2 \<or> hd s \<noteq> CHR ''-'' then Inr (v, s # args)
      else if s = ''--'' then Inr (v, args)
      else let name = (if s ! 1 = CHR ''-'' then drop 2 s else drop 1 s) in
        if name = [] \<or> hd name = CHR ''-'' \<or> hd name = CHR ''='' then Inl (ErrQuoted ''bad flag syntax: '' s)
        else case cut name (CHR ''='') of (key, val, hasValue) \<Rightarrow>
          if key \<noteq> flag then
            if key = ''help'' \<or> key = ''h'' then Inl (ErrNew ''flag: help requested'')
            else Inl (ErrQuoted ''flag provided but not defined: -'' key)
          else if hasValue then flag_Parse flag args val
          else case args of
            [] \<Rightarrow> Inl (ErrQuoted ''flag needs an argument: -'' key)
          | a # args' \<Rightarrow> flag_Parse flag args' a)"

definition newline :: string where "newline = [CHR 0x0A]"

definition ReadPassword :: "string go_result cmd" where
  "ReadPassword = (\<lambda>h w. (Inr (case ho_ReadPassword h (w_reads w) of None \<Rightarrow> Inl (ErrEngine ''read'') | Some p \<Rightarrow> Inr p),
     w\<lparr>w_reads := Suc (w_reads w)\<rparr>))"

text \<open>The string is a copy of the bytes read, which are then overwritten.\<close>

definition readHiddenPassword :: "string \<Rightarrow> string cmd" where
  "readHiddenPassword prompt = cbnd (clift (\<lambda>h. Inr (ho_isTerminal h))) (\<lambda>t.
     cbnd (ccheck t (ErrNew ''an interactive terminal is required; do not pass passwords through pipes or command arguments'')) (\<lambda>_.
     cbnd (fprint prompt) (\<lambda>_.
     cbnd ReadPassword (\<lambda>value.
     cbnd (cignore (fprint newline)) (\<lambda>_.
     clift (\<lambda>_. value))))))"

section \<open>The database file\<close>

definition memory :: string where "memory = '':memory:''"

text \<open>
  \<open>database.Open\<close> with the directory and the connection, and the work on the open store: an in-memory
  database starts empty and is gone when the store is closed.
\<close>

definition database_Open :: "string \<Rightarrow> unit cmd" where
  "database_Open path = (\<lambda>h w. if path \<noteq> memory \<and> ho_mkdir_fails h path then (Inl (ErrEngine ''mkdir''), w)
     else if ho_sqlOpen_fails h path then (Inl (ErrEngine ''open''), w) else (Inr (), w))"

definition on_store :: "string \<Rightarrow> 'a dbm \<Rightarrow> ('a \<times> store) cmd" where
  "on_store path m = (\<lambda>h w. case m (ho_env h) (w_step w, if path = memory then empty_db else w_disk w path) of
     (r, n, d) \<Rightarrow> (case r of Inl err \<Rightarrow> Inl err | Inr x \<Rightarrow> Inr (x, n, d),
       w\<lparr>w_step := n, w_disk := (if path = memory then w_disk w else (w_disk w)(path := d))\<rparr>))"

definition with_store :: "string \<Rightarrow> 'a dbm \<Rightarrow> ('a \<times> store) cmd" where
  "with_store path m = cbnd (\<lambda>h w. case database_Open path h w of
       (Inl _, w) \<Rightarrow> (Inl (ErrNew ''open database''), w) | (Inr x, w) \<Rightarrow> (Inr x, w))
     (\<lambda>_. on_store path (bnd (on_error (ErrNew ''open database'') Open) (\<lambda>_. m)))"

section \<open>Bootstrap and recovery\<close>

definition runBootstrap :: "string list \<Rightarrow> unit cmd" where
  "runBootstrap args =
     cbnd (clift (\<lambda>_. flag_Parse ''username'' args [])) (\<lambda>(username, rest).
     cbnd (ccheck (rest = [] \<and> trimSpace username \<noteq> []) (ErrNew ''usage: dockerview-server bootstrap --username USERNAME'')) (\<lambda>_.
     cbnd (readHiddenPassword ''Password: '') (\<lambda>password.
     cbnd (readHiddenPassword ''Confirm password: '') (\<lambda>confirmation.
     cbnd (ccheck (password = confirmation) (ErrNew ''passwords do not match'')) (\<lambda>_.
     cbnd (clift (\<lambda>h. Load (ho_os h) ''recovery'')) (\<lambda>cfg.
     cbnd (with_store (cfg_DBPath cfg) (BootstrapAdmin (trimSpace username) password)) (\<lambda>(user, _).
     fprint (''Administrator created: '' @ user_Username user @ newline))))))))"

definition runPasswordRecovery :: "string list \<Rightarrow> unit cmd" where
  "runPasswordRecovery args =
     cbnd (clift (\<lambda>_. flag_Parse ''username'' args [])) (\<lambda>(username, rest).
     cbnd (ccheck (rest = [] \<and> trimSpace username \<noteq> []) (ErrNew ''usage: dockerview-server reset-password --username USERNAME'')) (\<lambda>_.
     cbnd (readHiddenPassword ''New password: '') (\<lambda>password.
     cbnd (readHiddenPassword ''Confirm password: '') (\<lambda>confirmation.
     cbnd (ccheck (password = confirmation) (ErrNew ''passwords do not match'')) (\<lambda>_.
     cbnd (clift (\<lambda>h. Load (ho_os h) ''recovery'')) (\<lambda>cfg.
     cbnd (with_store (cfg_DBPath cfg) (RecoverPassword (trimSpace username) password)) (\<lambda>(user, _).
     fprint (''Password reset for '' @ user_Username user @ ''. All existing sessions were revoked.'' @ newline))))))))"

section \<open>The two services\<close>

definition default_settings :: "Config \<Rightarrow> (string \<times> string) list" where
  "default_settings cfg = [
     (''instance_name'', cfg_InstanceName cfg),
     (''environment'', cfg_Environment cfg),
     (''terminal_idle_timeout'', duration_String (cfg_TerminalIdle cfg)),
     (''default_log_tail'', itoa (cfg_LogTailDefault cfg)),
     (''secret_masking'', formatBool (cfg_SecretMasking cfg))]"

text \<open>A process that ends with a status, or a service that listens with its configuration.\<close>

datatype 's process = Exit nat | Listening Config 's

definition serve :: "'g \<Rightarrow> (Config \<times> 'g server) cmd" where
  "serve g = cbnd (clift (\<lambda>h. Load (ho_os h) ''server'')) (\<lambda>cfg.
     cbnd (clift (\<lambda>h. Inr (ho_range h (default_settings cfg)))) (\<lambda>m.
     cbnd (with_store (cfg_DBPath cfg) (EnsureSettings m)) (\<lambda>(_, store).
     cret (cfg, New store g))))"

definition exit_of :: "unit go_result \<times> world \<Rightarrow> 's process \<times> world" where
  "exit_of r = (case r of (Inl _, w) \<Rightarrow> (Exit 1, w) | (Inr _, w) \<Rightarrow> (Exit 0, w))"

definition server_main :: "string list \<Rightarrow> 'g \<Rightarrow> host \<Rightarrow> world \<Rightarrow> 'g server process \<times> world" where
  "server_main args g h w =
     (if length args > 1 \<and> args ! 1 = ''bootstrap'' then exit_of (runBootstrap (drop 2 args) h w)
      else if length args > 1 \<and> args ! 1 = ''reset-password'' then exit_of (runPasswordRecovery (drop 2 args) h w)
      else case serve g h w of
        (Inl _, w) \<Rightarrow> (Exit 1, w)
      | (Inr (cfg, sv), w) \<Rightarrow> (Listening cfg sv, w))"

definition gateway_main :: "host \<Rightarrow> gateway process" where
  "gateway_main h = (case Load (ho_os h) ''gateway'' of
       Inl _ \<Rightarrow> Exit 1
     | Inr cfg \<Rightarrow> if ho_docker_fails h then Exit 1 else Listening cfg (NewHandler (cfg_GatewaySecret cfg)))"

section \<open>How a command succeeds\<close>

lemma cbnd_ok: "cbnd m f h w = (Inr y, w') \<longleftrightarrow> (\<exists>x v. m h w = (Inr x, v) \<and> f x h v = (Inr y, w'))"
  by (auto simp: cbnd_def split: prod.splits sum.splits)

lemma clift_ok: "clift f h w = (Inr x, w') \<longleftrightarrow> f h = Inr x \<and> w' = w"
  by (auto simp: clift_def)

lemma ccheck_ok: "ccheck ok err h w = (Inr x, w') \<longleftrightarrow> ok \<and> w' = w"
  by (auto simp: ccheck_def cret_def craise_def)

text \<open>The parts of the world that printing and reading leave alone.\<close>

definition stored :: "world \<Rightarrow> nat \<times> (string \<Rightarrow> db)" where
  "stored w = (w_step w, w_disk w)"

lemma fprint_stored: "fprint s h w = (r, w') \<Longrightarrow> stored w' = stored w \<and> w_reads w' = w_reads w"
  by (auto simp: fprint_def stored_def split: if_splits)

lemma readHiddenPassword_stored: "readHiddenPassword prompt h w = (r, w') \<Longrightarrow> stored w' = stored w"
  by (auto simp: readHiddenPassword_def cbnd_def clift_def ccheck_def cret_def craise_def ReadPassword_def fprint_def cignore_def
      stored_def split: if_splits)

lemma readHiddenPassword_ok:
  "readHiddenPassword prompt h w = (Inr p, w') \<Longrightarrow> ho_isTerminal h \<and> ho_ReadPassword h (w_reads w) = Some p \<and> w_reads w' = Suc (w_reads w)"
  by (auto simp: readHiddenPassword_def cbnd_def clift_def ccheck_def cret_def craise_def ReadPassword_def fprint_def cignore_def
      split: if_splits option.splits)

lemma on_store_ok:
  assumes "path \<noteq> memory"
  shows "on_store path m h w = (Inr (x, n, d), w') \<longleftrightarrow> m (ho_env h) (w_step w, w_disk w path) = (Inr x, n, d)
    \<and> w' = w\<lparr>w_step := n, w_disk := (w_disk w)(path := d)\<rparr>"
  using assms by (auto simp: on_store_def split: prod.splits sum.splits)

lemma with_store_ok:
  assumes "path \<noteq> memory"
  shows "with_store path m h w = (Inr (x, n, d), w') \<longleftrightarrow> \<not> ho_mkdir_fails h path \<and> \<not> ho_sqlOpen_fails h path
    \<and> (\<exists>k d1. Open (ho_env h) (w_step w, w_disk w path) = (Inr (), k, d1) \<and> m (ho_env h) (k, d1) = (Inr x, n, d))
    \<and> w' = w\<lparr>w_step := n, w_disk := (w_disk w)(path := d)\<rparr>"
  using assms by (auto simp: with_store_def cbnd_ok database_Open_def on_store_ok bnd_ok on_error_ok split: if_splits)

text \<open>The two commands share their dialogue; the operation on the store and the message differ.\<close>

definition account_command :: "go_error \<Rightarrow> string \<Rightarrow> (string \<Rightarrow> string \<Rightarrow> User dbm) \<Rightarrow> (User \<Rightarrow> string) \<Rightarrow> string list \<Rightarrow> unit cmd" where
  "account_command usage prompt op msg args =
     cbnd (clift (\<lambda>_. flag_Parse ''username'' args [])) (\<lambda>(username, rest).
     cbnd (ccheck (rest = [] \<and> trimSpace username \<noteq> []) usage) (\<lambda>_.
     cbnd (readHiddenPassword prompt) (\<lambda>password.
     cbnd (readHiddenPassword ''Confirm password: '') (\<lambda>confirmation.
     cbnd (ccheck (password = confirmation) (ErrNew ''passwords do not match'')) (\<lambda>_.
     cbnd (clift (\<lambda>h. Load (ho_os h) ''recovery'')) (\<lambda>cfg.
     cbnd (with_store (cfg_DBPath cfg) (op (trimSpace username) password)) (\<lambda>(user, _).
     fprint (msg user))))))))"

lemma commands_share:
  "runBootstrap = account_command (ErrNew ''usage: dockerview-server bootstrap --username USERNAME'') ''Password: '' BootstrapAdmin
     (\<lambda>u. ''Administrator created: '' @ user_Username u @ newline)"
  "runPasswordRecovery = account_command (ErrNew ''usage: dockerview-server reset-password --username USERNAME'') ''New password: '' RecoverPassword
     (\<lambda>u. ''Password reset for '' @ user_Username u @ ''. All existing sessions were revoked.'' @ newline)"
  by (simp_all add: fun_eq_iff runBootstrap_def runPasswordRecovery_def account_command_def)

text \<open>What a person at a terminal has typed when a command goes on to the store.\<close>

definition typed :: "string list \<Rightarrow> host \<Rightarrow> world \<Rightarrow> string \<Rightarrow> string \<Rightarrow> bool" where
  "typed args h w name p \<longleftrightarrow> flag_Parse ''username'' args [] = Inr (name, []) \<and> trimSpace name \<noteq> [] \<and> ho_isTerminal h
     \<and> ho_ReadPassword h (w_reads w) = Some p \<and> ho_ReadPassword h (Suc (w_reads w)) = Some p"

lemma account_command_ok:
  assumes "account_command usage prompt op msg args h w = (Inr (), w')"
    and "Load (ho_os h) ''recovery'' = Inr cfg" and "cfg_DBPath cfg \<noteq> memory"
  obtains name p user k d1 n d where "typed args h w name p"
    "Open (ho_env h) (w_step w, w_disk w (cfg_DBPath cfg)) = (Inr (), k, d1)"
    "op (trimSpace name) p (ho_env h) (k, d1) = (Inr user, n, d)"
    "w_disk w' = (w_disk w)(cfg_DBPath cfg := d)"
proof -
  from assms(1,2) obtain name w1 w2 p q user st w3 where f: "flag_Parse ''username'' args [] = Inr (name, [])" "trimSpace name \<noteq> []"
    and r: "readHiddenPassword prompt h w = (Inr p, w1)" "readHiddenPassword ''Confirm password: '' h w1 = (Inr q, w2)" "p = q"
    and s: "with_store (cfg_DBPath cfg) (op (trimSpace name) p) h w2 = (Inr (user, st), w3)" and o: "fprint (msg user) h w3 = (Inr (), w')"
    unfolding account_command_def by (auto simp: cbnd_ok clift_ok ccheck_ok split_paired_all)
  have t: "typed args h w name p"
    using f r readHiddenPassword_ok [OF r(1)] readHiddenPassword_ok [OF r(2)] by (simp add: typed_def)
  have w2: "w_step w2 = w_step w" "w_disk w2 = w_disk w"
    using readHiddenPassword_stored [OF r(1)] readHiddenPassword_stored [OF r(2)] by (simp_all add: stored_def)
  obtain n d where st: "st = (n, d)" by (cases st)
  from s obtain k d1 where "Open (ho_env h) (w_step w, w_disk w (cfg_DBPath cfg)) = (Inr (), k, d1)"
    "op (trimSpace name) p (ho_env h) (k, d1) = (Inr user, n, d)" "w_disk w3 = (w_disk w)(cfg_DBPath cfg := d)"
    unfolding st with_store_ok [OF assms(3)] by (auto simp: w2)
  moreover have "w_disk w' = w_disk w3" using fprint_stored [OF o] by (simp add: stored_def)
  ultimately show ?thesis using t that by simp
qed

lemma account_command_refuses:
  assumes "\<nexists>name p. typed args h w name p"
  shows "\<exists>err w'. account_command usage prompt op msg args h w = (Inl err, w') \<and> w_disk w' = w_disk w"
proof -
  have "w_disk (snd (account_command usage prompt op msg args h w)) = w_disk w \<and> \<not> is_ok (fst (account_command usage prompt op msg args h w))"
  proof (cases "\<exists>name. flag_Parse ''username'' args [] = Inr (name, []) \<and> trimSpace name \<noteq> []")
    case False
    then show ?thesis
      by (auto simp: account_command_def cbnd_def clift_def ccheck_def craise_def cret_def split: sum.split)
  next
    case True
    then obtain name where n: "flag_Parse ''username'' args [] = Inr (name, [])" "trimSpace name \<noteq> []" by blast
    obtain r1 w1 where 1: "readHiddenPassword prompt h w = (r1, w1)" by (cases "readHiddenPassword prompt h w")
    obtain r2 w2 where 2: "readHiddenPassword ''Confirm password: '' h w1 = (r2, w2)" by (cases "readHiddenPassword ''Confirm password: '' h w1")
    have d: "w_disk w1 = w_disk w" "w_disk w2 = w_disk w"
      using readHiddenPassword_stored [OF 1] readHiddenPassword_stored [OF 2] by (simp_all add: stored_def)
    have "p \<noteq> q" if "r1 = Inr p" "r2 = Inr q" for p q
      using readHiddenPassword_ok [OF 1 [unfolded that(1)]] readHiddenPassword_ok [OF 2 [unfolded that(2)]] n assms
      by (auto simp: typed_def)
    with n d show ?thesis
      by (cases r1; cases r2) (simp_all add: account_command_def cbnd_def clift_def ccheck_def craise_def cret_def 1 2)
  qed
  then show ?thesis by (metis is_ok.elims(3) prod.collapse)
qed

end
