(* ===== verification/Command_Theorems.thy ===== *)
theory Command_Theorems
  imports Commands
begin

text \<open>
  What the commands of \<open>src/backend/cmd\<close> achieve: the recovery of a password, the creation of the first
  administrator, and the state in which the server starts.
\<close>

section \<open>Recovery\<close>

text \<open>
  C36: the recovery command.  If it reports success, a person at an interactive terminal has typed the new password
  twice; the enabled user of that name has the new password and no open session left, the audit trail
  has one more event, which records the recovery, and no other database file was touched.
\<close>

theorem recovery_command:
  assumes "runPasswordRecovery args h w = (Inr (), w')" and "Load (ho_os h) ''recovery'' = Inr cfg"
    and "path = cfg_DBPath cfg" and "path \<noteq> memory"
    and random_length: "\<forall>k salt. random (ho_env h) k 16 = Some salt \<longrightarrow> length salt = 16"
    and argon2_length: "\<forall>p salt x. argon2 (ho_env h) p salt 3 65536 2 32 = Some x \<longrightarrow> length x = 32"
  shows "\<exists>name p u a. typed args h w name p
    \<and> u \<in> set (db.users (w_disk w path)) \<and> ur_enabled u \<and> nocase (ur_username u) (trimSpace name)
    \<and> open_sessions (w_disk w' path) = close_user (ur_id u) (open_sessions (w_disk w path))
    \<and> audit_events (w_disk w' path) = audit_events (w_disk w path) @ [a]
    \<and> au_action a = ''PASSWORD_RECOVERY'' \<and> au_user_id a = Some (ur_id u)
    \<and> (\<forall>q. q \<noteq> path \<longrightarrow> w_disk w' q = w_disk w q)
    \<and> (\<forall>e m. argon2 e = argon2 (ho_env h) \<and> (\<forall>k. \<not> engine_fails e k) \<longrightarrow>
         (\<exists>y m' d'. Authenticate (trimSpace name) p e (m, w_disk w' path) = (Inr (Some y), m', d') \<and> user_ID y = ur_id u))"
  using assms(1) [unfolded commands_share] assms(2) assms(4) [unfolded assms(3)]
proof (rule account_command_ok)
  fix name p user k d1 n d
  assume t: "typed args h w name p" and o: "Open (ho_env h) (w_step w, w_disk w (cfg_DBPath cfg)) = (Inr (), k, d1)"
    and r: "RecoverPassword (trimSpace name) p (ho_env h) (k, d1) = (Inr user, n, d)"
    and w': "w_disk w' = (w_disk w)(cfg_DBPath cfg := d)"
  let ?e = "ho_env h"
  have d1: "db.users d1 = db.users (w_disk w path)" "open_sessions d1 = open_sessions (w_disk w path)" "audit_events d1 = audit_events (w_disk w path)"
    using rel_stepsD [OF opened_Open o] assms(3) by (simp_all add: opened_def open_sessions_def)
  show ?thesis
    using r
  proof (rule RecoverPassword_ok)
    fix u hash ts a
    assume u: "find (\<lambda>u. nocase (ur_username u) (trimSpace name)) (db.users d1) = Some u" "ur_enabled u" "user_ID user = ur_id u"
      and hash: "HashPassword (argon2 ?e) (random ?e k 16) p = Some (Inr hash)"
      and d: "d = (revoke_active (ur_id u) ts (update_user (ur_id u) (\<lambda>x. x\<lparr>ur_password_hash := hash, ur_updated_at := ts\<rparr>) d1))
        \<lparr>audit_events := audit_events d1 @ [a]\<rparr>"
      and a: "au_action a = ''PASSWORD_RECOVERY''" "au_user_id a = Some (ur_id u)"
    let ?u = "u\<lparr>ur_password_hash := hash, ur_updated_at := ts\<rparr>"
    obtain salt where salt: "random ?e k 16 = Some salt" using hash by (auto simp: HashPassword_def split: option.splits if_splits)
    have "find (\<lambda>u. nocase (ur_username u) (trimSpace name)) (db.users d) = Some ?u"
      using u(1) by (simp add: d revoke_active_def update_user_def find_update_where)
    moreover have "VerifyPassword (argon2 ?e) hash p = Some True"
      using HashPassword_verifies [of "argon2 ?e" salt p hash] hash salt random_length argon2_length by simp
    ultimately have "\<exists>y m' d'. Authenticate (trimSpace name) p e (m, d) = (Inr (Some y), m', d') \<and> user_ID y = ur_id u"
      if "argon2 e = argon2 ?e" "\<forall>k. \<not> engine_fails e k" for e m
      using Authenticate_user [of "trimSpace name" d ?u e p m] that u(2) by simp
    moreover have "u \<in> set (db.users (w_disk w path)) \<and> nocase (ur_username u) (trimSpace name)"
      using find_SomeD [OF u(1)] d1 by simp
    moreover have "open_sessions d = close_user (ur_id u) (open_sessions (w_disk w path))"
      using open_sessions_RecoverPassword [OF r] u(3) d1 by simp
    moreover have "audit_events d = audit_events (w_disk w path) @ [a]" using d d1 by simp
    ultimately show ?thesis
      using t u(2) a w' assms(3) by (intro exI [of _ name] exI [of _ p] exI [of _ u] exI [of _ a]) simp
  qed
qed

text \<open>
  C40: the commands refuse what was not typed.  Without a user name on the command line, an interactive terminal
  and the same password typed twice, \<open>bootstrap\<close> and \<open>reset-password\<close> fail and leave every database
  file as it is; the process ends with status 1.
\<close>

theorem commands_refuse:
  assumes "\<nexists>name p. typed args h w name p" and "cmd \<in> {''bootstrap'', ''reset-password''}"
  shows "fst (server_main (prog # cmd # args) g h w) = Exit 1 \<and> w_disk (snd (server_main (prog # cmd # args) g h w)) = w_disk w"
  using account_command_refuses [OF assms(1), of "ErrNew ''usage: dockerview-server bootstrap --username USERNAME''" "''Password: ''"
      BootstrapAdmin "\<lambda>u. ''Administrator created: '' @ user_Username u @ newline"]
    account_command_refuses [OF assms(1), of "ErrNew ''usage: dockerview-server reset-password --username USERNAME''" "''New password: ''"
      RecoverPassword "\<lambda>u. ''Password reset for '' @ user_Username u @ ''. All existing sessions were revoked.'' @ newline"] assms(2)
  unfolding commands_share [symmetric] by (auto simp: server_main_def exit_of_def)

section \<open>Bootstrap\<close>

lemma on_store_disk:
  "on_store path m h w = (r, w') \<Longrightarrow> path \<noteq> memory \<Longrightarrow>
     w_disk w' = (w_disk w)(path := snd (snd (m (ho_env h) (w_step w, w_disk w path))))"
  by (auto simp: on_store_def split: prod.splits)

lemma on_error_same: "snd (on_error err m e s) = snd (m e s)"
  by (auto simp: on_error_def bnd_def attempt_def ret_def raise_def split: prod.splits sum.splits go_error.splits)

text \<open>Every end of a command: no file touched, only opened, or the operation has run.\<close>

lemma account_command_disk:
  assumes "account_command usage prompt op msg args h w = (r, w')"
    and "Load (ho_os h) ''recovery'' = Inr cfg" and "path = cfg_DBPath cfg" and "path \<noteq> memory"
  shows "w_disk w' = w_disk w \<or> (\<exists>d. opened (w_disk w path) d \<and> w_disk w' = (w_disk w)(path := d))
    \<or> (\<exists>name p k d1 r1 n d. opened (w_disk w path) d1 \<and> op (trimSpace name) p (ho_env h) (k, d1) = (r1, n, d)
         \<and> w_disk w' = (w_disk w)(path := d))"
proof (cases "\<exists>name p. typed args h w name p")
  case False
  then show ?thesis using account_command_refuses [of args h w usage prompt op msg] assms(1) by auto
next
  case True
  then obtain name p where t: "typed args h w name p" by blast
  obtain r1 w1 where 1: "readHiddenPassword prompt h w = (r1, w1)" by (cases "readHiddenPassword prompt h w")
  obtain r2 w2 where 2: "readHiddenPassword ''Confirm password: '' h w1 = (r2, w2)" by (cases "readHiddenPassword ''Confirm password: '' h w1")
  have w2: "w_disk w1 = w_disk w" "w_step w2 = w_step w" "w_disk w2 = w_disk w"
    using readHiddenPassword_stored [OF 1] readHiddenPassword_stored [OF 2] by (simp_all add: stored_def)
  let ?m = "bnd (on_error (ErrNew ''open database'') Open) (\<lambda>_. op (trimSpace name) p)"
  have "w_disk w' = w_disk w \<or> w_disk w' = (w_disk w)(path := snd (snd (?m (ho_env h) (w_step w, w_disk w path))))"
  proof (cases "r1 = Inr p \<and> r2 = Inr p \<and> fst (database_Open path h w2) = Inr ()")
    case False
    have "r1 = Inr q \<Longrightarrow> q = p" "r1 = Inr q \<Longrightarrow> r2 = Inr q' \<Longrightarrow> q' = p" for q q'
      using 1 2 t readHiddenPassword_ok [of prompt h w _ w1] readHiddenPassword_ok [of _ h w1 _ w2] by (auto simp: typed_def)
    with False w2 assms(1,2,3) t show ?thesis
      by (cases r1; cases r2)
        (auto simp: account_command_def cbnd_def clift_def ccheck_def cret_def craise_def 1 2 typed_def with_store_def database_Open_def
          split: if_splits)
  next
    case True
    then have db: "database_Open path h w2 = (Inr (), w2)" by (auto simp: database_Open_def split: if_splits)
    obtain r3 w3 where 3: "on_store path ?m h w2 = (r3, w3)" by (cases "on_store path ?m h w2")
    have "w_disk w' = w_disk w3"
      using True t assms(1,2) 3 fprint_stored [of _ h w3 r w']
      by (auto simp: account_command_def cbnd_def clift_def ccheck_def cret_def 1 2 typed_def with_store_def db stored_def assms(3) [symmetric]
          split: sum.splits)
    with on_store_disk [OF 3 assms(4)] w2 show ?thesis by simp
  qed
  moreover obtain r4 k d1 where o: "Open (ho_env h) (w_step w, w_disk w path) = (r4, k, d1)" by (metis prod.exhaust)
  then have "opened (w_disk w path) d1" by (rule rel_stepsD [OF opened_Open])
  moreover have "snd (on_error (ErrNew ''open database'') Open (ho_env h) (w_step w, w_disk w path)) = (k, d1)"
    using o by (simp add: on_error_same)
  then have "snd (snd (?m (ho_env h) (w_step w, w_disk w path))) \<in> {d1, snd (snd (op (trimSpace name) p (ho_env h) (k, d1)))}"
    unfolding bnd_def by (auto split: prod.split sum.split)
  ultimately show ?thesis by (metis insertE prod.collapse singletonD)
qed

text \<open>
  C39: the first administrator is created once.  \<open>bootstrap\<close> succeeds only on a database without users, for a user name
  and a password typed twice at a terminal, and then that user is the only one, enabled and an
  administrator.  Otherwise the users of the database stay as they are, unless the new administrator was
  created and could only not be read back or reported.
\<close>

theorem bootstrap_command:
  assumes "Load (ho_os h) ''recovery'' = Inr cfg" and "path = cfg_DBPath cfg" and "path \<noteq> memory"
  shows "case runBootstrap args h w of
      (Inr _, w') \<Rightarrow> db.users (w_disk w path) = [] \<and> has_admin (w_disk w' path)
        \<and> (\<exists>name p u. typed args h w name p \<and> db.users (w_disk w' path) = [u] \<and> ur_username u = trimSpace name \<and> ur_enabled u)
    | (Inl err, w') \<Rightarrow> db.users (w_disk w' path) = db.users (w_disk w path) \<and> user_roles (w_disk w' path) = user_roles (w_disk w path)
        \<or> db.users (w_disk w path) = [] \<and> has_admin (w_disk w' path)"
proof -
  obtain r w' where run: "runBootstrap args h w = (r, w')" by (cases "runBootstrap args h w")
  show ?thesis
  proof (cases r)
    case (Inr x)
    with run have "runBootstrap args h w = (Inr (), w')" by simp
    then have ok: "db.users (w_disk w path) = [] \<and> has_admin (w_disk w' path)
        \<and> (\<exists>name p u. typed args h w name p \<and> db.users (w_disk w' path) = [u] \<and> ur_username u = trimSpace name \<and> ur_enabled u)"
      unfolding commands_share using assms(1) assms(3) [unfolded assms(2)]
    proof (rule account_command_ok)
      fix name p user k d1 n d
      assume t: "typed args h w name p" and o: "Open (ho_env h) (w_step w, w_disk w (cfg_DBPath cfg)) = (Inr (), k, d1)"
        and b: "BootstrapAdmin (trimSpace name) p (ho_env h) (k, d1) = (Inr user, n, d)"
        and w': "w_disk w' = (w_disk w)(cfg_DBPath cfg := d)"
      have "db.users d1 = db.users (w_disk w path)"
        using rel_stepsD [OF opened_Open o] assms(2) by (simp add: opened_def)
      with bootstrap_only_first [where username = "trimSpace name" and password = p and e = "ho_env h" and n = k and d = d1] b t w' assms(2) show ?thesis by auto
    qed
    with run Inr show ?thesis by simp
  next
    case (Inl err)
    let ?P = "\<lambda>d. db.users d = db.users (w_disk w path) \<and> user_roles d = user_roles (w_disk w path)
      \<or> db.users (w_disk w path) = [] \<and> has_admin d"
    have o: "?P d" if "opened (w_disk w path) d" for d using that by (simp add: opened_def)
    have b: "?P d" if "opened (w_disk w path) d1" and "BootstrapAdmin name p (ho_env h) (k, d1) = (r1, n, d)" for d1 name p k r1 n d
      using bootstrap_only_first [where username = name and password = p and e = "ho_env h" and n = k and d = d1] that
      by (cases r1) (auto simp: opened_def)
    from account_command_disk [OF run [unfolded commands_share] assms] have "?P (w_disk w' path)"
    proof (elim disjE exE conjE, goal_cases)
      case 1
      then show ?case by simp
    next
      case (2 d)
      then show ?case using o [of d] by simp
    next
      case (3 name p k d1 r1 n d)
      then show ?case using b [OF 3(1,2)] by simp
    qed
    with Inl run show ?thesis by simp
  qed
qed

section \<open>The start of the server\<close>

lemma serve_ok:
  assumes "server_main args g h w = (Listening cfg sv, w')" and "cfg_DBPath cfg \<noteq> memory"
  obtains k d1 n where "Load (ho_os h) ''server'' = Inr cfg"
    "Open (ho_env h) (w_step w, w_disk w (cfg_DBPath cfg)) = (Inr (), k, d1)"
    "EnsureSettings (ho_range h (default_settings cfg)) (ho_env h) (k, d1) = (Inr (), n, sv_db sv)"
    "sv = New (n, sv_db sv) g" "w_disk w' = (w_disk w)(cfg_DBPath cfg := sv_db sv)"
proof -
  from assms(1) have "serve g h w = (Inr (cfg, sv), w')"
    by (auto simp: server_main_def exit_of_def split: if_splits prod.splits sum.splits)
  then obtain n d where "Load (ho_os h) ''server'' = Inr cfg" "sv = New (n, d) g"
    "with_store (cfg_DBPath cfg) (EnsureSettings (ho_range h (default_settings cfg))) h w = (Inr ((), n, d), w')"
    by (auto simp: serve_def cbnd_ok clift_ok cret_def split_paired_all)
  with that assms(2) show ?thesis by (auto simp: with_store_ok New_def sv_db_def)
qed

lemma default_settings_range:
  "mset (ho_range h (default_settings cfg)) = mset (default_settings cfg) \<Longrightarrow>
     map_of (ho_range h (default_settings cfg)) = map_of (default_settings cfg)"
proof -
  assume *: "mset (ho_range h (default_settings cfg)) = mset (default_settings cfg)"
  have d: "distinct (map fst (default_settings cfg))" by (simp add: default_settings_def)
  with * have "distinct (map fst (ho_range h (default_settings cfg)))" by (rule distinct_mset_map)
  with d show ?thesis by (subst map_of_inject_set) (simp_all add: mset_eq_setD [OF *])
qed

text \<open>
  C37: a server that starts is sound.  If the process listens, its gateway secret has at least 32 bytes; its database,
  which is the one on disk, satisfies the schema, has the built-in administrator role and still has its
  administrators; every setting that was stored before is kept, and the others have the values of the
  configuration, in whatever order Go visits the map of the defaults.
\<close>

theorem started_server_sound:
  assumes "server_main args g h w = (Listening cfg sv, w')" and "path = cfg_DBPath cfg" and "path \<noteq> memory"
    and "wf_db (w_disk w path)" and "w_disk w path = empty_db \<or> admin_role (w_disk w path)"
    and range_order: "\<And>m. mset (ho_range h m) = mset m"
  shows "32 \<le> length (cfg_GatewaySecret cfg) \<and> w_disk w' = (w_disk w)(path := sv_db sv)
    \<and> wf_db (sv_db sv) \<and> admin_role (sv_db sv) \<and> (has_admin (w_disk w path) \<longrightarrow> has_admin (sv_db sv))
    \<and> (\<forall>k v. (k, v) \<in> set (default_settings cfg) \<longrightarrow>
         stored_settings (sv_db sv) k = (case stored_settings (w_disk w path) k of None \<Rightarrow> Some v | Some v' \<Rightarrow> Some v'))"
  using assms(1) assms(3) [unfolded assms(2)]
proof (rule serve_ok)
  fix k d1 n
  let ?d = "w_disk w path"
  assume l: "Load (ho_os h) ''server'' = Inr cfg"
    and o: "Open (ho_env h) (w_step w, w_disk w (cfg_DBPath cfg)) = (Inr (), k, d1)"
    and s: "EnsureSettings (ho_range h (default_settings cfg)) (ho_env h) (k, d1) = (Inr (), n, sv_db sv)"
    and w': "w_disk w' = (w_disk w)(cfg_DBPath cfg := sv_db sv)"
  note o = o [folded assms(2)]
  have secret: "32 \<le> length (cfg_GatewaySecret cfg)" using l by (auto simp: Load_def Let_def split: if_splits)
  have wf1: "wf_db d1" using rel_stepsD [OF schema.steps_Open o] assms(4) by (simp add: keeps_wf_def)
  have wf: "wf_db (sv_db sv)" using rel_stepsD [OF schema.steps_settings(1) s] wf1 by (simp add: keeps_wf_def)
  have ar1: "admin_role d1" using Open_admin_role [OF o assms(4)] assms(5) by (auto simp: empty_db_def)
  have ar: "admin_role (sv_db sv)" using rel_stepsD [OF builtin.steps_settings(1) s] wf1 ar1 by (simp add: keeps_builtin_def)
  have ha: "has_admin ?d \<Longrightarrow> has_admin (sv_db sv)"
    using rel_stepsD [OF administrator.steps_settings(1) s] wf1 ar1 rel_stepsD [OF opened_Open o]
    by (simp add: keeps_administrator_def has_admin_def admin_rows_def opened_def)
  have "stored_settings (sv_db sv) k = (case stored_settings ?d k of None \<Rightarrow> Some v | Some v' \<Rightarrow> Some v')"
    if "(k, v) \<in> set (default_settings cfg)" for k v
  proof -
    have "k \<noteq> ''auth_provider''" "map_of (default_settings cfg) k = Some v"
      using that by (auto simp: default_settings_def)
    then show ?thesis
      using EnsureSettings_stored [OF s, of k] default_settings_range [OF range_order] rel_stepsD [OF opened_Open o]
      by (auto simp: opened_def split: option.split)
  qed
  with secret w' wf ar ha assms(2) show ?thesis by simp
qed

lemma duration_range: "minInt \<le> v \<and> v \<le> maxInt \<Longrightarrow> minInt \<le> duration os k v \<and> duration os k v \<le> maxInt"
  using parseDuration_range [of "os_fmul os" "os_Getenv os k"]
  by (auto simp: duration_def minInt_def maxInt_def split: option.split)

text \<open>
  C38: the configured idle timeout is the one in force.  On a database that has no stored timeout, the server that
  starts takes the timeout of its configuration for every terminal, although it goes through the
  settings table as a text: either the text is read back to the same duration, or the duration is out of
  the accepted range, or the settings cannot be read, and then the configuration is used directly.
\<close>

theorem configured_timeout_in_force:
  assumes "server_main args g h w = (Listening cfg sv, w')" and "path = cfg_DBPath cfg" and "path \<noteq> memory"
    and "stored_settings (w_disk w path) ''terminal_idle_timeout'' = None"
    and "se_cfg se = cfg" and "exact_products (se_fmul se)"
    and range_order: "\<And>m. mset (ho_range h m) = mset m"
  shows "fst (terminalIdle se sv) = Inr (cfg_TerminalIdle cfg)"
  using assms(1) assms(3) [unfolded assms(2)]
proof (rule serve_ok)
  fix k d1 n
  assume l: "Load (ho_os h) ''server'' = Inr cfg"
    and o: "Open (ho_env h) (w_step w, w_disk w (cfg_DBPath cfg)) = (Inr (), k, d1)"
    and s: "EnsureSettings (ho_range h (default_settings cfg)) (ho_env h) (k, d1) = (Inr (), n, sv_db sv)"
  have "stored_settings (sv_db sv) ''terminal_idle_timeout'' = Some (duration_String (cfg_TerminalIdle cfg))"
    using EnsureSettings_stored [OF s, of "''terminal_idle_timeout''"] default_settings_range [OF range_order]
      rel_stepsD [OF opened_Open o] assms(2,4)
    by (simp add: opened_def default_settings_def)
  moreover have "minInt \<le> cfg_TerminalIdle cfg \<and> cfg_TerminalIdle cfg \<le> maxInt"
    using l duration_range [of "15 * 60 * second" "ho_os h"]
    by (auto simp: Load_def Let_def minInt_def maxInt_def second_def split: if_splits)
  then have "parseDuration (se_fmul se) (duration_String (cfg_TerminalIdle cfg)) = Some (cfg_TerminalIdle cfg)"
    using duration_text_roundtrip [OF assms(6)] by blast
  ultimately show ?thesis
    using assms(5) by (cases "sv_store sv")
      (auto simp: terminalIdle_def hbnd_def hask_def hstore_def hret_def Settings_def query_def exec_def setting_def stored_settings_def sv_db_def
        split: prod.splits)
qed

lemma serve_succeeds:
  assumes "Load (ho_os h) ''server'' = Inr cfg" and "path = cfg_DBPath cfg" and "path \<noteq> memory"
    and "\<not> ho_mkdir_fails h path" and "\<not> ho_sqlOpen_fails h path" and "\<And>k. \<not> engine_fails (ho_env h) k"
    and "builtin_names_free (w_disk w path)" and "\<forall>kv\<in>set (ho_range h (default_settings cfg)). setting_ok kv"
  shows "\<exists>sv w'. server_main [prog] g h w = (Listening cfg sv, w')"
proof -
  obtain k d1 where o: "Open (ho_env h) (w_step w, w_disk w path) = (Inr (), k, d1)"
    using Open_succeeds [OF assms(6,7)] by blast
  obtain n d where s: "EnsureSettings (ho_range h (default_settings cfg)) (ho_env h) (k, d1) = (Inr (), n, d)"
    using EnsureSettings_succeeds [OF assms(6,8)] by blast
  have "with_store path (EnsureSettings (ho_range h (default_settings cfg))) h w
      = (Inr ((), n, d), w\<lparr>w_step := n, w_disk := (w_disk w)(path := d)\<rparr>)"
    using o s assms(4,5) by (simp add: with_store_ok [OF assms(3)])
  then show ?thesis
    using assms(1) by (simp add: server_main_def serve_def cbnd_def clift_def cret_def assms(2))
qed

section \<open>Examples\<close>

definition demo_host :: host where
  "demo_host = \<lparr>ho_os = plain_os, ho_env = calm_env\<lparr>argon2 := (\<lambda>p s t m l k. Some (take k (p @ s @ replicate k (CHR 0x00))))\<rparr>,
     ho_mkdir_fails = (\<lambda>_. False), ho_sqlOpen_fails = (\<lambda>_. False), ho_docker_fails = False, ho_isTerminal = True,
     ho_ReadPassword = (\<lambda>_. Some ''correct horse''), ho_write_fails = (\<lambda>_. False), ho_range = rev\<rparr>"

definition demo_world :: "db \<Rightarrow> world" where
  "demo_world d = \<lparr>w_disk = (\<lambda>_. d), w_step = 0, w_reads = 0, w_writes = 0, w_out = []\<rparr>"

lemma demo_typed: "typed [''--username=root''] demo_host (demo_world d) ''root'' ''correct horse''"
proof -
  have "flag_Parse ''username'' [''--username=root''] [] = Inr (''root'', [])" by code_simp
  moreover have "trimSpace ''root'' = ''root''" by code_simp
  ultimately show ?thesis by (simp add: typed_def demo_host_def)
qed

lemma demo_os:
  "ho_os demo_host = plain_os" "length (load_secret plain_os) = 32"
  "k \<noteq> ''DOCKERVIEW_GATEWAY_SECRET'' \<Longrightarrow> env_or plain_os k v = v"
  "k \<noteq> ''DOCKERVIEW_GATEWAY_SECRET'' \<Longrightarrow> duration plain_os k x = x"
  "k \<noteq> ''DOCKERVIEW_GATEWAY_SECRET'' \<Longrightarrow> integer plain_os k x = x"
  "k \<noteq> ''DOCKERVIEW_GATEWAY_SECRET'' \<Longrightarrow> boolean plain_os k b = b"
  by (simp_all add: demo_host_def plain_os_def load_secret_def env_or_def duration_def parseDuration_def integer_def atoi_def
      boolean_def parseBool_def Let_def)

lemma Load_fields:
  assumes "Load os c = Inr cfg"
  shows "cfg_DBPath cfg = env_or os ''DOCKERVIEW_DB_PATH'' ''./dockerview.db''"
    "cfg_InstanceName cfg = env_or os ''DOCKERVIEW_INSTANCE_NAME'' ''DockerView''"
    "cfg_Environment cfg = env_or os ''DOCKERVIEW_ENVIRONMENT'' ''DEV''"
    "cfg_TerminalIdle cfg = duration os ''DOCKERVIEW_TERMINAL_IDLE_TIMEOUT'' (15 * 60 * second)"
    "cfg_LogTailDefault cfg = integer os ''DOCKERVIEW_LOG_TAIL_DEFAULT'' 500"
    "cfg_SecretMasking cfg = boolean os ''DOCKERVIEW_SECRET_MASKING'' True"
  using assms by (auto simp: Load_def Let_def split: if_splits)

lemma demo_Load: "\<exists>cfg. Load (ho_os demo_host) c = Inr cfg \<and> cfg_DBPath cfg = ''./dockerview.db'' \<and> cfg_TerminalIdle cfg = 900000000000
   \<and> (\<forall>kv\<in>set (default_settings cfg). setting_ok kv)"
proof -
  have "\<exists>cfg. Load plain_os c = Inr cfg" by (simp add: Load_def Let_def demo_os(2))
  then obtain cfg where cfg: "Load plain_os c = Inr cfg" by blast
  have f: "cfg_DBPath cfg = ''./dockerview.db''" "cfg_InstanceName cfg = ''DockerView''" "cfg_Environment cfg = ''DEV''"
    "cfg_TerminalIdle cfg = 900000000000" "cfg_LogTailDefault cfg = 500" "cfg_SecretMasking cfg = True"
    unfolding Load_fields [OF cfg] by (simp_all add: demo_os second_def)
  have "fmtFrac 9 900000000000 False buf = (buf, 900)" for buf
    using fmtFrac_text [of 900000000000 9 buf] by auto
  then have "length (duration_String 900000000000) \<le> 200" "length (itoa 500) \<le> 200"
    by (simp_all add: duration_String_def fmt_seconds_def itoa_def nat_digits.simps)
  with f have "\<forall>kv\<in>set (default_settings cfg). setting_ok kv"
    by (simp add: default_settings_def setting_ok_def allowedSettings_def formatBool_def)
  with cfg f show ?thesis unfolding demo_os by blast
qed

lemma demo_fields:
  "\<not> engine_fails (ho_env demo_host) k" "mset (ho_range demo_host m) = mset m" "\<not> ho_mkdir_fails demo_host path" "\<not> ho_sqlOpen_fails demo_host path"
  "w_disk (demo_world d) path = d" "w_step (demo_world d) = 0" "random (ho_env demo_host) k n = Some (replicate n (char_of (k mod 256)))"
  "argon2 (ho_env demo_host) = (\<lambda>p s t m l k. Some (take k (p @ s @ replicate k (CHR 0x00))))" "set (ho_range demo_host m) = set m"
  by (simp_all add: demo_host_def demo_world_def)

lemma demo_names: "builtin_names_free small_db" "builtin_names_free empty_db"
  by (simp_all add: builtin_names_free_def builtin_roles_def admin_role_row_def nocase_def fold_case_def empty_db_def)

lemma account_command_succeeds:
  assumes "typed args h w name p" and "\<And>k. \<not> ho_write_fails h k" and "Load (ho_os h) ''recovery'' = Inr cfg" and "cfg_DBPath cfg \<noteq> memory"
    and "\<not> ho_mkdir_fails h (cfg_DBPath cfg)" and "\<not> ho_sqlOpen_fails h (cfg_DBPath cfg)"
    and "Open (ho_env h) (w_step w, w_disk w (cfg_DBPath cfg)) = (Inr (), k, d1)" and "op (trimSpace name) p (ho_env h) (k, d1) = (Inr user, n, d)"
  shows "\<exists>w'. account_command usage prompt op msg args h w = (Inr (), w')"
proof -
  have r: "\<exists>v. readHiddenPassword prompt h u = (Inr q, v) \<and> stored v = stored u \<and> w_reads v = Suc (w_reads u)"
    if "ho_ReadPassword h (w_reads u) = Some q" for prompt u q
    using assms(1,2) that
    by (auto simp: readHiddenPassword_def cbnd_def clift_def ccheck_def cret_def ReadPassword_def fprint_def cignore_def stored_def typed_def)
  obtain w1 where 1: "readHiddenPassword prompt h w = (Inr p, w1)" "stored w1 = stored w" "w_reads w1 = Suc (w_reads w)"
    using r [of w p] assms(1) by (auto simp: typed_def)
  obtain w2 where 2: "readHiddenPassword ''Confirm password: '' h w1 = (Inr p, w2)" "stored w2 = stored w1"
    using r [of w1 p] assms(1) 1(3) by (auto simp: typed_def)
  have "with_store (cfg_DBPath cfg) (op (trimSpace name) p) h w2 = (Inr (user, n, d), w2\<lparr>w_step := n, w_disk := (w_disk w2)(cfg_DBPath cfg := d)\<rparr>)"
    using assms(5-8) 1(2) 2(2) by (simp add: with_store_ok [OF assms(4)] stored_def)
  then show ?thesis
    using assms(1-3) 1(1) 2(1) by (simp add: account_command_def cbnd_def clift_def ccheck_def cret_def typed_def fprint_def)
qed

lemma demo_recovery: "\<exists>w'. runPasswordRecovery [''--username=root''] demo_host (demo_world small_db) = (Inr (), w')"
proof -
  obtain cfg where cfg: "Load (ho_os demo_host) ''recovery'' = Inr cfg" "cfg_DBPath cfg = ''./dockerview.db''" using demo_Load by blast
  obtain k d1 where o: "Open (ho_env demo_host) (0, small_db) = (Inr (), k, d1)"
    using Open_succeeds [OF demo_fields(1) demo_names(1)] by blast
  have "opened small_db d1" by (rule rel_stepsD [OF opened_Open o])
  then have d1: "db.users d1 = [admin_user]" "audit_events d1 = []" by (simp_all add: opened_def)
  have t: "trimSpace ''root'' = ''root''" by code_simp
  obtain hash where "HashPassword (argon2 (ho_env demo_host)) (random (ho_env demo_host) k 16) ''correct horse'' = Some (Inr hash)"
    by (simp add: HashPassword_def demo_fields maxPasswordBytes_def)
  then have "\<exists>x n' d'. RecoverPassword ''root'' ''correct horse'' (ho_env demo_host) (k, d1) = (Inr x, n', d')"
    by (rule RecoverPassword_succeeds [where u = admin_user, OF demo_fields(1), rotated 2])
      (simp_all add: d1 ID_def demo_fields nocase_def fold_case_def, simp_all add: admin_user_def)
  then obtain x n d where "RecoverPassword (trimSpace ''root'') ''correct horse'' (ho_env demo_host) (k, d1) = (Inr x, n, d)" unfolding t by blast
  from account_command_succeeds [where op = RecoverPassword, OF demo_typed _ cfg(1) _ _ _ _ this] o show ?thesis
    unfolding commands_share by (simp add: demo_fields cfg(2) memory_def) (simp add: demo_host_def)
qed

theorem recovery_command_witness:
  "\<exists>w' u y m d. runPasswordRecovery [''--username=root''] demo_host (demo_world small_db) = (Inr (), w') \<and> ur_enabled (u :: user_row)
     \<and> open_sessions (w_disk w' ''./dockerview.db'') = close_user (ur_id u) (open_sessions small_db)
     \<and> Authenticate (trimSpace ''root'') ''correct horse'' (ho_env demo_host) (0, w_disk w' ''./dockerview.db'') = (Inr (Some y), m, d)"
proof -
  obtain w' where w': "runPasswordRecovery [''--username=root''] demo_host (demo_world small_db) = (Inr (), w')" using demo_recovery by blast
  obtain cfg where cfg: "Load (ho_os demo_host) ''recovery'' = Inr cfg" "cfg_DBPath cfg = ''./dockerview.db''" using demo_Load by blast
  have m: "''./dockerview.db'' \<noteq> memory" by (simp add: memory_def)
  have r: "\<forall>k salt. random (ho_env demo_host) k 16 = Some salt \<longrightarrow> length salt = 16"
    and l: "\<forall>p salt x. argon2 (ho_env demo_host) p salt 3 65536 2 32 = Some x \<longrightarrow> length x = 32" by (auto simp: demo_fields)
  show ?thesis
    using recovery_command [OF w' cfg(1) cfg(2) [symmetric] m r l] unfolding demo_fields(5)
  proof (elim exE conjE)
    fix name p and u :: user_row
    assume n: "typed [''--username=root''] demo_host (demo_world small_db) name p"
      and u: "ur_enabled u" "open_sessions (w_disk w' ''./dockerview.db'') = close_user (ur_id u) (open_sessions small_db)"
      and a: "\<forall>e m. argon2 e = argon2 (ho_env demo_host) \<and> (\<forall>k. \<not> engine_fails e k) \<longrightarrow>
        (\<exists>y m' d'. Authenticate (trimSpace name) p e (m, w_disk w' ''./dockerview.db'') = (Inr (Some y), m', d') \<and> user_ID y = ur_id u)"
    have t: "name = ''root''" "p = ''correct horse''" using n demo_typed [of small_db] by (simp_all add: typed_def)
    have "\<exists>y m' d'. Authenticate (trimSpace ''root'') ''correct horse'' (ho_env demo_host) (0, w_disk w' ''./dockerview.db'') = (Inr (Some y), m', d')"
      using a [rule_format, of "ho_env demo_host" 0] demo_fields(1) unfolding t by blast
    with w' u show ?thesis by blast
  qed
qed

theorem commands_refuse_witness:
  "fst (server_main [''dockerview-server'', ''reset-password'', ''--username=root''] () (demo_host\<lparr>ho_isTerminal := False\<rparr>) (demo_world small_db)) = Exit 1"
  using commands_refuse [of "[''--username=root'']" "demo_host\<lparr>ho_isTerminal := False\<rparr>" "demo_world small_db" "''reset-password''" "''dockerview-server''" "()"]
  by (simp add: typed_def)

theorem bootstrap_command_witness:
  "\<not> is_ok (fst (runBootstrap [''--username=root''] demo_host (demo_world small_db)))"
proof -
  obtain cfg where cfg: "Load (ho_os demo_host) ''recovery'' = Inr cfg" "cfg_DBPath cfg = ''./dockerview.db''" using demo_Load by blast
  show ?thesis
    using bootstrap_command [OF cfg(1) refl, where args = "[''--username=root'']" and w = "demo_world small_db"] cfg(2)
    by (cases "runBootstrap [''--username=root''] demo_host (demo_world small_db)") (auto simp: demo_fields memory_def is_ok_iff split: sum.splits)
qed

lemma demo_start: "\<exists>cfg sv w'. server_main [''dockerview-server''] () demo_host (demo_world empty_db) = (Listening cfg sv, w')
    \<and> cfg_DBPath cfg = ''./dockerview.db'' \<and> cfg_TerminalIdle cfg = 900000000000"
proof -
  obtain cfg where cfg: "Load (ho_os demo_host) ''server'' = Inr cfg" "cfg_DBPath cfg = ''./dockerview.db''" "cfg_TerminalIdle cfg = 900000000000"
    "\<forall>kv\<in>set (default_settings cfg). setting_ok kv" using demo_Load by blast
  have "\<exists>sv w'. server_main [''dockerview-server''] () demo_host (demo_world empty_db) = (Listening cfg sv, w')"
    by (rule serve_succeeds [OF cfg(1) refl]) (use cfg in \<open>simp_all add: demo_fields demo_names memory_def\<close>)
  with cfg show ?thesis by blast
qed

theorem started_server_sound_witness:
  "\<exists>cfg sv w'. server_main [''dockerview-server''] () demo_host (demo_world empty_db) = (Listening cfg sv, w')
     \<and> 32 \<le> length (cfg_GatewaySecret cfg) \<and> wf_db (sv_db sv) \<and> admin_role (sv_db sv)"
proof -
  obtain cfg sv w' where s: "server_main [''dockerview-server''] () demo_host (demo_world empty_db) = (Listening cfg sv, w')"
    "cfg_DBPath cfg = ''./dockerview.db''" using demo_start by blast
  have "32 \<le> length (cfg_GatewaySecret cfg) \<and> wf_db (sv_db sv) \<and> admin_role (sv_db sv)"
    using started_server_sound [OF s(1) s(2) [symmetric]] wf_empty_db by (simp add: demo_fields memory_def)
  with s(1) show ?thesis by blast
qed

definition demo_idle_env :: "Config \<Rightarrow> unit senv" where
  "demo_idle_env cfg = (demo_env)\<lparr>se_cfg := cfg, se_fmul := exact_fmul\<rparr>"

theorem configured_timeout_in_force_witness:
  "\<exists>cfg sv w'. server_main [''dockerview-server''] () demo_host (demo_world empty_db) = (Listening cfg sv, w')
     \<and> fst (terminalIdle (demo_idle_env cfg) sv) = Inr 900000000000"
proof -
  obtain cfg sv w' where s: "server_main [''dockerview-server''] () demo_host (demo_world empty_db) = (Listening cfg sv, w')"
    "cfg_DBPath cfg = ''./dockerview.db''" "cfg_TerminalIdle cfg = 900000000000" using demo_start by blast
  have "fst (terminalIdle (demo_idle_env cfg) sv) = Inr (cfg_TerminalIdle cfg)"
    by (rule configured_timeout_in_force [OF s(1) s(2) [symmetric]])
      (simp_all add: demo_fields memory_def demo_idle_env_def exact_fmul_exact stored_settings_def empty_db_def)
  with s show ?thesis by auto
qed

end
