(* ===== verification/Server_Responses.thy ===== *)
theory Server_Responses
  imports Server_Theorems
begin

text \<open>
  The type of the HTTP interface: what each route of the server answers.  \<open>answer\<close> is the table of the
  successful answers, one row per route; every request gets an answer of its row, a refusal with an error
  body, or one of the two answers of their own of a throttled login and of a failed upgrade.
\<close>

section \<open>The table of answers\<close>

definition answer :: "route \<Rightarrow> nat \<Rightarrow> sbody \<Rightarrow> bool" where
  "answer route st b = (case route of
       Public p \<Rightarrow> st = 200 \<and> (case p of
           GHealth \<Rightarrow> b = PStatus ''ok''
         | GReady \<Rightarrow> b = PStatus ''ready''
         | GStatus \<Rightarrow> (\<exists>setup i e. b = PSetup setup i e)
         | PLoginRoute \<Rightarrow> (\<exists>u. b = PLogin u))
     | Protected p \<Rightarrow> (case p of
           GMe \<Rightarrow> st = 200 \<and> (\<exists>u. b = PLogin u)
         | GOverview \<Rightarrow> st = 200 \<and> (\<exists>i e n m k cs info. b = POverview i e n m k cs info)
         | GContainers \<Rightarrow> st = 200 \<and> (\<exists>v. b = PJson v)
         | GContainer \<Rightarrow> st = 200 \<and> (\<exists>v risk sys prot. b = PInspect v risk sys prot)
         | GRisk \<Rightarrow> st = 200 \<and> (\<exists>risk. b = PRisk risk)
         | GStats \<Rightarrow> st = 200 \<and> (\<exists>v. b = PJson v)
         | GLogs \<Rightarrow> st = 200 \<and> (\<exists>s. b = PLogs s \<and> length s \<le> maxResponse)
         | GLogsStream \<Rightarrow> st = 200 \<and> (\<exists>s. b = PEvents s)
         | PRestart \<Rightarrow> st = 202 \<and> (\<exists>v. b = PJson v)
         | PTerminalRoute \<Rightarrow> st = 201 \<and> (\<exists>i sh ex. b = PTerminal i sh ex \<and> (\<exists>w. validateShell w = Some sh))
         | GTerminalWS \<Rightarrow> st = 101 \<and> b = PUpgraded
         | GUsers \<Rightarrow> st = 200 \<and> (\<exists>us. b = PUsers us)
         | PUsersRoute \<Rightarrow> st = 201 \<and> (\<exists>u. b = PUser u)
         | PutUser \<Rightarrow> st = 200 \<and> (\<exists>u. b = PReread u)
         | GRoles \<Rightarrow> st = 200 \<and> (\<exists>v. b = PRoles v)
         | PRolesRoute \<Rightarrow> st = 200 \<and> (\<exists>v. b = PRole v)
         | PutRole \<Rightarrow> st = 200 \<and> (\<exists>v. b = PRole v)
         | GPermissions \<Rightarrow> st = 200 \<and> (\<exists>v. b = PPermissions v)
         | GPolicies \<Rightarrow> st = 200 \<and> (\<exists>v. b = PPolicies v)
         | PPoliciesRoute \<Rightarrow> st = 200 \<and> (\<exists>v. b = PPolicy v)
         | PutPolicy \<Rightarrow> st = 200 \<and> (\<exists>v. b = PPolicy v)
         | GAudit \<Rightarrow> st = 200 \<and> (\<exists>v. b = PAudit v)
         | GSettings \<Rightarrow> st = 200 \<and> (\<exists>v. b = PSettings v)
         | PutSettings \<Rightarrow> st = 200 \<and> (\<exists>v. b = PUpdated v)
         | _ \<Rightarrow> st = 204 \<and> b = PEmpty))"

text \<open>The routes that set cookies.\<close>

definition sets_cookies :: "route \<Rightarrow> bool" where
  "sets_cookies route \<longleftrightarrow> route = Public PLoginRoute \<or> route = Protected PLogout"

text \<open>Cookies that the browser sends only to this site, and over TLS when the configuration says so; scripts see the CSRF cookie only.\<close>

definition safe_cookie :: "Config \<Rightarrow> cookie \<Rightarrow> bool" where
  "safe_cookie cfg c \<longleftrightarrow> ck_Path c = ''/'' \<and> ck_SameSiteStrict c \<and> ck_Secure c = cfg_CookieSecure cfg
     \<and> (ck_HttpOnly c \<longleftrightarrow> ck_Name c = ''dv_session'') \<and> ck_Name c \<in> {''dv_session'', ''dv_csrf''}"

definition typed_response :: "Config \<Rightarrow> srequest \<Rightarrow> route \<Rightarrow> sresponse \<Rightarrow> bool" where
  "typed_response cfg r route resp \<longleftrightarrow>
     refusal resp
   \<or> route = Public PLoginRoute \<and> (\<exists>n\<ge>1. resp = respond 429 (PRetry n))
   \<or> route = Protected GTerminalWS \<and> (\<exists>st. sq_refusal r = Some st \<and> resp = respond st PEmpty)
   \<or> answer route (sp_status resp) (sp_body resp) \<and> (\<forall>c\<in>set (sp_cookies resp). safe_cookie cfg c)
     \<and> (if sets_cookies route then map ck_Name (sp_cookies resp) = [''dv_session'', ''dv_csrf''] else sp_cookies resp = [])"

lemma typed_refusal: "refusal resp \<Longrightarrow> typed_response cfg r route resp"
  by (simp add: typed_response_def)

lemma typed_respond: "answer route st b \<Longrightarrow> \<not> sets_cookies route \<Longrightarrow> typed_response cfg r route (respond st b)"
  by (simp add: typed_response_def respond_def)

section \<open>How a handler answers\<close>

definition serves :: "'g senv \<Rightarrow> (sresponse \<Rightarrow> bool) \<Rightarrow> ('g, sresponse) hm \<Rightarrow> bool" where
  "serves se P m \<longleftrightarrow> (\<forall>sv. P (fst (finish m se sv)))"

locale response_type =
  fixes se :: "'g senv" and P :: "sresponse \<Rightarrow> bool"
  assumes P_refusal: "refusal resp \<Longrightarrow> P resp"
begin

lemma s_ret: "P resp \<Longrightarrow> serves se P (hret resp)" "P resp \<Longrightarrow> serves se P (hstop resp)"
  by (simp_all add: serves_def finish_ret finish_stop)

lemma s_problem: "400 \<le> st \<Longrightarrow> serves se P (hstop (problemResponse st code message))"
  by (simp add: s_ret P_refusal)

lemma s_bnd_result:
  assumes "refuses m" and "\<And>x sv s. m se sv = (Inr x, s) \<Longrightarrow> serves se P (f x)"
  shows "serves se P (hbnd m f)"
  unfolding serves_def
proof
  fix sv
  obtain x s where m: "m se sv = (x, s)" by (metis prod.exhaust)
  show "P (fst (finish (hbnd m f) se sv))"
  proof (cases x)
    case (Inl resp)
    with assms(1) m have "refusal resp" unfolding refuses_def by blast
    with m Inl show ?thesis by (simp add: finish_bnd P_refusal)
  next
    case (Inr y)
    with assms(2) m show ?thesis by (simp add: finish_bnd serves_def)
  qed
qed

lemma s_bnd: "refuses m \<Longrightarrow> (\<And>x. serves se P (f x)) \<Longrightarrow> serves se P (hbnd m f)"
  by (rule s_bnd_result)

lemma s_ask: "serves se P (f (g se)) \<Longrightarrow> serves se P (hbnd (hask g) f)"
  by (simp add: serves_def finish_ask)

lemma s_if: "(c \<Longrightarrow> serves se P m) \<Longrightarrow> (\<not> c \<Longrightarrow> serves se P m') \<Longrightarrow> serves se P (if c then m else m')"
  by simp

lemma s_requireCSRF: "serves se P m \<Longrightarrow> serves se P (requireCSRF r sess m)"
  unfolding requireCSRF_def by (auto intro!: s_ask s_bnd refuses_intros)

lemma s_requirePermission: "serves se P m \<Longrightarrow> serves se P (requirePermission p sess m)"
  unfolding requirePermission_def by (auto intro!: s_bnd refuses_intros)

lemma s_requireSession: "(\<And>sess. serves se P (f sess)) \<Longrightarrow> serves se P (requireSession r f)"
  unfolding requireSession_def by (auto intro!: s_bnd s_problem refuses_intros split: option.split)

lemma s_guarded_handler: "serves se P (handler route r sess) \<Longrightarrow> serves se P (guarded_handler route r sess)"
  unfolding guarded_handler_def Let_def
  by (auto intro!: s_requireCSRF s_requirePermission split: prod.split option.split)

end

interpretation typed: response_type se "typed_response cfg r route" for se :: "'g senv" and cfg r route
  by unfold_locales (rule typed_refusal)

lemmas typed_intros = typed.s_ask typed.s_bnd typed.s_if typed.s_ret typed.s_problem

lemma refuses_gw: "refuses (gw_Raw path)" "refuses (gw_Stream path)" "refuses (gw_JSON method path bdy dec)"
  unfolding gw_Raw_def gw_Stream_def gw_JSON_def by (rule refuses_intros)+

lemma refuses_limits: "refuses (hthrottle f)" "refuses (hterminalLimit key)" "refuses (hpasswordLimit key)"
  unfolding hthrottle_def hterminalLimit_def hpasswordLimit_def
  by (intro refuses_bnd refuses_intros, simp add: refuses_def split: prod.split)+

lemma refuses_defaults: "refuses defaultLogTail" "refuses terminalIdle" "refuses (log_tail r)"
  unfolding defaultLogTail_def terminalIdle_def log_tail_def by (auto intro!: refuses_intros)

lemma refuses_authorizeResource: "refuses (authorizeResource r sess action cid)"
  unfolding authorizeResource_def by (rule refuses_authorize)

lemmas refuses_parts = refuses_intros refuses_gw refuses_limits refuses_defaults refuses_settings refuses_authorize refuses_authorizeResource

lemma refuses_relay: "refuses (relay r cid idle evs seen)"
proof -
  have "refuses (inspectResource cid)"
    unfolding inspectResource_def by (auto intro!: refuses_parts)
  then have "refuses (watchdog_tick r cid idle seen)" for seen
    unfolding watchdog_tick_def still_allowed_def by (auto intro!: refuses_parts split: option.split sum.split)
  note tick = this
  show ?thesis
  proof (induction evs arbitrary: seen)
    case (Cons ev evs)
    then show ?case by (cases ev) (auto intro!: refuses_parts tick split: sum.split)
  qed (simp add: refuses_simps)
qed

section \<open>The handlers\<close>

lemma typed_public:
  "serves se (typed_response cfg r (Public GHealth)) (hret (respond 200 (PStatus ''ok'')))"
  "serves se (typed_response cfg r (Public GReady)) ready"
  "serves se (typed_response cfg r (Public GStatus)) status"
  unfolding ready_def status_def
  by (auto intro!: typed_intros refuses_parts typed_respond simp: answer_def sets_cookies_def split: prod.split)

lemma safe_cookies:
  "\<forall>c\<in>set (session_cookies cfg token csrf). safe_cookie cfg c" "\<forall>c\<in>set (clearCookies (cfg_CookieSecure cfg)). safe_cookie cfg c"
  "map ck_Name (session_cookies cfg token csrf) = [''dv_session'', ''dv_csrf'']" "map ck_Name (clearCookies b) = [''dv_session'', ''dv_csrf'']"
  by (simp_all add: session_cookies_def clearCookies_def safe_cookie_def sessionCookie_def csrfCookie_def)

lemma typed_throttled:
  assumes "retryAfter > 0"
  shows "serves se (typed_response cfg r (Public PLoginRoute)) (loginRateLimited r username retryAfter)"
proof -
  have "retry_seconds retryAfter \<ge> 1" using assms by (simp add: retry_seconds_def second_def)
  then show ?thesis
    unfolding loginRateLimited_def Let_def
    by (intro typed_intros refuses_parts) (auto simp: typed_response_def)
qed

lemma issueSession_cookies: "issueSession r u se sv = (Inr cookies, s) \<Longrightarrow> \<exists>token csrf. cookies = session_cookies (se_cfg se) token csrf"
  by (auto simp: issueSession_def run_bnd run_simps split: prod.splits sum.splits)

lemma typed_login: "serves se (typed_response (se_cfg se) r (Public PLoginRoute)) (login r)"
proof -
  have "serves se (typed_response (se_cfg se) r (Public PLoginRoute)) (login_succeeded r u key)" for u key
    unfolding login_succeeded_def
  proof (intro typed.s_bnd [OF refuses_simps(7)] typed.s_bnd_result [OF refuses_issueSession] typed.s_bnd [OF refuses_audit] typed.s_ret(1))
    fix cookies sv s
    assume "issueSession r u se sv = (Inr cookies, s)"
    then obtain token csrf where "cookies = session_cookies (se_cfg se) token csrf" using issueSession_cookies by blast
    then show "typed_response (se_cfg se) r (Public PLoginRoute) \<lparr>sp_status = 200, sp_body = PLogin u, sp_cookies = cookies\<rparr>"
      by (simp add: typed_response_def answer_def sets_cookies_def safe_cookies)
  qed
  moreover have "serves se (typed_response (se_cfg se) r (Public PLoginRoute)) (login_failed r inp key)" for inp key
    unfolding login_failed_def by (intro typed_intros refuses_parts typed_throttled) (auto intro: typed_refusal)
  ultimately show ?thesis
    unfolding login_def login_attempt_def
    by (auto intro!: typed_intros refuses_parts typed_throttled split: option.split sum.split)
qed

lemma typed_logout: "serves se (typed_response (se_cfg se) r (Protected PLogout)) (logout r sess)"
  unfolding logout_def
  by (intro typed_intros refuses_parts)
    (auto intro!: refuses_parts simp: typed_response_def answer_def sets_cookies_def safe_cookies split: option.split)

lemma typed_admin:
  "serves se (typed_response cfg r (Protected GMe)) (me sess)"
  "serves se (typed_response cfg r (Protected GUsers)) users"
  "serves se (typed_response cfg r (Protected PUsersRoute)) (createUser r sess)"
  "serves se (typed_response cfg r (Protected PInvalidate)) (invalidateSessions r sess)"
  "serves se (typed_response cfg r (Protected GRoles)) roles"
  "serves se (typed_response cfg r (Protected DeleteRoleRoute)) (deleteRole r sess)"
  "serves se (typed_response cfg r (Protected GPermissions)) permissions"
  "serves se (typed_response cfg r (Protected GPolicies)) policyList"
  "serves se (typed_response cfg r (Protected DeletePolicyRoute)) (deletePolicy r sess)"
  "serves se (typed_response cfg r (Protected GAudit)) (auditList r)"
  "serves se (typed_response cfg r (Protected GSettings)) settings"
  "serves se (typed_response cfg r (Protected PutSettings)) (updateSettings r sess)"
  unfolding me_def users_def createUser_def invalidateSessions_def roles_def deleteRole_def permissions_def policyList_def
    deletePolicy_def auditList_def settings_def updateSettings_def Let_def
  by (auto intro!: typed_intros refuses_parts typed_respond simp: answer_def sets_cookies_def split: option.split)

lemma typed_saves:
  "route \<in> {PRolesRoute, PutRole} \<Longrightarrow> serves se (typed_response cfg r (Protected route)) (saveRole r' sess)"
  "route \<in> {PPoliciesRoute, PutPolicy} \<Longrightarrow> serves se (typed_response cfg r (Protected route)) (savePolicy r' sess)"
  unfolding saveRole_def savePolicy_def Let_def
  by (auto intro!: typed_intros refuses_parts typed_respond simp: answer_def sets_cookies_def split: option.split)

lemma typed_updateUser: "serves se (typed_response cfg r (Protected PutUser)) (updateUser r sess)"
  unfolding updateUser_def Let_def
  by (auto intro!: typed_intros refuses_parts typed_respond simp: answer_def sets_cookies_def update_problem_def split: option.split)

lemma typed_containers:
  "serves se (typed_response cfg r (Protected GOverview)) (overview sess)"
  "serves se (typed_response cfg r (Protected GContainers)) containers"
  "serves se (typed_response cfg r (Protected GContainer)) (container r sess)"
  "serves se (typed_response cfg r (Protected GRisk)) (containerRisk r sess)"
  "serves se (typed_response cfg r (Protected GStats)) (stats r sess)"
  "serves se (typed_response cfg r (Protected GLogs)) (logs r sess)"
  "serves se (typed_response cfg r (Protected GLogsStream)) (logsStream r sess)"
  "serves se (typed_response cfg r (Protected PRestart)) (restart r sess)"
  unfolding overview_def containers_def container_def show_container_def containerRisk_def stats_def logs_def logsStream_def restart_def Let_def
  by (auto intro!: typed_intros refuses_parts typed_respond simp: answer_def sets_cookies_def split: option.split prod.split sum.split)

lemma typed_createTerminal: "serves se (typed_response cfg r (Protected PTerminalRoute)) (createTerminal r sess)"
  unfolding createTerminal_def Let_def
  by (auto intro!: typed_intros refuses_parts typed_respond simp: answer_def sets_cookies_def split: option.split)

lemma typed_terminalWS: "serves se (typed_response cfg r (Protected GTerminalWS)) (terminalWS r sess)"
proof -
  have up: "typed_response cfg r (Protected GTerminalWS) (respond 101 PUpgraded)"
    by (auto intro!: typed_respond simp: answer_def sets_cookies_def)
  have "serves se (typed_response cfg r (Protected GTerminalWS)) (run_terminal r sess x shell)" for x shell
    unfolding run_terminal_def by (intro typed_intros refuses_parts refuses_relay up)
  moreover have "typed_response cfg r (Protected GTerminalWS) (respond st PEmpty)" if "sq_refusal r = Some st" for st
    using that by (simp add: typed_response_def)
  ultimately show ?thesis
    unfolding terminalWS_def
    by (auto intro!: typed_intros refuses_parts up split: prod.split sum.split option.split)
qed

lemma typed_handler: "serves se (typed_response (se_cfg se) r (Protected route)) (handler route r sess)"
  by (cases route) (simp_all add: handler_def typed_logout typed_admin typed_saves typed_updateUser typed_containers
      typed_createTerminal typed_terminalWS)

text \<open>
  C15: the HTTP interface is typed.  Every request to a route is answered with the status and the kind
  of body that the table gives for it, or refused with a status of at least 400 and an error body; the only
  exceptions are the answer to a throttled login, 429 with a wait of at least one second, and a failed
  upgrade of a terminal connection.  Only a successful login and a logout set cookies, always the
  session's and the CSRF token's, for the whole site, \<open>SameSite=Strict\<close>, \<open>Secure\<close> as configured and
  \<open>HttpOnly\<close> for the session; a log is never longer than the limit and a terminal has one of the permitted shells.
\<close>

theorem responses_typed: "typed_response (se_cfg se) r route (fst (Handle se route r sv))"
proof -
  have "serves se (typed_response (se_cfg se) r (Protected p)) (requireSession r (guarded_handler p r))" for p
    by (intro typed.s_requireSession typed.s_guarded_handler typed_handler)
  moreover have "serves se (typed_response (se_cfg se) r (Public p)) (public_handler p r)" for p
    by (cases p) (simp_all add: public_handler_def typed_public typed_login)
  ultimately show ?thesis by (cases route) (simp_all add: Handle_def serves_def)
qed

end
