(* ===== verification/Server_Static.thy ===== *)
theory Server_Static
  imports Server
begin

text \<open>
  The outer layers of the API server (\<open>src/backend/internal/api/server.go\<close>): the headers, the limit on
  the body, the router with its fallback and the static files.  The functions of \<open>path/filepath\<close> that
  the code calls are those of Unix.  The file system is a parameter: what \<open>os.Stat\<close> says of a name (an
  error, or whether it is a directory) and the entries that \<open>os.ReadDir\<close> lists.
\<close>

section \<open>Package path/filepath\<close>

text \<open>
  The elements of a path after the rules of \<open>Clean\<close>: empty elements and dots are skipped, \<open>..\<close> takes
  back the element before it, and is dropped at the root.  The stack has the last element first.
\<close>

definition clean_step :: "bool \<Rightarrow> string \<Rightarrow> string list \<Rightarrow> string list" where
  "clean_step rooted c st =
     (if c = [] \<or> c = ''.'' then st
      else if c = ''..'' then
        (case st of
           [] \<Rightarrow> if rooted then [] else [c]
         | x # xs \<Rightarrow> if x = ''..'' then c # st else xs)
      else c # st)"

definition rooted :: "string \<Rightarrow> bool" where
  "rooted p \<longleftrightarrow> p \<noteq> [] \<and> hd p = CHR ''/''"

definition path_elems :: "string \<Rightarrow> string list" where
  "path_elems p = rev (fold (clean_step (rooted p)) (split_on (CHR ''/'') p) [])"

fun slashed :: "string list \<Rightarrow> string" where
  "slashed [] = []"
| "slashed [c] = c"
| "slashed (c # d # cs) = c @ CHR ''/'' # slashed (d # cs)"

definition Clean :: "string \<Rightarrow> string" where
  "Clean p = (if rooted p then CHR ''/'' # slashed (path_elems p)
     else if path_elems p = [] then ''.'' else slashed (path_elems p))"

definition Join :: "string list \<Rightarrow> string" where
  "Join elems = (case filter (\<lambda>e. e \<noteq> []) elems of [] \<Rightarrow> [] | es \<Rightarrow> Clean (slashed es))"

text \<open>The name after the last slash, once trailing slashes are removed.\<close>

definition Base :: "string \<Rightarrow> string" where
  "Base p = (if p = [] then ''.''
     else let q = rev (dropWhile (\<lambda>c. c = CHR ''/'') (rev p))
       in if q = [] then ''/'' else rev (takeWhile (\<lambda>c. c \<noteq> CHR ''/'') (rev q)))"

text \<open>The text from the last dot on, if there is one in the last element.\<close>

definition Ext :: "string \<Rightarrow> string" where
  "Ext p = (let s = takeWhile (\<lambda>c. c \<noteq> CHR ''/'') (rev p)
     in if CHR ''.'' \<in> set s then CHR ''.'' # rev (takeWhile (\<lambda>c. c \<noteq> CHR ''.'') s) else [])"

section \<open>Static files\<close>

record filesystem =
  os_Stat :: "string \<Rightarrow> bool option"
  os_ReadDir :: "string \<Rightarrow> (string \<times> bool) list option"

definition hasPrefix :: "string \<Rightarrow> string \<Rightarrow> bool" where
  "hasPrefix s p \<longleftrightarrow> take (length p) s = p"

definition trimSuffix :: "string \<Rightarrow> string \<Rightarrow> string" where
  "trimSuffix s t = (if t \<noteq> [] \<and> length t \<le> length s \<and> drop (length s - length t) s = t then take (length s - length t) s else s)"

text \<open>The loop over the entries: \<open>None\<close> when a second entry matches.\<close>

fun match_entries :: "string \<Rightarrow> string \<Rightarrow> (string \<times> bool) list \<Rightarrow> string option \<Rightarrow> string option option" where
  "match_entries pre ext [] found = Some found"
| "match_entries pre ext ((name, dir) # es) found =
     (if dir \<or> \<not> hasPrefix name pre \<or> Ext name \<noteq> ext then match_entries pre ext es found
      else case found of Some _ \<Rightarrow> None | None \<Rightarrow> match_entries pre ext es (Some name))"

definition resolveHashedAsset :: "filesystem \<Rightarrow> string \<Rightarrow> string \<Rightarrow> string option" where
  "resolveHashedAsset fs staticDir requested =
     (if \<not> hasPrefix requested ''/_astro/'' then None
      else let base = Base requested; ext = Ext base; stem = trimSuffix base ext in
        case last_index_byte (CHR ''.'') stem of
          None \<Rightarrow> None
        | Some dot \<Rightarrow>
            if dot < 1 \<or> ext = [] then None
            else (case os_ReadDir fs (Join [staticDir, ''_astro'']) of
                None \<Rightarrow> None
              | Some entries \<Rightarrow> (case match_entries (take dot stem @ ''.'') ext entries None of
                  Some (Some name) \<Rightarrow> Some (Join [staticDir, ''_astro'', name])
                | _ \<Rightarrow> None)))"

text \<open>The outcome: an answer of the handler itself, or a file for \<open>http.ServeFile\<close> with its cache header.\<close>

datatype static_result = SProblem sresponse | SNotFound | SFile string "string option"

definition static_name :: "filesystem \<Rightarrow> string \<Rightarrow> string \<Rightarrow> string option" where
  "static_name fs staticDir clean =
     (let name = Join [staticDir, clean];
          name = (if os_Stat fs name = Some True then Join [name, ''index.html''] else name)
      in if os_Stat fs name \<noteq> None then Some name
         else case resolveHashedAsset fs staticDir clean of
             Some replacement \<Rightarrow> Some replacement
           | None \<Rightarrow> if Ext clean \<noteq> [] then None else Some (Join [staticDir, ''index.html'']))"

definition static :: "filesystem \<Rightarrow> Config \<Rightarrow> string \<Rightarrow> static_result" where
  "static fs cfg url_path =
     (if hasPrefix url_path ''/api/'' then SProblem (problemResponse 404 ''NOT_FOUND'' ''Endpoint not found'')
      else if \<not> cfg_StaticEnabled cfg then SNotFound
      else let clean = Clean (CHR ''/'' # url_path) in
        case static_name fs (cfg_StaticDir cfg) clean of
          None \<Rightarrow> SNotFound
        | Some name \<Rightarrow> SFile name
            (if Ext name = ''.html'' then Some ''no-store''
             else if hasPrefix clean ''/_astro/'' then Some ''no-cache'' else None))"

section \<open>The router\<close>

definition securityHeaders :: "(string \<times> string) list" where
  "securityHeaders =
     [(''Content-Security-Policy'', ''default-src 'self'; script-src 'self'; style-src 'self'; connect-src 'self' ws: wss:; '' @
         ''img-src 'self' data:; font-src 'self'; object-src 'none'; base-uri 'none'; form-action 'self'; frame-ancestors 'none'' @ [CHR 0x27]),
      (''X-Content-Type-Options'', ''nosniff''),
      (''Referrer-Policy'', ''no-referrer''),
      (''Permissions-Policy'', ''camera=(), microphone=(), geolocation=()'')]"

definition noStore :: "(string \<times> string) list" where
  "noStore = [(''Cache-Control'', ''no-store'')]"

text \<open>
  \<open>http.MaxBytesReader\<close>: the reader gives at most \<open>n\<close> bytes and then an error.  \<open>parse\<close> is what the JSON
  decoder finds in the bytes it can read, given whether these are all.
\<close>

definition bodyLimit :: "int \<Rightarrow> (string \<Rightarrow> bool \<Rightarrow> body) \<Rightarrow> string \<Rightarrow> body" where
  "bodyLimit n parse raw = (if int (length raw) \<le> n then parse raw True else parse (take (nat n) raw) False)"

text \<open>The routes below \<open>/api/v1\<close>.\<close>

definition api_route :: "route \<Rightarrow> bool" where
  "api_route rt \<longleftrightarrow> rt \<noteq> Public GHealth \<and> rt \<noteq> Public GReady"

datatype answer = Answered sresponse | StaticAnswer static_result

text \<open>
  \<open>target\<close> is the row of the route table that \<open>chi\<close> has found for the method and the path, none for the
  fallback.  The headers are those that the middleware sets before the handler runs.
\<close>

definition Router :: "'g senv \<Rightarrow> filesystem \<Rightarrow> (string \<Rightarrow> bool \<Rightarrow> body) \<Rightarrow> string \<Rightarrow> route option \<Rightarrow> string \<Rightarrow> srequest \<Rightarrow> 'g server
    \<Rightarrow> ((string \<times> string) list \<times> answer) \<times> 'g server" where
  "Router se fs parse url_path target raw r sv =
     (let r = r\<lparr>sq_body := bodyLimit (cfg_MaxBodyBytes (se_cfg se)) parse raw\<rparr> in
      case target of
        None \<Rightarrow> ((securityHeaders, StaticAnswer (static fs (se_cfg se) url_path)), sv)
      | Some rt \<Rightarrow> (case Handle se rt r sv of (resp, sv') \<Rightarrow>
          ((securityHeaders @ (if api_route rt then noStore else []), Answered resp), sv')))"

section \<open>Cleaned paths\<close>

text \<open>An element that stands for one step down.\<close>

definition proper :: "string \<Rightarrow> bool" where
  "proper c \<longleftrightarrow> c \<noteq> [] \<and> c \<noteq> ''.'' \<and> c \<noteq> ''..'' \<and> CHR ''/'' \<notin> set c"

text \<open>The stacks that occur: proper elements over the steps up that are left, none of these at the root.\<close>

definition stack_ok :: "bool \<Rightarrow> string list \<Rightarrow> bool" where
  "stack_ok r st \<longleftrightarrow> (\<exists>ns k. st = ns @ replicate k ''..'' \<and> list_all proper ns \<and> (r \<longrightarrow> k = 0))"

lemma clean_step_ok:
  assumes "stack_ok r st" and "CHR ''/'' \<notin> set c"
  shows "stack_ok r (clean_step r c st)"
proof -
  from assms(1) obtain ns k where st: "st = ns @ replicate k ''..''" "list_all proper ns" "r \<longrightarrow> k = 0"
    by (auto simp: stack_ok_def)
  consider "c = [] \<or> c = ''.''" | "c = ''..''" | "proper c" using assms(2) by (auto simp: proper_def)
  then show ?thesis
  proof cases
    case 1
    then show ?thesis using assms(1) by (simp add: clean_step_def)
  next
    case 2
    show ?thesis
    proof (cases ns)
      case Nil
      then have "clean_step r c st = replicate (if r then 0 else Suc k) ''..''"
        using 2 st by (cases k) (auto simp: clean_step_def)
      then show ?thesis unfolding stack_ok_def by (intro exI [of _ "[]"] exI [of _ "if r then 0 else Suc k"]) simp
    next
      case (Cons n ms)
      then have "clean_step r c st = ms @ replicate k ''..''" using 2 st by (simp add: clean_step_def proper_def)
      with Cons st show ?thesis unfolding stack_ok_def by auto
    qed
  next
    case 3
    then have "clean_step r c st = (c # ns) @ replicate k ''..''" using st by (simp add: clean_step_def proper_def)
    with 3 st show ?thesis unfolding stack_ok_def by (intro exI [of _ "c # ns"] exI [of _ k]) simp
  qed
qed

lemma fold_clean_ok: "stack_ok r st \<Longrightarrow> (\<And>c. c \<in> set cs \<Longrightarrow> CHR ''/'' \<notin> set c) \<Longrightarrow> stack_ok r (fold (clean_step r) cs st)"
  by (induction cs arbitrary: st) (auto intro: clean_step_ok)

lemma stack_ok_Nil: "stack_ok r []"
  unfolding stack_ok_def by (intro exI [of _ "[]"] exI [of _ 0]) simp

lemma path_elems_form:
  obtains ns k where "path_elems p = replicate k ''..'' @ ns" "list_all proper ns" "rooted p \<Longrightarrow> k = 0"
proof -
  have "stack_ok (rooted p) (fold (clean_step (rooted p)) (split_on (CHR ''/'') p) [])"
    by (rule fold_clean_ok [OF stack_ok_Nil]) (rule split_on_sep_free)
  then obtain ns k where st: "fold (clean_step (rooted p)) (split_on (CHR ''/'') p) [] = ns @ replicate k ''..''"
    "list_all proper ns" "rooted p \<longrightarrow> k = 0" unfolding stack_ok_def by blast
  show ?thesis
    by (rule that [of k "rev ns"]) (use st in \<open>simp_all add: path_elems_def list_all_iff\<close>)
qed

lemma path_elems_mem:
  assumes "c \<in> set (path_elems p)"
  shows "(c = ''..'' \<or> proper c) \<and> c \<noteq> [] \<and> CHR ''/'' \<notin> set c"
proof -
  obtain ns k where es: "path_elems p = replicate k ''..'' @ ns" "list_all proper ns" using path_elems_form [of p] by blast
  from assms es(1) have "c \<in> set (replicate k ''..'') \<or> c \<in> set ns" by simp
  then have "c = ''..'' \<or> proper c" using es(2) by (metis in_set_replicate list_all_iff)
  then show ?thesis by (auto simp: proper_def)
qed

text \<open>Proper and empty elements only go down.\<close>

lemma fold_clean_down:
  "list_all (\<lambda>c. c = [] \<or> proper c) cs \<Longrightarrow> fold (clean_step r) cs st = rev (filter (\<lambda>c. c \<noteq> []) cs) @ st"
  by (induction cs arbitrary: st) (auto simp: clean_step_def proper_def)

lemma fold_clean_up: "fold (clean_step False) (replicate k ''..'') (replicate j ''..'') = replicate (k + j) ''..''"
proof (induction k arbitrary: j)
  case (Suc k)
  have "clean_step False ''..'' (replicate j ''..'') = replicate (Suc j) ''..''" by (cases j) (simp_all add: clean_step_def)
  with Suc [of "Suc j"] show ?case by simp
qed simp

lemma split_on_app: "split_on c (a @ c # b) = split_on c a @ split_on c b"
  by (induction a) (auto split: list.splits)

lemma split_slashed: "cs \<noteq> [] \<Longrightarrow> list_all (\<lambda>c. CHR ''/'' \<notin> set c) cs \<Longrightarrow> split_on (CHR ''/'') (slashed cs) = cs"
  by (induction cs rule: slashed.induct) (simp_all add: split_on_free split_on_append)

lemma split_slashed_gen: "cs \<noteq> [] \<Longrightarrow> split_on (CHR ''/'') (slashed cs) = concat (map (split_on (CHR ''/'')) cs)"
  by (induction cs rule: slashed.induct) (simp_all add: split_on_app)

lemma rooted_slashed: "c \<noteq> [] \<Longrightarrow> rooted (slashed (c # cs)) = rooted c"
  by (cases cs) (simp_all add: rooted_def)

text \<open>\<open>Clean\<close> does not change what a path means.\<close>

lemma rooted_Clean: "rooted (Clean p) = rooted p"
proof (cases "rooted p \<or> path_elems p = []")
  case False
  then obtain c cs where c: "path_elems p = c # cs" by (cases "path_elems p") auto
  then have "c \<noteq> []" "CHR ''/'' \<notin> set c" using path_elems_mem [of c p] by simp_all
  then have "c \<noteq> []" "\<not> rooted c" by (auto simp: rooted_def dest: hd_in_set)
  with False c show ?thesis by (simp add: Clean_def rooted_slashed)
qed (auto simp: Clean_def rooted_def)

lemma path_elems_Clean: "path_elems (Clean p) = path_elems p"
proof -
  let ?es = "path_elems p" and ?s = "split_on (CHR ''/'')"
  obtain ns k where es: "?es = replicate k ''..'' @ ns" and st: "list_all proper ns" "rooted p \<Longrightarrow> k = 0"
    using path_elems_form [of p] by blast
  have free: "list_all (\<lambda>c. CHR ''/'' \<notin> set c) ?es"
    unfolding list_all_iff using path_elems_mem by blast
  have down: "list_all (\<lambda>c. c = [] \<or> proper c) ns" "filter (\<lambda>c. c \<noteq> []) ns = ns"
    using st(1) unfolding list_all_iff filter_id_conv by (auto simp: proper_def)
  show ?thesis
  proof (cases "rooted p")
    case True
    then have "k = 0" using st(2) by simp
    then have "fold (clean_step True) (?s (slashed ?es)) [] = rev ?es"
      using es free down by (cases "?es = []") (simp_all add: split_slashed fold_clean_down clean_step_def)
    moreover have "?s (Clean p) = [] # ?s (slashed ?es)" using True by (simp add: Clean_def)
    ultimately show ?thesis unfolding path_elems_def [of "Clean p"] rooted_Clean using True by (simp add: clean_step_def)
  next
    case False
    have "fold (clean_step False) (?s (Clean p)) [] = rev ?es"
    proof (cases "?es = []")
      case True
      then show ?thesis using False by (simp add: Clean_def clean_step_def)
    next
      case nonempty: False
      then have "?s (Clean p) = ?es" using False free by (simp add: Clean_def split_slashed)
      then show ?thesis using fold_clean_up [of k 0] down by (simp add: es fold_clean_down)
    qed
    then show ?thesis unfolding path_elems_def [of "Clean p"] rooted_Clean using False by simp
  qed
qed

section \<open>Names below a directory\<close>

definition below :: "string \<Rightarrow> string \<Rightarrow> bool" where
  "below dir name \<longleftrightarrow> rooted name = rooted dir \<and> name \<noteq> [] \<and> (\<exists>rel. path_elems name = path_elems dir @ rel \<and> list_all proper rel)"

text \<open>A path that only goes down: every part between its slashes is proper or empty.\<close>

definition downward :: "string \<Rightarrow> bool" where
  "downward e \<longleftrightarrow> e \<noteq> [] \<and> list_all (\<lambda>c. c = [] \<or> proper c) (split_on (CHR ''/'') e)"

lemma below_Join:
  assumes "dir \<noteq> []" and "list_all downward es"
  shows "below dir (Join (dir # es))"
proof -
  let ?cs = "concat (map (split_on (CHR ''/'')) es)"
  have es: "filter (\<lambda>e. e \<noteq> []) es = es" using assms(2) unfolding filter_id_conv list_all_iff by (simp add: downward_def)
  then have j: "Join (dir # es) = Clean (slashed (dir # es))" using assms(1) by (simp add: Join_def)
  have down: "list_all (\<lambda>c. c = [] \<or> proper c) ?cs" using assms(2) by (auto simp: list_all_iff downward_def)
  have "path_elems (Join (dir # es)) = rev (fold (clean_step (rooted dir)) (split_on (CHR ''/'') dir @ ?cs) [])"
    unfolding j path_elems_Clean unfolding path_elems_def rooted_slashed [OF assms(1)] by (simp add: split_slashed_gen)
  also have "... = path_elems dir @ filter (\<lambda>c. c \<noteq> []) ?cs"
    by (simp only: fold_append comp_apply fold_clean_down [OF down] path_elems_def rev_append rev_rev_ident)
  finally have "path_elems (Join (dir # es)) = path_elems dir @ filter (\<lambda>c. c \<noteq> []) ?cs" .
  moreover have "list_all proper (filter (\<lambda>c. c \<noteq> []) ?cs)" using down by (auto simp: list_all_iff)
  moreover have "Join (dir # es) \<noteq> []"
    using path_elems_mem [of _ "slashed (dir # es)"] unfolding j Clean_def by (cases "path_elems (slashed (dir # es))" rule: slashed.cases) auto
  ultimately show ?thesis unfolding below_def j rooted_Clean rooted_slashed [OF assms(1)] by blast
qed

lemma below_trans: "below d n \<Longrightarrow> below n m \<Longrightarrow> below d m"
  unfolding below_def by (metis append.assoc list_all_append)

lemma downward_Clean: "downward (Clean (CHR ''/'' # p))"
proof -
  let ?p = "CHR ''/'' # p"
  have r: "rooted ?p" by (simp add: rooted_def)
  then obtain ns where ns: "path_elems ?p = ns" "list_all proper ns" using path_elems_form [of ?p] by (metis append_Nil replicate_0)
  then have "split_on (CHR ''/'') (Clean ?p) = [] # (if ns = [] then [[]] else ns)"
    using r split_slashed [of ns] by (simp add: Clean_def list_all_iff proper_def)
  with ns r show ?thesis by (auto simp: downward_def list_all_iff Clean_def)
qed

lemma downward_proper: "proper c \<Longrightarrow> downward c"
  by (simp add: downward_def proper_def split_on_free)

lemma match_entries_mem: "match_entries pre ext es found = Some (Some name) \<Longrightarrow> found = Some name \<or> name \<in> fst ` set es"
  by (induction pre ext es found rule: match_entries.induct) (auto split: if_splits option.splits)

text \<open>
  C29: static files come from the static directory.  Whatever the path of a URL is, the file that is handed to
  \<open>http.ServeFile\<close> is named by the elements of the static directory followed by proper elements only,
  no step up among them.  \<open>os.ReadDir\<close> lists names of entries, without a slash and without the entries
  for the directory itself and its parent.
\<close>

theorem static_confined:
  assumes "cfg_StaticDir cfg \<noteq> []" and "\<And>dir es name isdir. os_ReadDir fs dir = Some es \<Longrightarrow> (name, isdir) \<in> set es \<Longrightarrow> proper name"
    and "static fs cfg url_path = SFile name cache"
  shows "below (cfg_StaticDir cfg) name"
proof -
  let ?d = "cfg_StaticDir cfg" and ?c = "Clean (CHR ''/'' # url_path)"
  have p: "proper ''index.html''" "proper ''_astro''" by (simp_all add: proper_def)
  from assms(3) have n: "static_name fs ?d ?c = Some name" by (auto simp: static_def Let_def split: if_splits option.splits)
  have j: "below ?d (Join [?d, ?c])" "below ?d (Join [?d, ''index.html''])"
    using below_Join [OF assms(1)] downward_Clean downward_proper p by simp_all
  have i: "below ?d (Join [Join [?d, ?c], ''index.html''])"
    using below_trans [OF j(1)] below_Join [of "Join [?d, ?c]" "[''index.html'']"] j(1) downward_proper p by (simp add: below_def)
  have r: "below ?d x" if "resolveHashedAsset fs ?d ?c = Some x" for x
  proof -
    from that obtain dir es nm pre ext where "os_ReadDir fs dir = Some es" "match_entries pre ext es None = Some (Some nm)" "x = Join [?d, ''_astro'', nm]"
      by (auto simp: resolveHashedAsset_def Let_def split: if_splits option.splits)
    then have "proper nm" using assms(2) match_entries_mem by fastforce
    with \<open>x = _\<close> show ?thesis using below_Join [OF assms(1), of "[''_astro'', nm]"] downward_proper p by simp
  qed
  from n j i r show ?thesis by (auto simp: static_name_def Let_def split: if_splits option.splits)
qed

text \<open>A directory with one page and one hashed asset.\<close>

definition demo_files :: filesystem where
  "demo_files = \<lparr>os_Stat = (\<lambda>n. if n = ''/srv'' then Some True else if n = ''/srv/index.html'' then Some False else None),
     os_ReadDir = (\<lambda>n. if n = ''/srv/_astro'' then Some [(''app.b2.js'', False)] else None)\<rparr>"

definition static_config :: Config where
  "static_config = \<lparr>cfg_ListenAddr = [], cfg_GatewayListenAddr = [], cfg_DBPath = [], cfg_StaticDir = ''/srv'', cfg_GatewayURL = [],
     cfg_GatewaySecret = [], cfg_InstanceName = [], cfg_Environment = [], cfg_SessionTTL = 1, cfg_TerminalIdle = 1,
     cfg_LogTailDefault = 1, cfg_CookieSecure = True, cfg_SecretMasking = True, cfg_StaticEnabled = True, cfg_AllowedOrigins = [],
     cfg_MaxBodyBytes = 1\<rparr>"

lemma demo_asset: "static demo_files static_config ''/../_astro/app.a1.js'' = SFile ''/srv/_astro/app.b2.js'' (Some ''no-cache'')"
proof -
  have c: "Clean ''//../_astro/app.a1.js'' = ''/_astro/app.a1.js''" by code_simp
  have n: "static_name demo_files ''/srv'' ''/_astro/app.a1.js'' = Some ''/srv/_astro/app.b2.js''" by code_simp
  have e: "Ext ''/srv/_astro/app.b2.js'' = ''.js''" by code_simp
  show ?thesis by (simp add: static_def static_config_def hasPrefix_def c n e)
qed

theorem static_confined_witness:
  "static demo_files static_config ''/../_astro/app.a1.js'' = SFile ''/srv/_astro/app.b2.js'' (Some ''no-cache'')
     \<and> below ''/srv'' ''/srv/_astro/app.b2.js''"
proof -
  have d: "cfg_StaticDir static_config = ''/srv''" by (simp add: static_config_def)
  have "below (cfg_StaticDir static_config) ''/srv/_astro/app.b2.js''"
    by (rule static_confined [OF _ _ demo_asset]) (auto simp: d demo_files_def proper_def split: if_splits)
  with demo_asset d show ?thesis by simp
qed

end
