(* ===== verification/System.thy ===== *)
theory System
  imports Server_Theorems Gateway
begin

text \<open>
  The two processes together: the server of \<open>server.go\<close> with the gateway of \<open>handler.go\<close> at the other
  end of its client.  The requests of \<open>gateway_client.go\<close> arrive at \<open>Serve\<close>, an open terminal is the
  loop of \<open>attach\<close> taken message by message, and the calls to Docker that a browser's request leads to
  can be read off the trace of the gateway.

  HTTP, the router chi and the WebSocket library are the parameters of the connection: to which route
  and parameters a request is resolved (\<^const>\<open>None\<close> if none matches or the request is lost), what
  arrives of a response, and the handshake that a dial sends.
\<close>

section \<open>The connection\<close>

record link =
  lk_gateway :: gateway
  lk_exec :: "string option"

record network =
  nt_resolve :: "hreq \<Rightarrow> (groute \<times> grequest) option"
  nt_render :: "gresponse \<Rightarrow> hresp go_result"
  nt_attach :: "dialreq \<Rightarrow> grequest"

definition link_http :: "genv \<Rightarrow> network \<Rightarrow> link transport" where
  "link_http ge net rq lk = (case nt_resolve net rq of
       None \<Rightarrow> (Inl (ErrEngine ''http''), lk)
     | Some (rt, gr) \<Rightarrow> (case Serve ge rt gr (lk_gateway lk) of (resp, h) \<Rightarrow> (nt_render net resp, lk\<lparr>lk_gateway := h\<rparr>)))"

text \<open>One turn of the loop of \<open>attach\<close>; the flag says whether the loop goes on.\<close>

definition attach_message :: "genv \<Rightarrow> string \<Rightarrow> ws_message \<Rightarrow> gateway \<Rightarrow> bool \<times> gateway" where
  "attach_message e execID m h = (case m of
       WOther _ \<Rightarrow> (True, h)
     | WBinary msg \<Rightarrow> forward e execID msg h
     | WText msg \<Rightarrow> (case resize_of e msg of
         Some c \<Rightarrow> (True, if ValidateResize (ctl_Cols c) (ctl_Rows c)
           then snd (run_docker (ResizeExec (ge_docker e) execID (ctl_Cols c) (ctl_Rows c)) h) else h)
       | None \<Rightarrow> forward e execID msg h))"

lemma attach_loop_turns:
  "attach_loop e execID (m # ms) h = (case attach_message e execID m h of (go, h) \<Rightarrow> if go then attach_loop e execID ms h else h)"
  by (cases m) (simp_all add: attach_message_def split: option.split)

text \<open>The process that a dial ends up connected to, if any.\<close>

definition attached_exec :: "genv \<Rightarrow> grequest \<Rightarrow> gateway \<Rightarrow> string option" where
  "attached_exec e r h = (case take_ticket e (gr_ticket r) h of
       (Some t, h) \<Rightarrow> if upgrade_refusal r = None \<and> is_ok (fst (run_docker (AttachExec (ge_docker e) (tk_ExecID t)) h))
         then Some (tk_ExecID t) else None
     | (None, h) \<Rightarrow> None)"

definition link_dial :: "genv \<Rightarrow> network \<Rightarrow> dialreq \<Rightarrow> link \<Rightarrow> unit go_result \<times> link" where
  "link_dial ge net dl lk =
     (let gr = (nt_attach net dl)\<lparr>gr_messages := []\<rparr> in
      case Serve ge RAttach gr (lk_gateway lk) of (resp, h) \<Rightarrow>
        if gs_status resp = 101 then (Inr (), \<lparr>lk_gateway = h, lk_exec = attached_exec ge gr (lk_gateway lk)\<rparr>)
        else (Inl (ErrEngine ''websocket: bad handshake''), lk\<lparr>lk_gateway := h\<rparr>))"

definition ws_of :: "nat \<Rightarrow> string \<Rightarrow> ws_message" where
  "ws_of kind msg = (if kind = 1 then WText msg else if kind = 2 then WBinary msg else WOther msg)"

definition link_send :: "genv \<Rightarrow> nat \<Rightarrow> string \<Rightarrow> link \<Rightarrow> unit go_result \<times> link" where
  "link_send ge kind msg lk = (case lk_exec lk of
       None \<Rightarrow> (Inl (ErrEngine ''websocket: closed''), lk)
     | Some execID \<Rightarrow> (case attach_message ge execID (ws_of kind msg) (lk_gateway lk) of
         (go, h) \<Rightarrow> (Inr (), \<lparr>lk_gateway = h, lk_exec = (if go then Some execID else None)\<rparr>)))"

text \<open>The server is connected to the gateway.\<close>

definition connected :: "genv \<Rightarrow> network \<Rightarrow> link senv \<Rightarrow> bool" where
  "connected ge net se \<longleftrightarrow> se_http se = link_http ge net \<and> se_dial se = link_dial ge net \<and> se_send se = link_send ge"

text \<open>
  What the routing promises: the secret is that of the header, and the two acting routes are reached by a
  \<open>POST\<close> to their pattern only; the parameter is the segment between the slashes, if it needs no unescaping.
\<close>

definition routes_to :: "string \<Rightarrow> network \<Rightarrow> bool" where
  "routes_to base net \<longleftrightarrow> (\<forall>rq rt gr. nt_resolve net rq = Some (rt, gr) \<longrightarrow> gr_secret gr = rq_secret rq
     \<and> (rt = RRestart \<or> rt = RExec \<longrightarrow> rq_method rq = ''POST'' \<and> (\<exists>seg.
          rq_url rq = base @ ''/v1/containers/'' @ seg @ (if rt = RRestart then ''/restart'' else ''/exec'')
          \<and> (list_all path_safe seg \<longrightarrow> gr_id gr = seg))))"

lemma routes_toD:
  "routes_to base net \<Longrightarrow> nt_resolve net rq = Some (rt, gr) \<Longrightarrow> rt = RRestart \<or> rt = RExec \<Longrightarrow>
     \<exists>seg. rq_url rq = base @ ''/v1/containers/'' @ seg @ (if rt = RRestart then ''/restart'' else ''/exec'')
       \<and> (list_all path_safe seg \<longrightarrow> gr_id gr = seg)"
  unfolding routes_to_def by blast

section \<open>Which requests act\<close>

abbreviation reading_call :: "docker_call \<Rightarrow> bool" where
  "reading_call c \<equiv> acts_on c = None"

lemma run_docker_reads:
  "only_calls reading_call h (snd (run_docker (Stats m cid) h))" "only_calls reading_call h (snd (run_docker (Logs m cid tail follow) h))"
  "only_calls reading_call h (snd (run_docker (Ping m) h))" "only_calls reading_call h (snd (run_docker (Info m) h))"
  "only_calls reading_call h (snd (run_docker (Gateway_Service.List m) h))" "only_calls reading_call h (snd (run_docker (AttachExec m x) h))"
  "only_calls reading_call h (snd (run_docker (ResizeExec m x c rw) h))" "only_calls reading_call h (snd (run_docker (write_exec m x msg) h))"
  "only_calls reading_call h (snd (run_docker (Inspect m cid) h))"
  by (simp_all add: Inspect_def Stats_def Ping_def Info_def List_def AttachExec_def ResizeExec_def write_exec_def only_calls_docker)
    (auto simp: only_calls_def run_docker_def Logs_def docker_def split: prod.split sum.split bool.split)

lemma inspectRaw_reads: "inspectRaw e r h = (x, h') \<Longrightarrow> only_calls reading_call h h'"
  by (auto simp: inspectRaw_def split: if_splits prod.splits sum.splits intro: run_docker_step [OF run_docker_reads(9)])

lemma forward_reads: "forward e x msg h = (go, h') \<Longrightarrow> only_calls reading_call h h'"
  by (auto simp: forward_def split: if_splits prod.splits sum.splits intro: run_docker_step [OF run_docker_reads(8)])

lemma attach_message_reads: "only_calls reading_call h (snd (attach_message e x m h))"
  by (cases m) (auto simp: attach_message_def run_docker_reads split: option.split intro: forward_reads [OF surjective_pairing])

lemma attach_loop_reads: "only_calls reading_call h (attach_loop e x ms h)"
proof (induction ms arbitrary: h)
  case (Cons m ms)
  have "only_calls reading_call h (snd (attach_message e x m h))" by (rule attach_message_reads)
  with Cons show ?case unfolding attach_loop_turns by (auto split: prod.split intro: only_calls_trans)
qed simp

lemma Serve_reads:
  assumes "rt \<noteq> RRestart" and "rt \<noteq> RExec"
  shows "only_calls reading_call h (snd (Serve e rt r h))"
proof -
  have attach: "only_calls reading_call h (snd (attach e r h))"
  proof -
    obtain t h1 where t: "take_ticket e (gr_ticket r) h = (t, h1)" by (cases "take_ticket e (gr_ticket r) h")
    have h1: "only_calls reading_call h h1" using take_ticket_calls t by (metis snd_conv)
    moreover have "only_calls reading_call h h2" if "run_docker (AttachExec m x) h1 = (y, h2)" for m x y h2
      using only_calls_trans [OF h1 run_docker_step [OF run_docker_reads(6) that]] .
    ultimately show ?thesis
      using t by (auto simp: attach_def split: option.split prod.split sum.split intro: only_calls_trans [OF _ attach_loop_reads])
  qed
  have "only_calls reading_call h (snd (ready e h))" "only_calls reading_call h (snd (info e h))"
    "only_calls reading_call h (snd (list_containers e h))" "only_calls reading_call h (snd (inspect e r h))"
    "only_calls reading_call h (snd (stats e r h))" "only_calls reading_call h (snd (logs e r h))"
    unfolding ready_def info_def list_containers_def inspect_def stats_def logs_def Let_def
    by (auto split: prod.split sum.split dest!: inspectRaw_reads
        intro: run_docker_step [OF run_docker_reads(3)] run_docker_step [OF run_docker_reads(4)] run_docker_step [OF run_docker_reads(5)]
          only_calls_trans [OF _ run_docker_step [OF run_docker_reads(1)]] only_calls_trans [OF _ run_docker_step [OF run_docker_reads(2)]])
  with attach assms show ?thesis by (cases rt) (simp_all add: Serve_def auth_def)
qed

text \<open>The acting routes act on the container of the request, and only for the secret of the gateway.\<close>

definition acts_within :: "string \<Rightarrow> string set \<Rightarrow> gateway \<Rightarrow> gateway \<Rightarrow> bool" where
  "acts_within secret S = only_calls (\<lambda>c. \<forall>cid. acts_on c = Some cid \<longrightarrow> cid \<in> S \<and> 32 \<le> length secret)"

lemma only_calls_mono: "only_calls P h h' \<Longrightarrow> (\<And>c. P c \<Longrightarrow> Q c) \<Longrightarrow> only_calls Q h h'"
  by (auto simp: only_calls_def)

lemma acts_reading: "only_calls reading_call h h' \<Longrightarrow> acts_within secret S h h'"
  unfolding acts_within_def by (elim only_calls_mono) simp

lemma Serve_acts:
  assumes "gr_id r \<in> S"
  shows "acts_within (gr_secret r) S h (snd (Serve e rt r h))"
proof (cases "ConstantTimeSecret (gw_Secret h) (gr_secret r)")
  case True
  then have "32 \<le> length (gr_secret r)" by (simp add: ConstantTimeSecret_iff)
  moreover have "only_calls (guarded_call e r h) h (snd (Serve e rt r h))"
    using guarded_handlers [of e r h, unfolded guarded_def] by (cases rt) (simp_all add: Serve_def auth_def)
  ultimately show ?thesis
    unfolding acts_within_def using assms by (elim only_calls_mono) (auto simp: guarded_call_def)
next
  case False
  then have "Serve e rt r h = (problem 401 ''UNAUTHORIZED'' ''Invalid gateway credentials'', h)" if "rt \<in> {RRestart, RExec}"
    using that by (auto simp: Serve_def auth_def)
  then show ?thesis
    by (cases "rt \<in> {RRestart, RExec}") (auto simp: acts_within_def intro!: acts_reading [unfolded acts_within_def] Serve_reads)
qed

section \<open>Which actions of the client act\<close>

abbreviation link_acts :: "link senv \<Rightarrow> string set \<Rightarrow> link \<Rightarrow> link \<Rightarrow> bool" where
  "link_acts se S g g' \<equiv> acts_within (gc_Secret (gateway_client se)) S (lk_gateway g) (lk_gateway g')"

lemma link_dial_reads: "only_calls reading_call (lk_gateway g) (lk_gateway (snd (link_dial ge net dl g)))"
  using Serve_reads [of RAttach "lk_gateway g" ge "(nt_attach net dl)\<lparr>gr_messages := []\<rparr>"]
  by (auto simp: link_dial_def Let_def split: prod.split)

lemma link_send_reads: "only_calls reading_call (lk_gateway g) (lk_gateway (snd (link_send ge kind msg g)))"
  using attach_message_reads [of "lk_gateway g" ge] by (auto simp: link_send_def split: option.split prod.split) (metis snd_conv)

lemma link_http_acts:
  assumes "\<And>rt gr. nt_resolve net rq = Some (rt, gr) \<Longrightarrow> gr_secret gr = rq_secret rq \<and> (rt = RRestart \<or> rt = RExec \<longrightarrow> gr_id gr \<in> S)"
  shows "acts_within (rq_secret rq) S (lk_gateway g) (lk_gateway (snd (link_http ge net rq g)))"
proof (cases "nt_resolve net rq")
  case None
  then show ?thesis by (simp add: link_http_def acts_within_def)
next
  case (Some p)
  obtain rt gr where p: "p = (rt, gr)" by (cases p)
  with Some assms have a: "gr_secret gr = rq_secret rq" "rt = RRestart \<or> rt = RExec \<longrightarrow> gr_id gr \<in> S" by auto
  have "acts_within (rq_secret rq) S (lk_gateway g) (snd (Serve ge rt gr (lk_gateway g)))"
    using Serve_acts [of gr S "lk_gateway g" ge rt] acts_reading [OF Serve_reads [of rt "lk_gateway g" ge gr]] a by (cases "rt = RRestart \<or> rt = RExec") auto
  then show ?thesis using Some p by (auto simp: link_http_def split: prod.split)
qed

text \<open>Reading requests, dials and messages do not act; a restart or an exec acts on its container.\<close>

lemma client_actions:
  assumes "connected ge net se" and "routes_to (gc_BaseURL (gateway_client se)) net"
  shows "is_read se a \<Longrightarrow> link_acts se S g (gw_do se a g)"
    and "link_acts se S g (gw_do se (ADial dl) g)" and "link_acts se S g (gw_do se (ASend kind msg) g)"
    and "ValidateContainerID cid \<Longrightarrow> link_acts se {cid} g (gw_do se (restart_request se cid) g)"
    and "ValidateContainerID cid \<Longrightarrow> link_acts se {cid} g (gw_do se (exec_request se cid shell) g)"
proof -
  show "link_acts se S g (gw_do se (ADial dl) g)" "link_acts se S g (gw_do se (ASend kind msg) g)"
    using assms(1) link_dial_reads link_send_reads by (auto simp: connected_def intro: acts_reading)
  show "link_acts se S g (gw_do se a g)" if "is_read se a"
  proof -
    from that obtain path stream where a: "a = client_request se ''GET'' path None stream" by (auto simp: is_read_def)
    define rq where "rq = \<lparr>rq_method = ''GET'', rq_url = gc_BaseURL (gateway_client se) @ path,
      rq_secret = gc_Secret (gateway_client se), rq_body = None, rq_stream = stream\<rparr>"
    have "gr_secret gr = rq_secret rq \<and> (rt = RRestart \<or> rt = RExec \<longrightarrow> gr_id gr \<in> S)" if "nt_resolve net rq = Some (rt, gr)" for rt gr
      using assms(2) that unfolding routes_to_def by (fastforce simp: rq_def)
    from link_http_acts [OF this, where g = g and ge = ge] show ?thesis
      using assms(1) by (simp add: a client_request_def connected_def rq_def)
  qed
  have post: "link_acts se {cid} g (gw_do se (client_request se ''POST'' (gatewayContainerPath cid t) b False) g)"
    if v: "ValidateContainerID cid" and t: "t = ''/restart'' \<or> t = ''/exec''" for t b
  proof -
    define rq where "rq = \<lparr>rq_method = ''POST'', rq_url = gc_BaseURL (gateway_client se) @ gatewayContainerPath cid t,
      rq_secret = gc_Secret (gateway_client se), rq_body = b, rq_stream = False\<rparr>"
    have safe: "list_all path_safe cid" using v container_char_safe by (auto simp: ValidateContainerID_def list_all_iff split: if_splits)
    have differ: "seg @ ''/exec'' \<noteq> cid @ ''/restart''" "seg @ ''/restart'' \<noteq> cid @ ''/exec''" for seg :: string
      by (auto dest!: arg_cong [of _ _ last])
    have "gr_secret gr = rq_secret rq \<and> (rt = RRestart \<or> rt = RExec \<longrightarrow> gr_id gr \<in> {cid})" if r: "nt_resolve net rq = Some (rt, gr)" for rt gr
    proof -
      have "gr_id gr = cid" if "rt = RRestart \<or> rt = RExec"
      proof -
        from routes_toD [OF assms(2) r that] obtain seg where
          u: "rq_url rq = gc_BaseURL (gateway_client se) @ ''/v1/containers/'' @ seg @ (if rt = RRestart then ''/restart'' else ''/exec'')"
          and seg: "list_all path_safe seg \<longrightarrow> gr_id gr = seg" by blast
        have "rq_url rq = gc_BaseURL (gateway_client se) @ ''/v1/containers/'' @ cid @ t"
          unfolding rq_def gatewayContainerPath_def pathEscape_valid [OF v] by simp
        with u have "seg @ (if rt = RRestart then ''/restart'' else ''/exec'') = cid @ t" unfolding append_assoc by simp
        with seg t differ safe show ?thesis by (auto split: if_splits)
      qed
      then show ?thesis using assms(2) r unfolding routes_to_def by blast
    qed
    from link_http_acts [OF this, where g = g and ge = ge] show ?thesis
      using assms(1) by (simp add: client_request_def connected_def rq_def)
  qed
  show "link_acts se {cid} g (gw_do se (restart_request se cid) g)" "link_acts se {cid} g (gw_do se (exec_request se cid shell) g)"
    if "ValidateContainerID cid" using post [OF that] by blast+
qed

section \<open>From a request to the engine\<close>

lemma acts_trans: "acts_within k S h h' \<Longrightarrow> acts_within k S h' h'' \<Longrightarrow> acts_within k S h h''"
  unfolding acts_within_def by (rule only_calls_trans)

lemma gw_relation_acts:
  assumes "connected ge net se" and "routes_to (gc_BaseURL (gateway_client se)) net"
    and "gw_relation Q se sv sv'" and "\<And>a g. Q se a \<Longrightarrow> link_acts se S g (gw_do se a g)"
  shows "link_acts se S (sv_gateway sv) (sv_gateway sv')"
  using assms(3) unfolding gw_relation_def
proof (induction rule: rtranclp_induct)
  case (step g g')
  then have "link_acts se S g g'" using client_actions(1) [OF assms(1,2)] assms(4) by (auto simp: gw_step_def)
  with step show ?case by (blast intro: acts_trans)
qed (simp add: acts_within_def)

context server_gateway
begin

text \<open>What the two acting handlers do after the authorization.\<close>

lemma h_restart_rest:
  assumes "\<And>se. Q se (restart_request se cid)"
  shows "handles R (hbnd (gw_JSON ''POST'' (gatewayContainerPath cid ''/restart'') (Some (JObj [])) Some) (\<lambda>res.
    case res of
      Inl _ \<Rightarrow> hbnd (audit r (Some sess) user ''CONTAINER_RESTART'' ''container'' cid ''failed'' ''gateway rejected'' None) (\<lambda>_. hstop bad)
    | Inr out \<Rightarrow> hbnd (audit r (Some sess) user ''CONTAINER_RESTART'' ''container'' cid ''success'' [] None) (\<lambda>_. hret (ok out))))"
  unfolding gw_JSON_def by (intro h_bnd h_gateway [OF snd_gc(4) assms]) (auto intro!: h_intros split: sum.split)

lemma h_terminal_rest:
  assumes "\<And>se kind msg. Q se (ASend kind msg)" and "\<And>se dl. Q se (ADial dl)" and "\<And>se. Q se (exec_request se (term_ContainerID x) (term_Shell x))"
  shows "handles R (hbnd (hgateway (\<lambda>se. gc_CreateExec (se_http se) (se_decode se) (gateway_client se) (term_ContainerID x) (term_Shell x))) (\<lambda>res.
     case res of
       Inl _ \<Rightarrow> hbnd (hstore (TouchTerminal (term_ID x) ''ended'')) (\<lambda>_. hstop bad)
     | Inr (ticket, shell) \<Rightarrow>
         (case sq_refusal r of
           Some st \<Rightarrow> hstop (respond st PEmpty)
         | None \<Rightarrow> hbnd (hgateway (\<lambda>se. gc_DialExec (se_dial se) (gateway_client se) ticket)) (\<lambda>res. case res of
             Inl _ \<Rightarrow> hbnd (hstore (TouchTerminal (term_ID x) ''ended'')) (\<lambda>_. hstop (respond 101 PUpgraded))
           | Inr _ \<Rightarrow> run_terminal r sess x shell))))"
proof -
  have "handles R (run_terminal r sess x shell)" for shell
    unfolding run_terminal_def by (intro h_intros h_relay assms)
  moreover have "handles R (hgateway (\<lambda>se. gc_DialExec (se_dial se) (gateway_client se) ticket))" for ticket
    unfolding gc_DialExec_def by (rule h_gateway [where a = "\<lambda>se. ADial \<lparr>dl_base = gc_BaseURL (gateway_client se),
      dl_path = ''/v1/exec/'' @ pathEscape ticket, dl_secret = gc_Secret (gateway_client se)\<rparr>"]) (simp_all only: gw_do.simps assms(2))
  moreover have "handles R (hgateway (\<lambda>se. gc_CreateExec (se_http se) (se_decode se) (gateway_client se) (term_ContainerID x) (term_Shell x)))"
    unfolding gc_CreateExec_def gatewayContainerPath_def [symmetric] by (rule h_gateway [OF snd_gc(4) assms(3)])
  ultimately show ?thesis by (auto intro!: h_intros split: sum.split option.split)
qed

end

text \<open>An authorization comes first, and what follows acts on its container only.\<close>

lemma authorization_first:
  assumes "connected ge net se" and "routes_to (gc_BaseURL (gateway_client se)) net"
    and "finish (hbnd (authorizeResource r sess action cid) f) se sv = (resp, sv')"
    and "\<And>x. handles (gw_relation Q) (f x)" and "\<And>a g. ValidateContainerID cid \<Longrightarrow> Q se a \<Longrightarrow> link_acts se {cid} g (gw_do se a g)"
  shows "link_acts se {} (sv_gateway sv) (sv_gateway sv')
    \<or> (\<exists>v. authorized se sv (session_User sess) action cid v) \<and> link_acts se {cid} (sv_gateway sv) (sv_gateway sv')"
proof -
  obtain x s where a: "authorizeResource r sess action cid se sv = (x, s)" by (cases "authorizeResource r sess action cid se sv")
  have "gw_relation (\<lambda>_ _. False) se sv s"
    using gateway_side.h_authorize(2) [of "\<lambda>_ _. False"] a unfolding handles_def by (metis snd_conv)
  then have s: "link_acts se S (sv_gateway sv) (sv_gateway s)" for S by (rule gw_relation_acts [OF assms(1,2)]) simp
  show ?thesis
  proof (cases x)
    case (Inl r1)
    with a assms(3) s [of "{}"] show ?thesis by (simp add: finish_bnd)
  next
    case (Inr y)
    obtain v res where y: "y = (v, res)" by (cases y)
    have ok: "authorized se sv (session_User sess) action cid v"
      using authorize_ok a unfolding authorizeResource_def Inr y by blast
    then have valid: "ValidateContainerID cid" by (simp add: authorized_def)
    have f: "finish (f y) se s = (resp, sv')" using assms(3) a Inr by (simp add: finish_bnd)
    have "gw_relation Q se s sv'" using gateway_side.h_finish [where se = se and sv = s, OF assms(4) [of y]] f by simp
    then have "link_acts se {cid} (sv_gateway s) (sv_gateway sv')"
      by (rule gw_relation_acts [OF assms(1,2)]) (use assms(5) valid in blast)
    with s [of "{cid}"] ok show ?thesis by (blast intro: acts_trans)
  qed
qed

text \<open>The request comes from a page of the application.\<close>

definition own_page :: "'g senv \<Rightarrow> srequest \<Rightarrow> Session \<Rightarrow> bool" where
  "own_page se r sess \<longleftrightarrow> (sq_origin r = [] \<or> sq_origin r \<in> set (cfg_AllowedOrigins (se_cfg se)))
     \<and> (TokenHash (sha256 (se_env se)) (sq_csrf_header r) = session_CSRFHash sess
       \<or> TokenHash (sha256 (se_env se)) (sq_csrf_query r) = session_CSRFHash sess)"

lemma csrf_own_page: "csrf_ok se r sess \<Longrightarrow> own_page se r sess"
  by (auto simp: csrf_ok_def own_page_def csrf_provided_def split: if_splits)

text \<open>What a request that acts has passed on the server.\<close>

definition passed :: "'g senv \<Rightarrow> srequest \<Rightarrow> 'g server \<Rightarrow> string \<Rightarrow> string \<Rightarrow> bool" where
  "passed se r sv action cid \<longleftrightarrow> (\<exists>token sess st st' v. sq_cookie r = Some token
     \<and> ResolveSession token (se_env se) (sv_store sv) = (Inr sess, st) \<and> own_page se r sess
     \<and> only_activity (sv_db sv) (snd st')
     \<and> authorized se (sv\<lparr>sv_store := st'\<rparr>) (session_User sess) action cid v)"

lemma passedI:
  "sq_cookie r = Some token \<Longrightarrow> ResolveSession token (se_env se) (sv_store sv) = (Inr sess, st) \<Longrightarrow> own_page se r sess \<Longrightarrow>
    only_activity (sv_db sv) (snd st') \<Longrightarrow> authorized se (sv\<lparr>sv_store := st'\<rparr>) (session_User sess) action cid v \<Longrightarrow> passed se r sv action cid"
  unfolding passed_def by blast

lemma GetTerminal_reads: "rel_steps (=) (GetTerminal tid uid)"
  unfolding GetTerminal_def by (intro reading.steps_intros)

lemma restart_acts:
  assumes "connected ge net se" and "routes_to (gc_BaseURL (gateway_client se)) net"
    and "finish (Server_Containers.restart r sess) se sv = (resp, sv')"
  shows "link_acts se {} (sv_gateway sv) (sv_gateway sv')
    \<or> (\<exists>v. authorized se sv (session_User sess) ''container.restart'' (sq_param r) v) \<and> link_acts se {sq_param r} (sv_gateway sv) (sv_gateway sv')"
  using assms(3) unfolding Server_Containers.restart_def Let_def
  by (rule authorization_first [OF assms(1,2), where Q = "\<lambda>se a. a = restart_request se (sq_param r)"])
    (auto intro!: gateway_side.h_restart_rest client_actions(4) [OF assms(1,2)])

lemma terminal_acts:
  assumes "connected ge net se" and "routes_to (gc_BaseURL (gateway_client se)) net"
    and "finish (terminalWS r sess) se sv = (resp, sv')"
  shows "link_acts se {} (sv_gateway sv) (sv_gateway sv')
    \<or> (\<exists>n cid v. own_page se r sess \<and> authorized se (sv\<lparr>sv_store := (n, sv_db sv)\<rparr>) (session_User sess) ''container.exec'' cid v
         \<and> link_acts se {cid} (sv_gateway sv) (sv_gateway sv'))"
proof (cases "originAllowed (se_cfg se) r \<and> TokenHash (sha256 (se_env se)) (sq_csrf_query r) = session_CSRFHash sess")
  case False
  with assms(3) show ?thesis
    by (auto simp: terminalWS_def finish_ask finish_guard constantTimeCompare_iff acts_within_def split: if_splits)
next
  case True
  then have page: "own_page se r sess" by (auto simp: own_page_def originAllowed_def list_ex_iff split: if_splits)
  let ?m = "hstore (GetTerminal (sq_param r) (user_ID (session_User sess)))"
  obtain y s where y: "?m se sv = (y, s)" by (cases "?m se sv")
  then obtain n where s: "s = sv\<lparr>sv_store := (n, sv_db sv)\<rparr>" using hstore_reading [OF GetTerminal_reads] by blast
  show ?thesis
  proof (cases "\<exists>x. y = Inr (Inr x)")
    case False
    then have "sv' = s" using assms(3) True y
      by (cases y) (auto simp: terminalWS_def finish_ask finish_guard constantTimeCompare_iff finish_bnd [of "hcheck bad m" for bad m] run_check
          split: sum.splits)
    then show ?thesis by (simp add: s acts_within_def)
  next
    case x: True
    then obtain x where x: "y = Inr (Inr x)" by blast
    let ?cid = "term_ContainerID x"
    have "finish (hbnd (authorizeResource r sess ''container.exec'' ?cid) (\<lambda>_.
       hbnd (hgateway (\<lambda>se. gc_CreateExec (se_http se) (se_decode se) (gateway_client se) ?cid (term_Shell x))) (\<lambda>res.
       case res of
         Inl _ \<Rightarrow> hbnd (hstore (TouchTerminal (term_ID x) ''ended'')) (\<lambda>_. hstop (problemResponse 502 ''EXEC_FAILED'' ''Unable to create Docker exec''))
       | Inr (ticket, shell) \<Rightarrow>
           (case sq_refusal r of
             Some st \<Rightarrow> hstop (respond st PEmpty)
           | None \<Rightarrow> hbnd (hgateway (\<lambda>se. gc_DialExec (se_dial se) (gateway_client se) ticket)) (\<lambda>res. case res of
               Inl _ \<Rightarrow> hbnd (hstore (TouchTerminal (term_ID x) ''ended'')) (\<lambda>_. hstop (respond 101 PUpgraded))
             | Inr _ \<Rightarrow> run_terminal r sess x shell))))) se s = (resp, sv')"
      using assms(3) True y x
      by (simp add: terminalWS_def finish_ask finish_guard constantTimeCompare_iff finish_bnd [of "hcheck bad m" for bad m] run_check)
    then have "link_acts se {} (sv_gateway s) (sv_gateway sv')
      \<or> (\<exists>v. authorized se s (session_User sess) ''container.exec'' ?cid v) \<and> link_acts se {?cid} (sv_gateway s) (sv_gateway sv')"
      by (rule authorization_first [OF assms(1,2),
            where Q = "\<lambda>se a. a = exec_request se ?cid (term_Shell x) \<or> (\<exists>dl. a = ADial dl) \<or> (\<exists>kind msg. a = ASend kind msg)"])
        (auto intro!: gateway_side.h_terminal_rest client_actions(2,3,5) [OF assms(1,2)] simp del: gw_do.simps)
    with page s show ?thesis by auto
  qed
qed

lemma acting_request:
  assumes "connected ge net se" and "routes_to (gc_BaseURL (gateway_client se)) net" and "Handle se route r sv = (resp, sv')"
  shows "link_acts se {} (sv_gateway sv) (sv_gateway sv')
    \<or> (\<exists>action cid. (route = Protected PRestart \<and> action = ''container.restart'' \<and> cid = sq_param r
          \<or> route = Protected GTerminalWS \<and> action = ''container.exec'')
        \<and> passed se r sv action cid \<and> link_acts se {cid} (sv_gateway sv) (sv_gateway sv'))"
proof (cases "route = Protected PRestart \<or> route = Protected GTerminalWS")
  case False
  have "gw_relation (\<lambda>_ _. False) se sv sv'"
    using gateway_side.Handle_R [of route "\<lambda>_ _. False" r se sv] assms(3) False gateway_side.h_handler by fastforce
  then show ?thesis by (intro disjI1) (rule gw_relation_acts [OF assms(1,2)], simp_all)
next
  case True
  then obtain p where p: "route = Protected p" "p = PRestart \<or> p = GTerminalWS" by blast
  from Handle_protected [OF assms(3) [unfolded p(1)]] show ?thesis
  proof (elim disjE conjE exE)
    assume "sv' = sv\<lparr>sv_store := sv_store sv'\<rparr>"
    then have "sv_gateway sv' = sv_gateway sv" by (metis server.select_convs(2) server.surjective server.update_convs(1))
    then show ?thesis by (simp add: acts_within_def)
  next
    fix token sess st
    let ?sv = "sv\<lparr>sv_store := st\<rparr>"
    assume t: "sq_cookie r = Some token" "ResolveSession token (se_env se) (sv_store sv) = (Inr sess, st)" "only_activity (sv_db sv) (snd st)"
      and g: "guards_hold se p r sess" and f: "finish (handler p r sess) se ?sv = (resp, sv')"
    show ?thesis
    proof (cases "p = PRestart")
      case True
      then have "own_page se r sess" using g by (auto simp: guards_hold_def route_guards_def intro: csrf_own_page)
      then show ?thesis
        using restart_acts [OF assms(1,2), of r sess ?sv resp sv'] f True p(1) passedI [OF t(1,2) _ t(3)] by (auto simp: handler_def)
    next
      case False
      then have q: "p = GTerminalWS" using p(2) by simp
      then have f: "finish (terminalWS r sess) se ?sv = (resp, sv')" using f by (simp add: handler_def)
      from terminal_acts [OF assms(1,2) f] show ?thesis
      proof (elim disjE exE conjE, goal_cases)
        case (2 n cid v)
        have "only_activity (sv_db sv) (snd (n, sv_db ?sv))" using t(3) by (simp add: sv_db_def)
        then have "passed se r sv ''container.exec'' cid" using 2 by (intro passedI [OF t(1,2)]) auto
        with 2 p(1) q show ?case by auto
      qed simp
    qed
  qed
qed

section \<open>An example\<close>

text \<open>An administrator who may restart containers, and a host with one container \<open>abc\<close>.\<close>

definition site_secret :: string where "site_secret = replicate 32 (CHR ''k'')"

definition site_moby :: moby where
  "site_moby = \<lparr>mb_ping = (\<lambda>_. Inr ()), mb_info = (\<lambda>_. Inr None), mb_list = (\<lambda>_. Inr None), mb_inspect = (\<lambda>_ _. Inr (Some (JObj []))),
     mb_stats = (\<lambda>_ _. Inr []), mb_logs = (\<lambda>_ _ _ _. Inr []), mb_tty = (\<lambda>_ _. Inr True), mb_stdcopy = (\<lambda>s. s), mb_restart = (\<lambda>_ _. Inr ()),
     mb_exec_create = (\<lambda>_ _ _ _. Inr []), mb_exec_attach = (\<lambda>_ _ _. Inr ()), mb_exec_inspect = (\<lambda>_ _. Inr 0),
     mb_exec_resize = (\<lambda>_ _ _ _. Inr ()), mb_exec_write = (\<lambda>_ _ _. Inr ())\<rparr>"

definition site_genv :: genv where
  "site_genv = \<lparr>ge_docker = site_moby, ge_clock = (\<lambda>n. n), ge_random = (\<lambda>_ _. None), ge_parse = (\<lambda>_. None)\<rparr>"

definition site_grequest :: "string \<Rightarrow> grequest" where
  "site_grequest secret = \<lparr>gr_secret = secret, gr_id = ''abc'', gr_ticket = [], gr_tail = [], gr_follow = [],
     gr_body = \<lparr>bd_values = [], bd_clean = True\<rparr>, gr_origin = [], gr_refusal = None, gr_messages = []\<rparr>"

definition site_net :: network where
  "site_net = \<lparr>nt_resolve = (\<lambda>rq. if rq_method rq = ''GET'' then Some (RInspect, site_grequest (rq_secret rq))
       else if rq_method rq = ''POST'' \<and> rq_url rq = ''http://gw'' @ ''/v1/containers/'' @ ''abc'' @ ''/restart''
       then Some (RRestart, site_grequest (rq_secret rq)) else None),
     nt_render = (\<lambda>resp. Inr \<lparr>rs_status = gs_status resp, rs_body = [], rs_broken = False\<rparr>),
     nt_attach = (\<lambda>dl. site_grequest (dl_secret dl))\<rparr>"

definition site_env :: "link senv" where
  "site_env = \<lparr>se_env = calm_env, se_cfg = demo_config\<lparr>cfg_GatewaySecret := site_secret\<rparr>, se_http = link_http site_genv site_net,
     se_dial = link_dial site_genv site_net, se_send = link_send site_genv, se_decode = (\<lambda>_. Some JNull),
     se_unmarshal = (\<lambda>_. Some JNull), se_fmul = (\<lambda>_ _ _. 0), se_sprint = (\<lambda>_. []), se_ToLower = (\<lambda>s. s)\<rparr>"

definition site_db :: db where
  "site_db = (demo_db None)\<lparr>role_permissions := [(''role-admin'', ''container.restart'')]\<rparr>"

definition site_link :: "docker_call list \<Rightarrow> link" where
  "site_link cs = \<lparr>lk_gateway = \<lparr>gw_Secret = site_secret, gw_tickets = [], gw_engine = \<lparr>en_step = length cs, en_calls = cs\<rparr>\<rparr>, lk_exec = None\<rparr>"

definition site_server :: "link server" where
  "site_server = New (0, site_db) (site_link [])"

lemma site_connected: "connected site_genv site_net site_env"
  by (simp add: connected_def site_env_def)

lemma site_client: "gateway_client site_env = \<lparr>gc_BaseURL = ''http://gw'', gc_Secret = site_secret\<rparr>"
  by (simp add: gateway_client_def site_env_def demo_config_def NewGatewayClient_def trimRight_slash_def)

lemma site_routes: "routes_to (gc_BaseURL (gateway_client site_env)) site_net"
  unfolding routes_to_def
proof (intro allI impI conjI)
  fix rq rt gr
  assume r: "nt_resolve site_net rq = Some (rt, gr)"
  then show "gr_secret gr = rq_secret rq" by (auto simp: site_net_def site_grequest_def split: if_splits)
  assume "rt = RRestart \<or> rt = RExec"
  with r have *: "rt = RRestart" "rq_method rq = ''POST''" "gr_id gr = ''abc''" "rq_url rq = ''http://gw'' @ ''/v1/containers/'' @ ''abc'' @ ''/restart''"
    by (auto simp: site_net_def site_grequest_def split: if_splits)
  then show "rq_method rq = ''POST''"
    "\<exists>seg. rq_url rq = gc_BaseURL (gateway_client site_env) @ ''/v1/containers/'' @ seg @ (if rt = RRestart then ''/restart'' else ''/exec'')
      \<and> (list_all path_safe seg \<longrightarrow> gr_id gr = seg)"
    by (auto simp: site_client intro: exI [of _ "''abc''"])
qed

lemma site_secret_ok: "ConstantTimeSecret site_secret site_secret"
  by (simp add: ConstantTimeSecret_iff site_secret_def)

lemma site_valid: "ValidateContainerID ''abc''"
  by (simp add: ValidateContainerID_def container_char_def)

lemma site_not_labelled: "\<not> IsSystem (Some (JObj []))" "\<not> IsProtected (Some (JObj []))"
  by (simp_all add: IsSystem_def IsProtected_def hasEnabledLabel_def labels_of_def decode_struct_def equalFold_def)

lemma site_get:
  "se_http site_env \<lparr>rq_method = ''GET'', rq_url = u, rq_secret = site_secret, rq_body = b, rq_stream = st\<rparr> (site_link cs)
     = (Inr \<lparr>rs_status = 200, rs_body = [], rs_broken = False\<rparr>, site_link (cs @ [CContainerInspect ''abc'']))"
  using site_secret_ok site_valid
  by (simp add: site_env_def link_http_def site_net_def Serve_def auth_def inspect_def inspectRaw_def site_grequest_def site_link_def
      run_docker_def Inspect_def docker_def site_genv_def site_moby_def)

lemma site_post:
  "se_http site_env \<lparr>rq_method = ''POST'', rq_url = ''http://gw'' @ gatewayContainerPath ''abc'' ''/restart'', rq_secret = site_secret, rq_body = b, rq_stream = st\<rparr> (site_link cs)
     = (Inr \<lparr>rs_status = 202, rs_body = [], rs_broken = False\<rparr>, site_link (cs @ [CContainerInspect ''abc'', CContainerRestart ''abc'' 10]))"
  using site_secret_ok site_valid site_not_labelled
  by (simp add: site_env_def link_http_def site_net_def Serve_def auth_def Gateway.restart_def inspectRaw_def site_grequest_def site_link_def
      run_docker_def Inspect_def Restart_def docker_def site_genv_def site_moby_def gatewayContainerPath_def pathEscape_valid)

lemma site_resolve:
  obtains sess n d where "ResolveSession ''tok'' calm_env (0, site_db) = (Inr sess, n, d)"
    "user_Permissions (session_User sess) = [''container.restart'']" "session_CSRFHash sess = []" "policies d = []"
proof -
  let ?u = "user_of demo_user (user_join ''u1'' site_db)" and ?h = "TokenHash (sha256 calm_env) ''tok''"
  have p: "user_Permissions ?u = [''container.restart'']"
    by (simp add: site_db_def user_of_def user_join_def local_scope_def admin_role_row_def collect_row_def collect_rows_def)
  have "ResolveSession ''tok'' calm_env (0, site_db)
      = (Inr \<lparr>session_User = ?u, session_TokenHash = ?h, session_CSRFHash = [], session_ExpiresAt = rfc3339nano 3600000000000\<rparr>,
         6, update_session ?h (\<lambda>x. x\<lparr>sr_last_activity_at := rfc3339nano (Suc (Suc (Suc (Suc 0))))\<rparr>) site_db)"
    using tok_live by (simp add: site_db_def ResolveSession_def GetUser_def bnd_def attempt_def token_hash_def now_def query_row_def
        query_def exec_def ret_def modify_def tok_session_def)
  then show ?thesis by (rule that) (simp_all add: p update_session_def, simp add: site_db_def)
qed

lemma no_labels: "\<not> res_System (resource_of [])" "\<not> res_Protected (resource_of [])"
  by (simp_all add: resource_of_def label_value_def equalFold_def as_obj_def Let_def)

lemma site_inspectResource:
  "inspectResource ''abc'' site_env (site_server\<lparr>sv_store := st\<rparr>)
     = (Inr (Inr ([], resource_of [])), site_server\<lparr>sv_store := st, sv_gateway := site_link [CContainerInspect ''abc'']\<rparr>)"
  using site_valid site_get [of _ None False "[]"]
  by (simp add: inspectResource_def run_bnd run_simps gw_Raw_def hgateway_def gc_Raw_def gc_request_def site_client site_server_def New_def)
    (simp add: site_env_def dec_object_def)

lemma site_run:
  "\<exists>resp sv'. Handle site_env (Protected PRestart) demo_request site_server = (resp, sv')
     \<and> sv_gateway sv' = site_link [CContainerInspect ''abc'', CContainerInspect ''abc'', CContainerRestart ''abc'' 10]"
proof -
  obtain sess n d where r: "ResolveSession ''tok'' calm_env (0, site_db) = (Inr sess, n, d)"
    and p: "user_Permissions (session_User sess) = [''container.restart'']" and c: "session_CSRFHash sess = []" and d: "policies d = []"
    by (rule site_resolve)
  let ?s = "site_server\<lparr>sv_store := (n, d)\<rparr>" and ?u = "session_User sess"
  have e: "se_env site_env = calm_env" "sv_store site_server = (0, site_db)" "TokenHash (sha256 calm_env) [] = []"
    "sq_origin demo_request = []" "csrf_provided demo_request = []"
    by (simp_all add: site_env_def site_server_def New_def TokenHash_def calm_env_def demo_request_def csrf_provided_def hex_encode_def)
  have h: "Handle site_env (Protected PRestart) demo_request site_server = finish (Server_Containers.restart demo_request sess) site_env ?s"
    using r p c e by (simp add: Handle_def requireSession_def finish_bnd run_check hstore_def guarded_handler_def route_guards_def
        requirePermission_def requireCSRF_def run_simps rbac_Allowed_def handler_def constantTimeCompare_iff)
  let ?s1 = "site_server\<lparr>sv_store := (Suc n, d), sv_gateway := site_link [CContainerInspect ''abc'']\<rparr>"
  have a: "authorizeResourceWithAudit demo_request sess ''container.restart'' ''abc'' True site_env ?s = (Inr ([], resource_of []), ?s1)"
    using d p e(1) engine.no_policy [of ?u "''container.restart''" "resource_of []"]
    by (simp add: authorizeResourceWithAudit_def run_bnd run_check run_simps site_inspectResource hstore_def ListPolicies_def
        query_def exec_def bnd_def ret_def rbac_Allowed_def immutable_def no_labels)
  let ?g = "site_link [CContainerInspect ''abc'', CContainerInspect ''abc'', CContainerRestart ''abc'' 10]"
  let ?s2 = "site_server\<lparr>sv_store := (Suc n, d), sv_gateway := ?g\<rparr>"
  have j: "gw_JSON ''POST'' (gatewayContainerPath ''abc'' ''/restart'') (Some (JObj [])) Some site_env ?s1 = (Inr (Inr JNull), ?s2)"
    using site_post [of "Some (JObj [])" False "[CContainerInspect ''abc'']"]
    by (simp add: gw_JSON_def hgateway_def gc_JSON_def gc_request_def site_client) (simp add: site_env_def)
  obtain s3 where s3: "audit demo_request (Some sess) ?u ''CONTAINER_RESTART'' ''container'' ''abc'' ''success'' [] None site_env ?s2 = (Inr (), s3)"
    and g: "s3 = ?s2\<lparr>sv_store := sv_store s3\<rparr>" by (rule audit_run)
  have "sv_gateway s3 = ?g" by (subst g) simp
  with s3 show ?thesis
    unfolding h using a j
    by (simp add: Server_Containers.restart_def authorizeResource_def finish_bnd finish_ret run_simps Let_def)
qed

end
