(* ===== verification/Gateway_Router.thy ===== *)
theory Gateway_Router
  imports Server_Responses Server_Static System
begin

text \<open>
  The router of the gateway (\<open>src/backend/internal/gateway/handler.go\<close>) around its route table: the limit on
  request bodies and the answers to everything that the table does not list; and what the limits of both
  processes mean for the requests they serve.
\<close>

section \<open>The router\<close>

definition limitBody :: "(string \<Rightarrow> bool \<Rightarrow> body) \<Rightarrow> string \<Rightarrow> body" where
  "limitBody parse raw = (if length raw \<le> 64 * 1024 then parse raw True else parse (take (64 * 1024) raw) False)"

text \<open>What \<open>chi\<close> has found for the method and the path: a row of the table, no pattern, or a pattern for other methods.\<close>

datatype target = Found groute | NotFound | MethodNotAllowed

definition gateway_Router :: "genv \<Rightarrow> (string \<Rightarrow> bool \<Rightarrow> body) \<Rightarrow> target \<Rightarrow> string \<Rightarrow> grequest \<Rightarrow> gateway \<Rightarrow> gresponse \<times> gateway" where
  "gateway_Router e parse tgt raw r h =
     (let r = r\<lparr>gr_body := limitBody parse raw\<rparr> in
      case tgt of
        Found route \<Rightarrow> Serve e route r h
      | NotFound \<Rightarrow> (problem 404 ''OPERATION_NOT_ALLOWED'' ''Gateway operation is not allowed'', h)
      | MethodNotAllowed \<Rightarrow> (problem 405 ''OPERATION_NOT_ALLOWED'' ''Gateway operation is not allowed'', h))"

section \<open>Bodies that are cut\<close>

text \<open>A decoder that meets the limit sees an error, not the end of the body.\<close>

definition cut_is_error :: "(string \<Rightarrow> bool \<Rightarrow> body) \<Rightarrow> bool" where
  "cut_is_error parse \<longleftrightarrow> (\<forall>text. \<not> bd_clean (parse text False))"

lemma decode_cut: "\<not> bd_clean b \<Longrightarrow> decode_body dec zero b = None"
  by (simp add: decode_body_def split: list.split)

text \<open>The routes of the server that read a body.\<close>

definition reads_body :: "route \<Rightarrow> bool" where
  "reads_body route \<longleftrightarrow> route \<in> {Public PLoginRoute, Protected PTerminalRoute, Protected PUsersRoute, Protected PutUser,
     Protected PRolesRoute, Protected PutRole, Protected PPoliciesRoute, Protected PutPolicy, Protected PutSettings}"

interpretation refusing: response_type se refusal for se :: "'g senv"
  by unfold_locales

lemmas refusing_intros = refusing.s_ask refusing.s_bnd refusing.s_if refusing.s_problem

lemma unreadable_handlers:
  assumes "\<not> bd_clean (sq_body r)"
  shows "serves se refusal (createUser r sess)" "serves se refusal (updateUser r sess)" "serves se refusal (saveRole r sess)"
    "serves se refusal (savePolicy r sess)" "serves se refusal (updateSettings r sess)" "serves se refusal (createTerminal r sess)"
  unfolding createUser_def updateUser_def saveRole_def savePolicy_def updateSettings_def createTerminal_def Let_def decode_cut [OF assms]
  by (auto intro!: refusing_intros refuses_parts)

lemma unreadable_request:
  assumes "\<not> bd_clean (sq_body r)" and "reads_body route"
  shows "refusal (fst (Handle se route r sv))"
proof -
  have "serves se refusal (handler p r sess)" if "route = Protected p" for p sess
    using assms(2) that unreadable_handlers [OF assms(1), of se sess] unreadable_handlers [of "r\<lparr>sq_param := []\<rparr>" se sess] assms(1)
    by (auto simp: reads_body_def handler_def)
  then have "serves se refusal (requireSession r (guarded_handler p r))" if "route = Protected p" for p
    using that by (intro refusing.s_requireSession refusing.s_guarded_handler)
  moreover have "serves se refusal (login r)"
    unfolding login_def decode_cut [OF assms(1)] by (simp add: refusing.s_problem)
  ultimately show ?thesis using assms(2)
    by (cases route) (auto simp: Handle_def serves_def reads_body_def public_handler_def)
qed

lemma unreadable_exec:
  assumes "\<not> bd_clean (gr_body r)"
  shows "only_calls reading_call h (snd (Serve e RExec r h))"
proof -
  have "decode (gr_body r) = None" unfolding decode_def by (rule decode_cut [OF assms])
  then show ?thesis
    by (auto simp: Serve_def auth_def createExec_def intro: inspectRaw_reads split: prod.split sum.split)
qed

lemma server_limit:
  assumes "cut_is_error parse" and "reads_body route" and "int (length raw) > cfg_MaxBodyBytes (se_cfg se)"
  shows "\<exists>headers resp. fst (Router se fs parse url (Some route) raw r sv) = (headers, Answered resp) \<and> refusal resp"
proof -
  obtain resp sv' where h: "Handle se route (r\<lparr>sq_body := bodyLimit (cfg_MaxBodyBytes (se_cfg se)) parse raw\<rparr>) sv = (resp, sv')" by (metis prod.exhaust)
  have "refusal (fst (Handle se route (r\<lparr>sq_body := bodyLimit (cfg_MaxBodyBytes (se_cfg se)) parse raw\<rparr>) sv))"
    using assms by (intro unreadable_request) (simp_all add: bodyLimit_def cut_is_error_def)
  with h show ?thesis by (simp add: Router_def)
qed

lemma gateway_limit:
  assumes "cut_is_error parse" and "tgt \<noteq> Found RRestart" and "\<not> (tgt = Found RExec \<and> length raw \<le> 65536)"
  shows "only_calls reading_call h (snd (gateway_Router e parse tgt raw r h))"
proof (cases "tgt = Found RExec")
  case True
  with assms have "only_calls reading_call h (snd (Serve e RExec (r\<lparr>gr_body := limitBody parse raw\<rparr>) h))"
    by (intro unreadable_exec) (simp add: limitBody_def cut_is_error_def)
  with True show ?thesis by (simp add: gateway_Router_def)
next
  case False
  with assms(2) show ?thesis by (cases tgt) (auto simp: gateway_Router_def Let_def intro: Serve_reads)
qed

text \<open>
  C21: the limits hold.  A request to the server whose body is longer than the configured limit is refused on
  every route that reads a body.  The gateway acts on a container only for a request to one of the two
  acting rows of its table, starts a process only for a body of at most 64 KiB, and answers a request that
  the table does not list with 404 or 405 without a call to Docker.
\<close>

theorem oversized_refused:
  assumes "cut_is_error parse"
  shows "(reads_body route \<and> int (length raw) > cfg_MaxBodyBytes (se_cfg se) \<longrightarrow>
      (\<exists>headers resp. fst (Router se fs parse url (Some route) raw r sv) = (headers, Answered resp) \<and> refusal resp))
    \<and> (\<not> (tgt = Found RRestart \<or> tgt = Found RExec \<and> length raw \<le> 65536) \<longrightarrow>
        only_calls (\<lambda>c. acts_on c = None) h (snd (gateway_Router e parse tgt raw gr h)))
    \<and> ((\<forall>rt. tgt \<noteq> Found rt) \<longrightarrow>
        snd (gateway_Router e parse tgt raw gr h) = h \<and> gs_status (fst (gateway_Router e parse tgt raw gr h)) \<in> {404, 405})"
proof (intro conjI impI)
  show "\<exists>headers resp. fst (Router se fs parse url (Some route) raw r sv) = (headers, Answered resp) \<and> refusal resp"
    if "reads_body route \<and> int (length raw) > cfg_MaxBodyBytes (se_cfg se)" using that server_limit [OF assms] by blast
  show "only_calls reading_call h (snd (gateway_Router e parse tgt raw gr h))"
    if "\<not> (tgt = Found RRestart \<or> tgt = Found RExec \<and> length raw \<le> 65536)" using that gateway_limit [OF assms] by blast
  assume "\<forall>rt. tgt \<noteq> Found rt"
  then show "snd (gateway_Router e parse tgt raw gr h) = h" "gs_status (fst (gateway_Router e parse tgt raw gr h)) \<in> {404, 405}"
    by (cases tgt; simp add: gateway_Router_def problem_def)+
qed

definition plain_parse :: "string \<Rightarrow> bool \<Rightarrow> body" where
  "plain_parse text whole = \<lparr>bd_values = [JStr text], bd_clean = whole\<rparr>"

theorem oversized_refused_witness:
  "(\<exists>headers resp. fst (Router demo_env demo_files plain_parse ''/api/v1/auth/login'' (Some (Public PLoginRoute)) (replicate 65537 CHR ''x'')
        demo_request (demo_server None)) = (headers, Answered resp) \<and> refusal resp)
    \<and> only_calls (\<lambda>c. acts_on c = None) (NewHandler ''s'')
        (snd (gateway_Router calm_genv plain_parse (Found RExec) (replicate 65537 CHR ''x'') shell_request (NewHandler ''s'')))"
proof -
  have "cut_is_error plain_parse" by (simp add: cut_is_error_def plain_parse_def)
  from oversized_refused [OF this, where raw = "replicate 65537 CHR ''x''" and tgt = "Found RExec" and route = "Public PLoginRoute"
      and se = demo_env and fs = demo_files and url = "''/api/v1/auth/login''" and r = demo_request and sv = "demo_server None"
      and h = "NewHandler ''s''" and e = calm_genv and gr = shell_request]
  show ?thesis by (simp add: reads_body_def demo_env_def demo_config_def)
qed

end
