(* ===== verification/Server_Terminals.thy ===== *)
theory Server_Terminals
  imports Server_Theorems
begin

text \<open>
  An open terminal ends.  Every interaction with the outside takes a step, so the readings of the clock
  that a terminal makes go on as long as it runs; when the clock advances, the watchdog of a terminal
  without traffic sooner or later sees the idle time exceeded.
\<close>

section \<open>Steps are never taken back\<close>

definition counts_up :: "'a dbm \<Rightarrow> bool" where
  "counts_up m \<longleftrightarrow> (\<forall>e n d. n \<le> fst (snd (m e (n, d))))"

lemma counts_up_bnd:
  assumes "counts_up m" and "\<And>x. counts_up (f x)"
  shows "counts_up (bnd m f)"
  unfolding counts_up_def
proof (intro allI)
  fix e n d
  obtain x n' d' where m: "m e (n, d) = (x, n', d')" by (metis prod.exhaust)
  have "n \<le> n'" using assms(1) m unfolding counts_up_def by (metis fst_conv snd_conv)
  moreover have "n' \<le> fst (snd (f y e (n', d')))" for y using assms(2) unfolding counts_up_def by blast
  ultimately show "n \<le> fst (snd (bnd m f e (n, d)))"
    using m by (cases x) (auto simp: bnd_def intro: le_trans)
qed

lemma counts_up_exec: "counts_up (exec f)"
  by (simp add: counts_up_def exec_def split: prod.split)

lemma counts_up_attempt: "counts_up m \<Longrightarrow> counts_up (attempt m)"
  by (auto simp: counts_up_def attempt_def split: prod.split sum.split go_error.split) (metis fst_conv snd_conv)+

lemma counts_up_basic: "counts_up (ret x)" "counts_up (raise err)" "counts_up now" "counts_up (token_hash token)"
  by (simp_all add: counts_up_def ret_def raise_def now_def token_hash_def)

lemmas counts_up_intros = counts_up_bnd counts_up_attempt counts_up_basic

lemma counts_up_statements: "counts_up (query q)" "counts_up (query_row r)" "counts_up (modify f)"
  unfolding query_def query_row_def modify_def by (rule counts_up_exec)+

lemma counts_up_mapM: "(\<And>x. counts_up (f x)) \<Longrightarrow> counts_up (mapM f xs)"
  by (induction xs) (auto intro!: counts_up_intros)

lemma counts_up_ResolveSession: "counts_up (ResolveSession token)"
  unfolding ResolveSession_def GetUser_def by (auto intro!: counts_up_intros counts_up_statements split: sum.split)

lemma counts_up_ListPolicies: "counts_up ListPolicies"
  unfolding ListPolicies_def by (intro counts_up_intros counts_up_statements counts_up_mapM)

text \<open>The same of the server: the interface \<open>server_relation\<close> for the number of steps taken.\<close>

abbreviation sv_steps :: "'g server \<Rightarrow> nat" where
  "sv_steps sv \<equiv> fst (sv_store sv)"

interpretation steps: server_relation "\<lambda>se sv sv'. sv_steps sv \<le> sv_steps sv'"
  by unfold_locales auto

abbreviation on :: "('g, 'a) hm \<Rightarrow> bool" where
  "on \<equiv> handles (\<lambda>se sv sv'. sv_steps sv \<le> sv_steps sv')"

lemma on_store: "counts_up m \<Longrightarrow> on (hstore m)"
  unfolding handles_def
proof (intro allI)
  fix se :: "'g senv" and sv :: "'g server"
  assume "counts_up m"
  obtain n d where st: "sv_store sv = (n, d)" by (cases "sv_store sv")
  obtain x n' d' where m: "m (se_env se) (n, d) = (x, n', d')" by (metis prod.exhaust)
  have "n \<le> n'" using \<open>counts_up m\<close> m unfolding counts_up_def by (metis fst_conv snd_conv)
  then show "sv_steps sv \<le> sv_steps (snd (hstore m se sv))"
    using st m by (cases x) (auto simp: hstore_def split: go_error.split)
qed

lemma on_gateway: "on (hgateway f)"
  by (simp add: handles_def hgateway_def split: prod.split)

lemma on_still_allowed: "on (still_allowed r cid)"
proof -
  have "on (inspectResource cid)"
    unfolding inspectResource_def gw_Raw_def by (auto intro!: steps.h_bnd steps.h_ret steps.h_ask on_gateway)
  then show ?thesis
    unfolding still_allowed_def
    by (auto intro!: steps.h_bnd steps.h_ret on_store counts_up_ResolveSession counts_up_ListPolicies split: option.split sum.split)
qed

section \<open>The watchdog\<close>

lemma hnow_run: "hnow se sv = (Inr (clock (se_env se) (sv_steps sv)), sv\<lparr>sv_store := (Suc (sv_steps sv), snd (sv_store sv))\<rparr>)"
  by (cases "sv_store sv") (simp add: hnow_def)

lemma watchdog_late:
  assumes "int (clock (se_env se) (sv_steps sv)) \<ge> int seen + idle" and "idle \<le> maxInt"
  shows "fst (watchdog_tick r cid idle seen se sv) = Inr False"
  using assms by (auto simp: watchdog_tick_def run_bnd run_simps hnow_run time_sub_def)

lemma watchdog_steps: "Suc (sv_steps sv) \<le> sv_steps (snd (watchdog_tick r cid idle seen se sv))"
proof -
  let ?s = "sv\<lparr>sv_store := (Suc (sv_steps sv), snd (sv_store sv))\<rparr>"
  have "sv_steps ?s \<le> sv_steps (snd (still_allowed r cid se ?s))" using on_still_allowed [of r cid] unfolding handles_def by blast
  then show ?thesis by (simp add: watchdog_tick_def run_bnd run_simps hnow_run)
qed

text \<open>A terminal without traffic: after enough ticks it no longer looks at any event.\<close>

lemma idle_ticks:
  assumes late: "\<forall>j\<ge>k. int (clock (se_env se) j) \<ge> int seen + idle" and "idle \<le> maxInt"
  shows "k - sv_steps sv < n \<Longrightarrow> relay r cid idle (replicate n WatchdogTick @ evs) seen se sv
    = relay r cid idle (replicate n WatchdogTick) seen se sv"
proof (induction n arbitrary: sv)
  case (Suc n)
  obtain x s where tick: "watchdog_tick r cid idle seen se sv = (x, s)" by (metis prod.exhaust)
  show ?case
  proof (cases "x = Inr True")
    case True
    have "\<not> k \<le> sv_steps sv" using watchdog_late [OF late [rule_format] assms(2)] True tick by (metis fst_conv sum.inject(2))
    moreover have "Suc (sv_steps sv) \<le> sv_steps s" using watchdog_steps [of sv r cid idle seen se] tick by simp
    ultimately have "k - sv_steps s < n" using Suc.prems by linarith
    from Suc.IH [OF this] True tick show ?thesis by (simp add: run_bnd)
  next
    case False
    with tick show ?thesis by (cases x) (auto simp: run_bnd)
  qed
qed simp

lemma relay_after:
  assumes "\<And>seen sv. \<exists>n. \<forall>evs. relay r cid idle (tail n @ evs) seen se sv = relay r cid idle (tail n) seen se sv"
  shows "\<exists>n. \<forall>evs. relay r cid idle (traffic @ tail n @ evs) seen se sv = relay r cid idle (traffic @ tail n) seen se sv"
proof (induction traffic arbitrary: seen sv)
  case Nil
  then show ?case using assms by simp
next
  case (Cons ev traffic)
  show ?case
  proof (cases ev)
    case (FromBrowser kind msg)
    obtain x g where sent: "se_send se kind msg (sv_gateway sv) = (x, g)" by (metis prod.exhaust)
    let ?s = "sv\<lparr>sv_store := (Suc (sv_steps sv), snd (sv_store sv)), sv_gateway := g\<rparr>"
    from Cons.IH [of "clock (se_env se) (sv_steps sv)" ?s] sent FromBrowser show ?thesis
      by (cases x) (auto simp: run_bnd run_simps hnow_run hgateway_def)
  next
    case (FromGateway kind msg taken)
    let ?s = "sv\<lparr>sv_store := (Suc (sv_steps sv), snd (sv_store sv))\<rparr>"
    from Cons.IH [of "clock (se_env se) (sv_steps sv)" ?s] FromGateway show ?thesis
      by (auto simp: run_bnd run_simps hnow_run)
  next
    case WatchdogTick
    obtain x s where tick: "watchdog_tick r cid idle seen se sv = (x, s)" by (metis prod.exhaust)
    from Cons.IH [of seen s] tick WatchdogTick show ?thesis
      by (cases x) (auto simp: run_bnd run_simps)
  qed
qed

text \<open>
  C10: an idle terminal ends.  If the clock advances without bound, then after any traffic of an open
  terminal finitely many ticks of the watchdog without traffic end it: whatever happens after them is not
  looked at, nothing of it is sent to the gateway and it does not touch the state.
\<close>

theorem idle_terminal_ends:
  assumes clock_advances: "\<forall>b. \<exists>k. \<forall>j\<ge>k. b \<le> clock (se_env se) j" and "idle \<le> maxInt"
  shows "\<exists>n. \<forall>evs. relay r cid idle (traffic @ replicate n WatchdogTick @ evs) seen se sv
    = relay r cid idle (traffic @ replicate n WatchdogTick) seen se sv"
proof (rule relay_after)
  fix seen :: nat and sv :: "'a server"
  obtain k where "\<forall>j\<ge>k. seen + nat idle \<le> clock (se_env se) j" using clock_advances by blast
  then have "\<forall>j\<ge>k. int (clock (se_env se) j) \<ge> int seen + idle"

  proof (intro allI impI)
    fix j assume "\<forall>j\<ge>k. seen + nat idle \<le> clock (se_env se) j" "k \<le> j"
    then have "seen + nat idle \<le> clock (se_env se) j" by blast
    then show "int (clock (se_env se) j) \<ge> int seen + idle" by linarith
  qed
  from idle_ticks [OF this assms(2), of sv "Suc (k - sv_steps sv)" r cid]
  show "\<exists>n. \<forall>evs. relay r cid idle (replicate n WatchdogTick @ evs) seen se sv = relay r cid idle (replicate n WatchdogTick) seen se sv"
    by (intro exI [of _ "Suc (k - sv_steps sv)"]) simp
qed

theorem idle_terminal_ends_witness:
  "\<exists>n. \<forall>evs. relay demo_request ''abc'' (60 * second) (FromGateway 1 ''$'' True # replicate n WatchdogTick @ evs) 0
        (demo_env\<lparr>se_env := calm_env\<lparr>clock := (\<lambda>j. 5 * j)\<rparr>\<rparr>) (demo_server None)
    = relay demo_request ''abc'' (60 * second) (FromGateway 1 ''$'' True # replicate n WatchdogTick) 0
        (demo_env\<lparr>se_env := calm_env\<lparr>clock := (\<lambda>j. 5 * j)\<rparr>\<rparr>) (demo_server None)"
proof -
  let ?e = "demo_env\<lparr>se_env := calm_env\<lparr>clock := (\<lambda>j. 5 * j)\<rparr>\<rparr>"
  have "\<forall>j\<ge>b. b \<le> clock (se_env ?e) j" for b by simp
  then have "\<forall>b. \<exists>k. \<forall>j\<ge>k. b \<le> clock (se_env ?e) j" by blast
  then show ?thesis
    using idle_terminal_ends [of ?e "60 * second" demo_request "''abc''" "[FromGateway 1 ''$'' True]" 0 "demo_server None"]
    by (simp only: append_Cons append_Nil) (simp add: second_def maxInt_def)
qed

end
