(* ===== verification/Store_Valid.thy ===== *)
theory Store_Valid
  imports Store_Theorems
begin

text \<open>
  The data in the store is valid beyond what the schema asks for: what the operations check in Go before
  they write (names, passwords, patterns, settings) holds of every row, and the rules of a policy
  have an order.  Every operation is gone through with what its guards have established.
\<close>

section \<open>Valid rows\<close>

text \<open>A text that \<open>HashPassword\<close> has written for a password it accepts.\<close>

definition password_record :: "string \<Rightarrow> bool" where
  "password_record h \<longleftrightarrow> (\<exists>argon2 salt password. HashPassword argon2 (Some salt) password = Some (Inr h))"

definition valid_user :: "user_row \<Rightarrow> bool" where
  "valid_user u \<longleftrightarrow> ValidateUsername (ur_username u) \<and> password_record (ur_password_hash u)"

definition valid_name :: "nat \<Rightarrow> string \<Rightarrow> bool" where
  "valid_name n s \<longleftrightarrow> trimSpace s \<noteq> [] \<and> length s \<le> n"

definition valid_role :: "role_row \<Rightarrow> bool" where
  "valid_role r \<longleftrightarrow> valid_name 64 (rr_name r) \<and> length (rr_description r) \<le> 500"

definition valid_policy :: "policy_row \<Rightarrow> bool" where
  "valid_policy p \<longleftrightarrow> valid_name 100 (po_name p) \<and> length (po_description p) \<le> 500"

definition valid_rule :: "rule_row \<Rightarrow> bool" where
  "valid_rule x \<longleftrightarrow> length (ru_match_value x) \<le> 128 \<and> CHR ''['' \<notin> set (ru_match_value x) \<and> length (ru_match_key x) \<le> 128"

definition valid_setting :: "setting_row \<Rightarrow> bool" where
  "valid_setting s \<longleftrightarrow> setting_ok (st_key s, st_value s) \<or> st_key s = ''auth_provider'' \<and> st_value s = ''local''"

definition in_catalog :: "string \<Rightarrow> bool" where
  "in_catalog p \<longleftrightarrow> p \<in> fst ` set PermissionCatalog"

text \<open>No two rules of a policy have the same priority.\<close>

definition ordered_rules :: "rule_row list \<Rightarrow> bool" where
  "ordered_rules xs \<longleftrightarrow> inj_on (\<lambda>x. (ru_policy_id x, ru_priority x)) (set xs)"

definition valid_db :: "db \<Rightarrow> bool" where
  "valid_db d \<longleftrightarrow> (\<forall>u\<in>set (users d). valid_user u) \<and> (\<forall>r\<in>set (roles d). valid_role r)
     \<and> (\<forall>p\<in>set (permissions d). in_catalog (pr_name p)) \<and> (\<forall>p\<in>set (policies d). valid_policy p)
     \<and> (\<forall>x\<in>set (policy_rules d). valid_rule x) \<and> ordered_rules (policy_rules d) \<and> (\<forall>s\<in>set (settings d). valid_setting s)"

lemma ordered_filter: "ordered_rules xs \<Longrightarrow> ordered_rules (filter p xs)"
  unfolding ordered_rules_def by (rule inj_on_subset) auto

lemma ordered_snoc:
  assumes "ordered_rules xs" and "\<And>y. y \<in> set xs \<Longrightarrow> ru_policy_id y = ru_policy_id x \<Longrightarrow> ru_priority y < ru_priority x"
  shows "ordered_rules (xs @ [x])"
  using assms by (fastforce simp: ordered_rules_def inj_on_def)

section \<open>Statements\<close>

definition keeps_valid :: "db \<Rightarrow> db \<Rightarrow> bool" where
  "keeps_valid d d' \<longleftrightarrow> (valid_db d \<longrightarrow> valid_db d')"

interpretation valid: store_relation keeps_valid
  by unfold_locales (auto simp: keeps_valid_def)

lemmas valid_steps = valid.steps_intros valid.steps_modify valid.steps_checked

text \<open>Statements on the tables that the invariant does not read, and deletions.\<close>

lemma valid_elsewhere:
  "insert_user_roles uid rids d = Some (n, d') \<Longrightarrow> keeps_valid d d'" "insert_audit a d = Some (x, d') \<Longrightarrow> keeps_valid d d'"
  "insert_ignore_role_permission rid p d = Some (x, d') \<Longrightarrow> keeps_valid d d'" "insert_session s d = Some (x, d') \<Longrightarrow> keeps_valid d d'"
  "insert_terminal te d = Some (x, d') \<Longrightarrow> keeps_valid d d'" "insert_role_permission rid p d = Some (x, d') \<Longrightarrow> keeps_valid d d'"
  by (auto simp: keeps_valid_def valid_db_def insert_user_roles_def insert_audit_def insert_ignore_role_permission_def
      insert_session_def insert_terminal_def insert_role_permission_def split: if_splits)

lemma valid_updates:
  "keeps_valid d (revoke_active uid t d)" "keeps_valid d (update_session h g d)" "keeps_valid d (touch_terminal tid status t t' d)"
  "keeps_valid d (trim_audit keep d)" "keeps_valid d (clear_role_permissions rid d)" "keeps_valid d (clear_user_roles uid d)"
  by (simp_all add: keeps_valid_def valid_db_def revoke_active_def update_session_def touch_terminal_def trim_audit_def
      clear_role_permissions_def clear_user_roles_def Let_def)

lemma valid_deletes: "keeps_valid d (snd (delete_role rid d))" "keeps_valid d (delete_policy pid d)" "keeps_valid d (clear_rules pid d)"
  by (auto simp: keeps_valid_def valid_db_def delete_role_def delete_policy_def clear_rules_def Let_def intro: ordered_filter)

lemma valid_insert_user: "insert_user u d = Some (x, d') \<Longrightarrow> valid_user u \<Longrightarrow> keeps_valid d d'"
  "insert_first_user u d = Some (n, d') \<Longrightarrow> valid_user u \<Longrightarrow> keeps_valid d d'"
  by (auto simp: keeps_valid_def valid_db_def insert_user_def insert_first_user_def split: if_splits)

lemma valid_update_user: "(\<And>u. valid_user u \<Longrightarrow> valid_user (f u)) \<Longrightarrow> keeps_valid d (update_user uid f d)"
  by (simp add: keeps_valid_def valid_db_def update_user_def)

lemma valid_upsert_permission: "p \<in> set PermissionCatalog \<Longrightarrow> keeps_valid d (upsert_permission p d)"
proof -
  assume "p \<in> set PermissionCatalog"
  then have "in_catalog (fst p)" unfolding in_catalog_def by (rule imageI)
  then show ?thesis by (cases p) (simp add: keeps_valid_def valid_db_def upsert_permission_def)
qed

lemma valid_insert_role: "insert_role r d = Some (x, d') \<Longrightarrow> valid_role r \<Longrightarrow> keeps_valid d d'"
proof -
  assume "insert_role r d = Some (x, d')" and new: "valid_role r"
  then have "d' = d\<lparr>roles := roles d @ [r]\<rparr>" by (simp add: insert_role_def split: if_splits)
  with new show ?thesis by (simp add: keeps_valid_def valid_db_def)
qed

lemma valid_insert_ignore_role: "valid_role r \<Longrightarrow> keeps_valid d (insert_ignore_role r d)"
  by (simp add: keeps_valid_def valid_db_def insert_ignore_role_def)

lemma valid_rename_role: "rename_role rid name desc d = Some (x, d') \<Longrightarrow> valid_name 64 name \<Longrightarrow> length desc \<le> 500 \<Longrightarrow> keeps_valid d d'"
proof -
  assume "rename_role rid name desc d = Some (x, d')" and new: "valid_name 64 name" "length desc \<le> 500"
  then have "d' = d\<lparr>roles := update_where (\<lambda>r. rr_id r = rid) (\<lambda>r. r\<lparr>rr_name := name, rr_description := desc\<rparr>) (roles d)\<rparr>"
    by (simp add: rename_role_def split: if_splits)
  with new show ?thesis by (simp add: keeps_valid_def valid_db_def valid_role_def)
qed

lemma valid_rename_steps:
  assumes "trimSpace name \<noteq> []" and "length name \<le> 64"
  shows "rel_steps keeps_valid (checked (rename_role rid name (Prelude.truncate desc 500)))"
  using assms by (intro valid.steps_checked) (auto intro: valid_rename_role simp: valid_name_def length_truncate)

lemma valid_insert_role_steps: "valid_role r \<Longrightarrow> rel_steps keeps_valid (checked (insert_role r))"
  by (intro valid.steps_checked) (rule valid_insert_role)

lemma valid_set_setting:
  "valid_setting s \<Longrightarrow> keeps_valid d (insert_ignore_setting s d)" "setting_ok (k, v) \<Longrightarrow> keeps_valid d (upsert_setting k v t d)"
  by (simp_all add: keeps_valid_def valid_db_def insert_ignore_setting_def upsert_setting_def valid_setting_def)

lemma valid_upsert_policy: "upsert_policy p d = Some (x, d') \<Longrightarrow> valid_policy p \<Longrightarrow> keeps_valid d d'"
proof -
  assume "upsert_policy p d = Some (x, d')" and new: "valid_policy p"
  then consider "d' = d\<lparr>policies := update_where (\<lambda>q. po_id q = po_id p) (\<lambda>q. q\<lparr>po_name := po_name p, po_description := po_description p,
      po_enabled := po_enabled p, po_updated_at := po_updated_at p\<rparr>) (policies d)\<rparr>" | "d' = d\<lparr>policies := policies d @ [p]\<rparr>"
    by (simp add: upsert_policy_def split: if_splits)
  then show ?thesis using new by cases (simp_all add: keeps_valid_def valid_db_def valid_policy_def)
qed

section \<open>Operations\<close>

text \<open>A stored hash comes out of \<open>HashPassword\<close>.\<close>

lemma valid_bnd_hash:
  assumes "\<And>h. password_record h \<Longrightarrow> rel_steps keeps_valid (f h)"
  shows "rel_steps keeps_valid (bnd (hash_password p) f)"
  unfolding rel_steps_def
proof (intro allI)
  fix e n d
  show "keeps_valid d (snd (snd (bnd (hash_password p) f e (n, d))))"
  proof (cases "HashPassword (argon2 e) (random e n 16) p")
    case None
    then show ?thesis by (simp add: bnd_def hash_password_def keeps_valid_def)
  next
    case (Some r)
    show ?thesis
    proof (cases r)
      case (Inl err)
      with Some show ?thesis by (simp add: bnd_def hash_password_def keeps_valid_def)
    next
      case (Inr h)
      with Some have "HashPassword (argon2 e) (random e n 16) p = Some (Inr h)" by simp
      then have "password_record h" by (rule HashPassword_ok) (use Some Inr in \<open>auto simp: password_record_def\<close>)
      with assms Some Inr show ?thesis by (auto simp: bnd_def hash_password_def rel_steps_def)
    qed
  qed
qed

lemma valid_readers:
  "rel_steps keeps_valid (GetUser uid)" "rel_steps keeps_valid UserCount" "rel_steps keeps_valid ListUsers" "rel_steps keeps_valid ActiveAdminCount"
  "rel_steps keeps_valid ListRoles" "rel_steps keeps_valid ListPermissions" "rel_steps keeps_valid ListPolicies" "rel_steps keeps_valid Settings"
  "rel_steps keeps_valid (ListAudit limit)" "rel_steps keeps_valid (GetTerminal tid uid)"
  unfolding UserCount_def ListUsers_def ActiveAdminCount_def ListRoles_def ListPermissions_def ListPolicies_def
    Settings_def ListAudit_def GetTerminal_def GetUser_def Let_def
  by (intro valid_steps)+

lemma valid_assign_roles: "rel_steps keeps_valid (assign_roles unknown uid rs)"
  unfolding assign_roles_def assign_role_def by (auto intro!: valid_steps intro: valid_elsewhere)

lemma builtin_valid: "(rid, name, desc, perms) \<in> set builtin_roles \<Longrightarrow> valid_name 64 name \<and> length desc \<le> 500"
proof -
  have "\<forall>r\<in>set builtin_roles. case r of (rid, name, desc, perms) \<Rightarrow> valid_name 64 name \<and> length desc \<le> 500" by code_simp
  then show "(rid, name, desc, perms) \<in> set builtin_roles \<Longrightarrow> ?thesis" by blast
qed

lemma valid_each: "(\<And>x. x \<in> set xs \<Longrightarrow> rel_steps keeps_valid (f x)) \<Longrightarrow> rel_steps keeps_valid (each f xs)"
  by (induction xs) (auto intro: valid.steps_bnd valid.steps_ret)

lemma valid_Open: "rel_steps keeps_valid Open"
proof -
  have "rel_steps keeps_valid (seed_role r)" if r: "r \<in> set builtin_roles" for r
  proof -
    obtain rid name desc perms where "r = (rid, name, desc, perms)" by (cases r)
    with r builtin_valid show ?thesis
      unfolding seed_role_def
      by (auto intro!: valid_steps valid_insert_ignore_role simp: valid_role_def intro: valid_elsewhere(3))
  qed
  then show ?thesis
    unfolding Open_def seed_def
    by (intro valid_steps valid_each valid_upsert_permission valid_set_setting) (auto simp: keeps_valid_def valid_setting_def)
qed

lemma valid_users:
  "rel_steps keeps_valid (CreateUser username password rs b)" "rel_steps keeps_valid (BootstrapAdmin username password)"
  unfolding CreateUser_def BootstrapAdmin_def
  by (auto intro!: valid_steps valid_bnd_hash valid_assign_roles valid_readers intro: valid_insert_user valid_elsewhere simp: valid_user_def)

lemma valid_Authenticate: "rel_steps keeps_valid (Authenticate username password)"
  unfolding Authenticate_def
  by (auto intro!: valid_steps valid_readers valid_update_user simp: valid_user_def split: sum.split go_error.split)

lemma valid_RecoverPassword: "rel_steps keeps_valid (RecoverPassword username password)"
  unfolding RecoverPassword_def
  by (auto intro!: valid_steps valid_bnd_hash valid_readers valid_update_user valid_updates intro: valid_elsewhere
      simp: valid_user_def split: sum.split go_error.split)

lemma valid_UpdateUser: "rel_steps keeps_valid (UpdateUser uid enabled rso password)"
  unfolding UpdateUser_def UpdateUser_parts
  by (auto intro!: valid_steps valid_bnd_hash valid_assign_roles valid_update_user valid_updates simp: valid_user_def split: option.split)

lemma valid_sessions:
  "rel_steps keeps_valid (CreateSession uid ip agent ttl)" "rel_steps keeps_valid (ResolveSession token)"
  "rel_steps keeps_valid (RevokeSession token)" "rel_steps keeps_valid (RevokeUserSessions uid)"
  "rel_steps keeps_valid (CreateTerminal uid cid shell ttl)" "rel_steps keeps_valid (TouchTerminal tid status)" "rel_steps keeps_valid (Audit x)"
  unfolding CreateSession_def ResolveSession_def RevokeSession_def RevokeUserSessions_def CreateTerminal_def TouchTerminal_def Audit_def Let_def
  by (auto intro!: valid_steps valid_readers valid_updates intro: valid_elsewhere split: sum.split)

lemma valid_settings: "rel_steps keeps_valid (EnsureSettings m)" "rel_steps keeps_valid (UpdateSettings m)"
  unfolding EnsureSettings_def UpdateSettings_def
  by (auto intro!: valid_steps valid_set_setting simp: valid_setting_def)

lemma valid_roles: "rel_steps keeps_valid (SaveRole role)" "rel_steps keeps_valid (DeleteRole rid)"
proof -
  have "rel_steps keeps_valid (replace_permissions rid ps)" for rid ps
    unfolding replace_permissions_def by (auto intro!: valid_steps valid_updates intro: valid_elsewhere)
  then show "rel_steps keeps_valid (SaveRole role)"
    unfolding SaveRole_def
    by (auto intro!: valid.steps_intros valid_rename_steps valid_insert_role_steps simp: valid_role_def valid_name_def length_truncate)
  show "rel_steps keeps_valid (DeleteRole rid)"
    unfolding DeleteRole_def using valid_deletes(1) [of _ rid]
    by (auto intro!: valid_steps valid.steps_exec split: prod.split) (metis snd_conv)+
qed

section \<open>The rules of a policy\<close>

definition rules_below :: "string \<Rightarrow> nat \<Rightarrow> db \<Rightarrow> bool" where
  "rules_below pid i d \<longleftrightarrow> (\<forall>x\<in>set (policy_rules d). ru_policy_id x = pid \<longrightarrow> ru_priority x < i)"

lemma save_rule_ok:
  assumes "save_rule pid (i, r) e (n, d) = (Inr (), n', d')"
  obtains x where "insert_rule x d = Some ((), d')" "ru_policy_id x = pid" "ru_priority x = i" "valid_rule x"
proof -
  have guard: "length (rule_MatchValue r) \<le> 128" "CHR ''['' \<notin> set (rule_MatchValue r)"
    using assms by (auto simp: save_rule_def raise_ok contains_singleton split: if_splits)
  from assms obtain rid where "insert_rule \<lparr>ru_id = rid, ru_policy_id = pid, ru_effect = rule_Effect r, ru_action = rule_Action r,
          ru_subject_role_id = (if rule_SubjectRoleID r = [] then None else Some (rule_SubjectRoleID r)),
          ru_match_type = rule_MatchType r, ru_match_key = Prelude.truncate (rule_MatchKey r) 128,
          ru_match_value = rule_MatchValue r, ru_priority = i\<rparr> d = Some ((), d')"
    by (auto simp: save_rule_def raise_ok bnd_ok ret_ok new_ID_def checked_ok split: if_splits)
  then show thesis by (rule that) (use guard in \<open>simp_all add: valid_rule_def length_truncate\<close>)
qed

lemma insert_rule_valid:
  assumes "insert_rule x d = Some ((), d')" and "valid_rule x" and "valid_db d" and "rules_below (ru_policy_id x) (ru_priority x) d"
  shows "valid_db d' \<and> rules_below (ru_policy_id x) (Suc (ru_priority x)) d'"
proof -
  have d': "d' = d\<lparr>policy_rules := policy_rules d @ [x]\<rparr>" using assms(1) by (simp add: insert_rule_def split: if_splits)
  have "ordered_rules (policy_rules d @ [x])"
    using assms(3,4) by (intro ordered_snoc) (simp_all add: valid_db_def rules_below_def)
  with assms(2-4) show ?thesis by (auto simp: d' valid_db_def rules_below_def less_Suc_eq)
qed

lemma save_rules_valid:
  assumes "each (save_rule pid) (List.enumerate i rs) e (n, d) = (Inr (), n', d')" and "valid_db d" and "rules_below pid i d"
  shows "valid_db d'"
  using assms
proof (induction rs arbitrary: i n d)
  case Nil
  then show ?case by (simp add: ret_ok)
next
  case (Cons r rs)
  then obtain n1 d1 where one: "save_rule pid (i, r) e (n, d) = (Inr (), n1, d1)"
    and rest: "each (save_rule pid) (List.enumerate (Suc i) rs) e (n1, d1) = (Inr (), n', d')" by (auto simp: bnd_ok)
  from one obtain x where x: "insert_rule x d = Some ((), d1)" "ru_policy_id x = pid" "ru_priority x = i" "valid_rule x" by (rule save_rule_ok)
  from insert_rule_valid [OF x(1,4) Cons.prems(2)] x Cons.prems(3) have "valid_db d1" "rules_below pid (Suc i) d1" by auto
  with rest show ?case by (rule Cons.IH)
qed

lemma valid_in_tx:
  assumes "\<And>e n d x n' d'. m e (n, d) = (Inr x, n', d') \<Longrightarrow> valid_db d \<Longrightarrow> valid_db d'"
  shows "rel_steps keeps_valid (in_tx m)"
  unfolding rel_steps_def
proof (intro allI)
  fix e n d
  obtain r n' d' where m: "m e (Suc n, d) = (r, n', d')" by (metis prod.exhaust)
  with assms [of e "Suc n" d] show "keeps_valid d (snd (snd (in_tx m e (n, d))))"
    by (cases r) (auto simp: in_tx_def keeps_valid_def)
qed

lemma valid_SavePolicy: "rel_steps keeps_valid (SavePolicy p)" "rel_steps keeps_valid (DeletePolicy pid)"
proof -
  have "rel_steps keeps_valid (in_tx (bnd (checked (upsert_policy q)) (\<lambda>_. bnd (modify (clear_rules pid)) (\<lambda>_.
      each (save_rule pid) (List.enumerate 0 rs)))))" if "valid_policy q" for q pid rs
  proof (rule valid_in_tx)
    fix e n d x n' d'
    assume "bnd (checked (upsert_policy q)) (\<lambda>_. bnd (modify (clear_rules pid)) (\<lambda>_. each (save_rule pid) (List.enumerate 0 rs))) e (n, d)
      = (Inr x, n', d')" and "valid_db d"
    then obtain d1 k where u: "upsert_policy q d = Some ((), d1)"
      and r: "each (save_rule pid) (List.enumerate 0 rs) e (k, clear_rules pid d1) = (Inr (), n', d')"
      by (auto simp: bnd_ok checked_ok modify_ok)
    have "valid_db (clear_rules pid d1)"
      using valid_upsert_policy [OF u that] valid_deletes(3) [of d1 pid] \<open>valid_db d\<close> by (simp add: keeps_valid_def)
    moreover have "rules_below pid 0 (clear_rules pid d1)" by (simp add: rules_below_def clear_rules_def)
    ultimately show "valid_db d'" by (rule save_rules_valid [OF r])
  qed
  note tx = this
  show "rel_steps keeps_valid (SavePolicy p)"
  proof (cases "length (trimSpace (policy_Name p)) < 1 \<or> length (policy_Name p) > 100")
    case True
    show ?thesis unfolding SavePolicy_def if_P [OF True] by (rule valid.steps_raise)
  next
    case False
    then have "valid_policy \<lparr>po_id = pid, po_name = policy_Name p, po_description = Prelude.truncate (policy_Description p) 500,
      po_enabled = policy_Enabled p, po_created_at = t, po_updated_at = t\<rparr>" for pid t
      by (auto simp: valid_policy_def valid_name_def length_truncate)
    then show ?thesis
      unfolding SavePolicy_def if_not_P [OF False]
      by (intro valid.steps_bnd valid.steps_env tx valid.steps_ret) (simp add: valid.steps_env valid.steps_ret)
  qed
  show "rel_steps keeps_valid (DeletePolicy pid)"
    unfolding DeletePolicy_def by (intro valid_steps valid_deletes)
qed

lemmas valid_operations = valid_Open valid_users valid_Authenticate valid_readers valid_UpdateUser valid_RecoverPassword
  valid_sessions valid_settings valid_roles valid_SavePolicy

lemma valid_store_steps: "store_step\<^sup>*\<^sup>* d d' \<Longrightarrow> valid_db d \<Longrightarrow> valid_db d'"
proof (induction rule: rtranclp_induct)
  case (step d1 d2)
  from step.hyps(2) have "keeps_valid d1 d2"
    using valid_operations unfolding rel_steps_iff by (elim store_step.cases) metis+
  with step show ?case by (simp add: keeps_valid_def)
qed

lemma valid_empty_db: "valid_db empty_db"
  by (simp add: valid_db_def empty_db_def ordered_rules_def)

section \<open>Reachable databases\<close>

text \<open>
  C12: what the operations check is true of the stored data.  In every database that operations can reach from
  the empty one, with any arguments, engine failures, clocks and random bytes: every user has a valid name and
  a password record that \<open>HashPassword\<close> wrote; the names of roles and policies are not blank and bounded; every
  rule belongs to a policy, has one of the two effects, one of the two kinds of match, an action of
  the catalog and a pattern of at most 128 bytes without a bracket, and no other rule of its policy has its
  priority; roles hold permissions of the catalog only; and every setting is one that may be set.
\<close>

theorem stored_data_valid:
  assumes "store_step\<^sup>*\<^sup>* empty_db d"
  shows "(\<forall>u\<in>set (users d). ValidateUsername (ur_username u)
        \<and> (\<exists>argon2 salt password. HashPassword argon2 (Some salt) password = Some (Inr (ur_password_hash u))))
    \<and> (\<forall>r\<in>set (roles d). trimSpace (rr_name r) \<noteq> [] \<and> length (rr_name r) \<le> 64)
    \<and> (\<forall>p\<in>set (policies d). trimSpace (po_name p) \<noteq> [] \<and> length (po_name p) \<le> 100)
    \<and> (\<forall>x\<in>set (policy_rules d). ru_policy_id x \<in> po_id ` set (policies d) \<and> ru_effect x \<in> {''allow'', ''deny''}
        \<and> ru_match_type x \<in> {''name'', ''label''} \<and> ru_action x \<in> fst ` set PermissionCatalog
        \<and> length (ru_match_value x) \<le> 128 \<and> CHR ''['' \<notin> set (ru_match_value x)
        \<and> (\<forall>y\<in>set (policy_rules d). ru_policy_id y = ru_policy_id x \<and> ru_priority y = ru_priority x \<longrightarrow> y = x))
    \<and> (\<forall>g\<in>set (role_permissions d). fst g \<in> rr_id ` set (roles d) \<and> snd g \<in> fst ` set PermissionCatalog)
    \<and> (\<forall>s\<in>set (settings d). setting_ok (st_key s, st_value s) \<or> st_key s = ''auth_provider'' \<and> st_value s = ''local'')"
proof -
  have v: "valid_db d" using valid_store_steps [OF assms valid_empty_db] .
  have w: "wf_db d" by (rule store_keeps_schema [OF wf_empty_db assms])
  have catalog: "pr_name ` set (permissions d) \<subseteq> fst ` set PermissionCatalog"
    using v by (auto simp: valid_db_def in_catalog_def)
  have "\<forall>x\<in>set (policy_rules d). wf_rule (po_id ` set (policies d)) (pr_name ` set (permissions d)) (rr_id ` set (roles d)) x"
    using w by (simp add: wf_db_def wf_rules_def)
  moreover have "\<forall>y\<in>set (policy_rules d). ru_policy_id y = ru_policy_id x \<and> ru_priority y = ru_priority x \<longrightarrow> y = x"
    if "x \<in> set (policy_rules d)" for x
    using v that by (auto simp: valid_db_def ordered_rules_def inj_on_def)
  moreover have "\<forall>g\<in>set (role_permissions d). fst g \<in> rr_id ` set (roles d) \<and> snd g \<in> pr_name ` set (permissions d)"
    using w by (auto simp: wf_db_def wf_role_permissions_def)
  moreover have "\<forall>u\<in>set (users d). valid_user u" "\<forall>r\<in>set (roles d). valid_role r" "\<forall>p\<in>set (policies d). valid_policy p"
    "\<forall>x\<in>set (policy_rules d). valid_rule x" "\<forall>s\<in>set (settings d). valid_setting s" using v by (simp_all add: valid_db_def)
  ultimately show ?thesis
    using catalog by (simp add: wf_rule_def valid_user_def valid_role_def valid_policy_def valid_rule_def valid_setting_def
        valid_name_def password_record_def subset_iff)
qed


theorem stored_data_valid_witness:
  "list_all (\<lambda>u. ValidateUsername (ur_username u))
      (users (snd (snd (BootstrapAdmin ''root'' ''correct horse'' calm_env (0, snd (snd (Open calm_env (0, empty_db))))))))
   \<and> list_all (\<lambda>r. trimSpace (rr_name r) \<noteq> [])
      (roles (snd (snd (BootstrapAdmin ''root'' ''correct horse'' calm_env (0, snd (snd (Open calm_env (0, empty_db))))))))"
proof -
  have "store_step\<^sup>*\<^sup>* empty_db (snd (snd (BootstrapAdmin ''root'' ''correct horse'' calm_env (0, snd (snd (Open calm_env (0, empty_db)))))))"
    by (rule rtranclp.rtrancl_into_rtrancl [OF r_into_rtranclp [where r = store_step, OF step_Open [OF step_example]]
          step_BootstrapAdmin [OF step_example]])
  from stored_data_valid [OF this] show ?thesis unfolding list_all_iff by blast
qed

end
