(* ===== verification/Spec2Isabelle.thy ===== *)
theory Spec2Isabelle
  imports Command_Theorems Gateway_Router Server_Terminals Store_Valid
begin

text \<open>
  DockerView: a verification of its back end (the Go code under \<open>src/backend\<close>).

  \<^bold>\<open>The program.\<close>  DockerView is a web console for Docker hosts.  The \<^emph>\<open>server\<close> (\<open>internal/api\<close>) keeps
  users, roles, policies, sessions, settings and an audit trail in SQLite (\<open>internal/database\<close>), serves
  the HTTP interface, and decides with the roles (\<open>internal/rbac\<close>) and the policies
  (\<open>internal/policies\<close>) who may do what to which container.  It does not talk to Docker itself: it
  calls the \<^emph>\<open>gateway\<close> (\<open>internal/gateway\<close>) over HTTP with a shared secret (\<open>gateway_client.go\<close>), and the
  gateway, which owns the Docker socket, checks the requests again before it passes them on.
  \<open>internal/security\<close> has passwords, tokens, validators and the masking of secrets, \<open>internal/docker\<close>
  the risk assessment, \<open>internal/config\<close> the configuration.

  \<^bold>\<open>The theories.\<close>
  \<^item> \<open>Prelude\<close>, \<open>Go_Lib\<close>, \<open>Go_Time\<close>, \<open>Go_Duration\<close>, \<open>Path_Match\<close>: what the program uses of Go's library
    (strings, numbers, JSON, URLs, RFC 3339 texts, durations with the round trip of \<open>Duration.String\<close> and
    \<open>ParseDuration\<close>, \<open>path.Match\<close> with its equivalence to a declarative glob semantics).
  \<^item> \<open>Security\<close>, \<open>Docker_Risk\<close>, \<open>Inspect_Json\<close>, \<open>Policies\<close>, \<open>Rate_Limit\<close>, \<open>Config\<close>: one theory per
    package or file, functions as the code has them, and the theorems about them.  \<open>Inspect_Json\<close> has
    \<open>maskInspect\<close> and \<open>riskFromInspect\<close> of \<open>server.go\<close>.
  \<^item> \<open>Store_Base\<close>, \<open>Store_Users\<close>, \<open>Store_Sessions\<close>, \<open>Store_Access\<close>: \<open>database.go\<close>.  A table is a list of
    records; an operation is a program over statements, run in an environment that decides at every
    step whether the engine fails, what the clock shows and which random bytes come.
  \<^item> \<open>Store_Laws\<close>, \<open>Store_Invariants\<close>, \<open>Store_Admin\<close>, \<open>Store_Theorems\<close>, \<open>Store_Accounts\<close>,
    \<open>Store_Effects\<close>: the interfaces \<open>store_relation\<close>, \<open>store_laws\<close>, \<open>store_operations\<close> and
    \<open>store_statements\<close>, interpreted for the schema, the sessions, the accounts, the built-in roles and the
    administrators, and what each operation achieves: the sessions refine a set, accounts, policies and
    settings can be read back, failed updates change nothing.  \<open>Store_Open\<close> has \<open>Open\<close>: what it creates,
    what it leaves alone, and that operations succeed when the engine does not fail.  \<open>Store_Valid\<close> goes
    beyond the schema: what the operations check before they write holds of every reachable database.
  \<^item> \<open>Gateway_Service\<close>, \<open>Gateway\<close>: \<open>service.go\<close> and \<open>handler.go\<close> of the gateway.  The calls to Docker
    are traced, and the theorems say which calls can appear in the trace.
  \<^item> \<open>Gateway_Client\<close>, \<open>Server_Base\<close>, \<open>Server_Containers\<close>, \<open>Server_Admin\<close>, \<open>Server\<close>:
    \<open>gateway_client.go\<close> and \<open>server.go\<close>, every handler and the route table with its guards.
  \<^item> \<open>Server_Laws\<close>, \<open>Server_Theorems\<close>: the interfaces \<open>server_relation\<close>, \<open>server_interface\<close> and
    \<open>server_gateway\<close>, interpreted for the database and for the requests to the gateway, and the
    properties of requests: complete mediation, logins, disclosure, revoked terminals.
  \<^item> \<open>Server_Responses\<close>: the table of what each route answers and the interface \<open>response_type\<close>, with which
    every handler is checked against it.  \<open>Server_Terminals\<close>: an idle terminal ends.
  \<^item> \<open>Server_Static\<close>: the router of the server with its headers, its body limit and its static files.
    \<open>Gateway_Router\<close>: the router of the gateway with its limit and its fallbacks; what both limits mean.
  \<^item> \<open>Commands\<close>, \<open>Command_Theorems\<close>: \<open>cmd/server/main.go\<close>, \<open>cmd/server/recovery.go\<close> and
    \<open>cmd/gateway/main.go\<close>: start-up, \<open>bootstrap\<close> and \<open>reset-password\<close>, up to the point where a process listens.
  \<^item> \<open>System\<close>: the server and the gateway connected (\<open>link_http\<close>, \<open>link_dial\<close>, \<open>link_send\<close>), and below the
    theorem about the two of them.

  \<^bold>\<open>Parameters.\<close>  Code that is not part of the repository is an argument of the definitions: SHA-256 and
  Argon2id (only \<open>created_user_authenticates\<close> and \<open>verify_hash_roundtrip\<close> rely on a law, the documented
  length of the key), the random source, the clock, the SQLite engine's failures, the Docker client
  library, the HTTP and WebSocket transport, the JSON parser (a text has the value it parses to; a
  \<open>map[string]interface{}\<close> has one value per key), \<open>fmt.Sprint\<close> of a device, \<open>strings.ToLower\<close> outside
  ASCII, the floating-point product inside \<open>time.ParseDuration\<close>, the file system, the host of the
  commands (arguments, environment, terminal, disk and the order in which Go visits a map), and the network
  between the two processes (\<open>routes_to\<close>: the row and the parameter that \<open>chi\<close> finds for the two acting
  requests).  \<open>cut_is_error\<close> is what \<open>http.MaxBytesReader\<close> promises.

  \<^bold>\<open>Bounds.\<close>  No definition runs on fuel: every loop is a structural recursion or comes with its
  termination proof.  A terminal is run over the finite list of the events that happen on it.  Lengths
  of bodies, frames, tails and tables are those of the code.  Times are natural numbers of nanoseconds;
  theorems about their texts ask for years of four digits.  The number of seconds in a cookie and in
  the audit record of a terminal is the integral part of the duration; Go computes it in floating point,
  which is the same below 16777216 seconds.

  \<^bold>\<open>Concurrency.\<close>  Requests are taken one after the other, as the single connection of the store and the
  mutexes of the limiters order their effects; the theorems about sequences of store operations hold for
  every interleaving of whole operations.  An open terminal interleaves its two copying loops and the
  watchdog event by event.

  \<^bold>\<open>Not modelled.\<close>  The HTTP and WebSocket transport and the matching of a URL against the patterns of
  \<open>chi\<close> (parameters, see above); timeouts and cancelled contexts, which the parameters show as failures;
  listening sockets, signals and the orderly shutdown; logging; the headers of the gateway's responses;
  \<open>recoverer\<close> of the gateway, whose handlers have no panic in the model; the front end and the deployment
  files.
\<close>

section \<open>The server and the gateway together\<close>

text \<open>
  C2: end-to-end authorization.  Whenever a request of a browser leads to a Docker call that acts on a container, a
  restart or the creation of a process, the request carried the cookie of a live session of an enabled
  user and came from a page of the application; it was a restart request for that very container or the
  connection of a terminal; the user holds the permission, the policies listed for this request allow the
  action, the container carries neither label in the document on which this was decided, and the two
  processes share a secret of at least 32 bytes.  The server is connected to the gateway by a network that
  routes the two acting requests as the route table of the gateway says.
\<close>

theorem container_actions_authorized:
  assumes "connected ge net se" and "routes_to (gc_BaseURL (gateway_client se)) net" and "Handle se route r sv = (resp, sv')"
    and "en_calls (gw_engine (lk_gateway (sv_gateway sv'))) = en_calls (gw_engine (lk_gateway (sv_gateway sv))) @ cs"
    and "c \<in> set cs" and "acts_on c = Some cid"
  shows "\<exists>token sess st st' action v. sq_cookie r = Some token \<and> ResolveSession token (se_env se) (sv_store sv) = (Inr sess, st)
    \<and> own_page se r sess
    \<and> (route = Protected PRestart \<and> action = ''container.restart'' \<and> cid = sq_param r
       \<or> route = Protected GTerminalWS \<and> action = ''container.exec'')
    \<and> action \<in> set (user_Permissions (session_User sess)) \<and> only_activity (sv_db sv) (snd st')
    \<and> authorized se (sv\<lparr>sv_store := st'\<rparr>) (session_User sess) action cid v
    \<and> \<not> res_System (resource_of v) \<and> \<not> res_Protected (resource_of v)
    \<and> 32 \<le> length (cfg_GatewaySecret (se_cfg se))"
proof -
  have "link_acts se {} (sv_gateway sv) (sv_gateway sv') \<Longrightarrow> False"
    using assms(4-6) by (auto simp: acts_within_def only_calls_def)
  with acting_request [OF assms(1-3)] obtain action x where
    route: "route = Protected PRestart \<and> action = ''container.restart'' \<and> x = sq_param r \<or> route = Protected GTerminalWS \<and> action = ''container.exec''"
    and passed: "passed se r sv action x" and acts: "link_acts se {x} (sv_gateway sv) (sv_gateway sv')" by blast
  from acts assms(4-6) have x: "x = cid" and secret: "32 \<le> length (gc_Secret (gateway_client se))"
    by (auto simp: acts_within_def only_calls_def)
  from passed obtain token sess st st' v where *: "sq_cookie r = Some token" "ResolveSession token (se_env se) (sv_store sv) = (Inr sess, st)"
    "own_page se r sess" "only_activity (sv_db sv) (snd st')" "authorized se (sv\<lparr>sv_store := st'\<rparr>) (session_User sess) action cid v"
    unfolding passed_def x by blast
  then obtain ps where "Allowed (Evaluate (session_User sess) action (resource_of v) ps)" by (auto simp: authorized_def)
  then have "rbac_Allowed (session_User sess) action" "\<not> immutable action (resource_of v)" by (simp_all add: engine.allowed_iff)
  then have "action \<in> set (user_Permissions (session_User sess))" "\<not> res_System (resource_of v)" "\<not> res_Protected (resource_of v)"
    using route by (auto simp: rbac_Allowed_def list_ex_iff immutable_def privileged_action_def)
  with * route x secret show ?thesis
    by (intro exI [of _ token] exI [of _ sess] exI [of _ st] exI [of _ st'] exI [of _ action] exI [of _ v])
      (simp add: gateway_client_def NewGatewayClient_def)
qed

theorem container_actions_authorized_witness:
  "\<exists>resp sv' sess st. Handle site_env (Protected PRestart) demo_request site_server = (resp, sv')
     \<and> CContainerRestart ''abc'' 10 \<in> set (en_calls (gw_engine (lk_gateway (sv_gateway sv'))))
     \<and> ResolveSession ''tok'' calm_env (0, site_db) = (Inr sess, st) \<and> ''container.restart'' \<in> set (user_Permissions (session_User sess))"
proof -
  obtain resp sv' where h: "Handle site_env (Protected PRestart) demo_request site_server = (resp, sv')"
    and g: "sv_gateway sv' = site_link [CContainerInspect ''abc'', CContainerInspect ''abc'', CContainerRestart ''abc'' 10]"
    using site_run by blast
  have calls: "en_calls (gw_engine (lk_gateway (sv_gateway sv'))) = en_calls (gw_engine (lk_gateway (sv_gateway site_server)))
      @ [CContainerInspect ''abc'', CContainerInspect ''abc'', CContainerRestart ''abc'' 10]"
    by (simp add: g site_server_def New_def site_link_def)
  have "\<exists>sess st. ResolveSession ''tok'' (se_env site_env) (sv_store site_server) = (Inr sess, st)
      \<and> ''container.restart'' \<in> set (user_Permissions (session_User sess))"
    using container_actions_authorized [OF site_connected site_routes h calls, of "CContainerRestart ''abc'' 10" "''abc''"] by auto
  with h calls show ?thesis by (auto simp: site_env_def site_server_def New_def)
qed

end
